theory Spec2Isabelle
  imports Main
begin

section \<open>Strings and names\<close>

text \<open>
  Identifiers of the pass are dotted strings. The string helpers below live in the
  project's utility file, which is not part of the translated source file.

  Modelled from the spec: \<open>starts_with\<close> and \<open>ends_with\<close> (Util), the plain prefix and
  suffix tests on strings.
\<close>

definition starts_with :: "string \<Rightarrow> string \<Rightarrow> bool" where
  "starts_with str pre = (length pre \<le> length str \<and> take (length pre) str = pre)"

definition ends_with :: "string \<Rightarrow> string \<Rightarrow> bool" where
  "ends_with str suf =
     (length suf \<le> length str \<and> drop (length str - length suf) str = suf)"

text \<open>\<open>std::to_string\<close> on an unsigned number: its decimal digits.\<close>

definition digit_char :: "nat \<Rightarrow> char" where
  "digit_char d = char_of (48 + d)"

function to_string :: "nat \<Rightarrow> string" where
  "to_string n =
     (if n < 10 then [digit_char n] else to_string (n div 10) @ [digit_char (n mod 10)])"
  by pat_completeness auto
termination
  by (relation "measure id") auto

declare to_string.simps [simp del]

text \<open>\<open>var_name_match\<close> (source lines 41-47). The source asserts that \<open>var\<close> is unqualified.\<close>

datatype error = InternalError | UserError

definition var_name_match :: "string \<Rightarrow> string \<Rightarrow> error + bool" where
  "var_name_match candidate var =
     (if CHR ''.'' \<in> set var then Inl InternalError
      else if candidate = var then Inr True
      else Inr (ends_with candidate (''.'' @ var)))"

section \<open>The IR surface\<close>

text \<open>
  The statement and expression nodes are declared in the project's IR header. The
  datatypes below carry the node kinds this pass builds or inspects, with the fields the
  pass reads. All binary operator nodes share one constructor.
\<close>

datatype Type = Int_t nat | UInt_t nat | Float_t nat | Handle_t

definition is_handle :: "Type \<Rightarrow> bool" where
  "is_handle t = (t = Handle_t)"

datatype BinOp = Add | Sub | Mul | Min_op | Max_op | EQ | NE | LT | LE | GT | GE | And | Or

datatype CallType = Image | Extern | ExternCPlusPlus | PureExtern | Halide | Intrinsic | PureIntrinsic

datatype Expr =
    IntImm int
  | StringImm string
  | Variable Type string
  | Bin BinOp Expr Expr
  | Call Type string "Expr list" CallType
  | Let_e string Expr Expr

datatype ForType = Serial | Parallel | Vectorized | Unrolled

datatype DeviceAPI = DeviceAPI_None | DeviceAPI_Host | Default_GPU | CUDA | OpenCL

datatype Stmt =
    For string Expr Expr ForType DeviceAPI Stmt
  | LetStmt string Expr Stmt
  | IfThenElse Expr Stmt "Stmt option"
  | Block Stmt Stmt
  | Provide string "Expr list" "Expr list"
  | Realize string "Type list" "(Expr \<times> Expr) list" Expr Stmt
  | ProducerConsumer string bool Stmt
  | AssertStmt Expr Expr
  | Evaluate Expr

text \<open>Operator shorthands of the source (\<open>a + b\<close>, \<open>a <= b\<close>, \<open>a && b\<close>, integer constants).\<close>

definition var32 :: "string \<Rightarrow> Expr" where
  "var32 n = Variable (Int_t 32) n"

definition const32 :: "int \<Rightarrow> Expr" where
  "const32 i = IntImm i"

definition const_true :: Expr where
  "const_true = IntImm 1"

section \<open>Uses of a function in a statement\<close>

text \<open>
  \<open>IsUsedInStmt\<close> (source lines 560-590) is a visitor with one mutable flag \<open>result\<close>.
  The flag is threaded through the traversal: each visit receives the flag and returns
  it, possibly set. Children are visited in the order of the default visitor.
\<close>

definition names_buffer_of :: "string \<Rightarrow> Type \<Rightarrow> string \<Rightarrow> bool" where
  "names_buffer_of func t n =
     (is_handle t \<and> starts_with n (func @ ''.'') \<and> ends_with n ''.buffer'')"

fun IsUsedInStmt_expr :: "string \<Rightarrow> Expr \<Rightarrow> bool \<Rightarrow> bool" where
  "IsUsedInStmt_expr func (IntImm i) result = result"
| "IsUsedInStmt_expr func (StringImm s) result = result"
| "IsUsedInStmt_expr func (Variable t n) result =
     (if names_buffer_of func t n then True else result)"
| "IsUsedInStmt_expr func (Bin op a b) result =
     IsUsedInStmt_expr func b (IsUsedInStmt_expr func a result)"
| "IsUsedInStmt_expr func (Call t n args ct) result =
     (let r = fold (IsUsedInStmt_expr func) args result in if n = func then True else r)"
| "IsUsedInStmt_expr func (Let_e n v b) result =
     IsUsedInStmt_expr func b (IsUsedInStmt_expr func v result)"

fun IsUsedInStmt_stmt :: "string \<Rightarrow> Stmt \<Rightarrow> bool \<Rightarrow> bool" where
  "IsUsedInStmt_stmt func (For n mn ext ft dev body) result =
     IsUsedInStmt_stmt func body
       (IsUsedInStmt_expr func ext (IsUsedInStmt_expr func mn result))"
| "IsUsedInStmt_stmt func (LetStmt n v body) result =
     IsUsedInStmt_stmt func body (IsUsedInStmt_expr func v result)"
| "IsUsedInStmt_stmt func (IfThenElse c t e) result =
     (let r = IsUsedInStmt_stmt func t (IsUsedInStmt_expr func c result)
      in case e of None \<Rightarrow> r | Some e' \<Rightarrow> IsUsedInStmt_stmt func e' r)"
| "IsUsedInStmt_stmt func (Block a b) result =
     IsUsedInStmt_stmt func b (IsUsedInStmt_stmt func a result)"
| "IsUsedInStmt_stmt func (Provide n vals args) result =
     fold (IsUsedInStmt_expr func) args (fold (IsUsedInStmt_expr func) vals result)"
| "IsUsedInStmt_stmt func (Realize n ts bounds c body) result =
     IsUsedInStmt_stmt func body
       (IsUsedInStmt_expr func c
         (fold (\<lambda>(mn, ext) r. IsUsedInStmt_expr func ext (IsUsedInStmt_expr func mn r))
            bounds result))"
| "IsUsedInStmt_stmt func (ProducerConsumer n p body) result =
     IsUsedInStmt_stmt func body result"
| "IsUsedInStmt_stmt func (AssertStmt c m) result =
     IsUsedInStmt_expr func m (IsUsedInStmt_expr func c result)"
| "IsUsedInStmt_stmt func (Evaluate v) result = IsUsedInStmt_expr func v result"

definition function_is_used_in_stmt :: "string \<Rightarrow> Stmt \<Rightarrow> bool" where
  "function_is_used_in_stmt func s = IsUsedInStmt_stmt func s False"

section \<open>Schedules, definitions and functions\<close>

text \<open>
  Modelled from the spec: \<open>LoopLevel\<close> (the schedule header is not part of the translated
  source file). A loop level is inline, root or a pair (function, var); it is held as the
  name of its function and the name of its variable. Root is the level with no function
  and the variable \<open>__root\<close>, inline is the level with no variable. A level matches a loop
  name that starts with its function and a dot and ends with a dot and its variable; two
  levels match when their functions agree and one variable is the other, possibly
  qualified.
\<close>

record LoopLevel =
  level_func :: string
  level_var :: string

definition LoopLevel_inline :: LoopLevel where
  "LoopLevel_inline = \<lparr>level_func = [], level_var = []\<rparr>"

definition LoopLevel_root :: LoopLevel where
  "LoopLevel_root = \<lparr>level_func = [], level_var = ''__root''\<rparr>"

definition is_inline :: "LoopLevel \<Rightarrow> bool" where
  "is_inline l = (level_var l = [])"

definition is_root :: "LoopLevel \<Rightarrow> bool" where
  "is_root l = (level_var l = ''__root'')"

definition level_to_string :: "LoopLevel \<Rightarrow> string" where
  "level_to_string l = level_func l @ ''.'' @ level_var l"

definition match_loop :: "LoopLevel \<Rightarrow> string \<Rightarrow> bool" where
  "match_loop l loop =
     (starts_with loop (level_func l @ ''.'') \<and> ends_with loop (''.'' @ level_var l))"

definition match_level :: "LoopLevel \<Rightarrow> LoopLevel \<Rightarrow> bool" where
  "match_level l other =
     (level_func l = level_func other \<and>
      (level_var l = level_var other \<or>
       ends_with (level_var l) (''.'' @ level_var other) \<or>
       ends_with (level_var other) (''.'' @ level_var l)))"

record Dim =
  dim_var :: string
  for_type :: ForType
  device_api :: DeviceAPI

text \<open>A user bound: each of min, extent and modulus may be undefined.\<close>

record Bound =
  bound_var :: string
  bound_min :: "Expr option"
  bound_extent :: "Expr option"
  bound_modulus :: "Expr option"

record ReductionVariable =
  rvar_var :: string
  rvar_min :: Expr
  rvar_extent :: Expr

record FusedPair =
  func_1 :: string
  stage_1 :: nat
  func_2 :: string
  stage_2 :: nat
  var_name :: string

text \<open>Split directives are only handed on to the apply-splits helper.\<close>

typedecl Split

record Schedule =
  dims :: "Dim list"
  splits :: "Split list"
  bounds :: "Bound list"
  rvars :: "ReductionVariable list"
  store_level :: LoopLevel
  compute_level :: LoopLevel
  fuse_level :: LoopLevel
  fused_pairs :: "FusedPair list"
  touched :: bool
  memoized :: bool

datatype Definition =
  Definition (def_is_init: bool) (def_args: "Expr list") (def_values: "Expr list")
    (def_schedule: Schedule) (split_predicate: "Expr list")
    (specializations: "(Expr \<times> Definition) list")

record Function =
  func_name :: string
  func_args :: "string list"
  func_definition :: Definition
  func_updates :: "Definition list"
  output_types :: "Type list"
  has_extern_definition :: bool

text \<open>The schedule of a function is the schedule of its initial definition.\<close>

definition func_schedule :: "Function \<Rightarrow> Schedule" where
  "func_schedule f = def_schedule (func_definition f)"

record Target =
  NoAsserts :: bool
  MSAN :: bool

section \<open>Explicit-bound assertions and the realize node\<close>

text \<open>
  \<open>inject_explicit_bounds\<close> (source lines 528-558). The body of the inner loop is
  \<open>explicit_bound_step\<close>: a bound without an extent takes the \<open>continue\<close>.
\<close>

definition explicit_bound_step :: "string \<Rightarrow> nat \<Rightarrow> Bound \<Rightarrow> Stmt \<Rightarrow> Stmt" where
  "explicit_bound_step fname stage b body =
     (let prefix = fname @ ''.s'' @ to_string stage @ ''.'' @ bound_var b;
          min_name = prefix @ ''.min_unbounded'';
          max_name = prefix @ ''.max_unbounded'';
          min_var = var32 min_name;
          max_var = var32 max_name;
          b_min = (case bound_min b of None \<Rightarrow> min_var | Some m \<Rightarrow> m)
      in case bound_extent b of
           None \<Rightarrow> body
         | Some b_extent \<Rightarrow>
             (let max_val = Bin Sub (Bin Add b_extent b_min) (const32 1);
                  min_val = b_min;
                  check = Bin And (Bin LE min_val min_var) (Bin GE max_val max_var);
                  error_msg = Call (Int_t 32) ''halide_error_explicit_bounds_too_small''
                                [StringImm (bound_var b), StringImm fname,
                                 min_val, max_val, min_var, max_var] Extern
              in Block (AssertStmt check error_msg) body))"

definition inject_explicit_bounds :: "Stmt \<Rightarrow> Function \<Rightarrow> Stmt" where
  "inject_explicit_bounds body func =
     fold (\<lambda>stage body1.
             fold (\<lambda>b body2. explicit_bound_step (func_name func) stage b body2)
               (bounds (func_schedule func)) body1)
       [0 ..< length (func_updates func) + 1] body"

text \<open>\<open>build_realize\<close> (source lines 700-722 and, for a group member, 1253-1275).\<close>

definition build_realize :: "Target \<Rightarrow> Function \<Rightarrow> bool \<Rightarrow> Stmt \<Rightarrow> Stmt" where
  "build_realize target func is_output s =
     (let s1 = (if \<not> is_output then
                  Realize (func_name func) (output_types func)
                    (map (\<lambda>arg. (var32 (func_name func @ ''.'' @ arg @ ''.min_realized''),
                                 var32 (func_name func @ ''.'' @ arg @ ''.extent_realized'')))
                       (func_args func))
                    const_true s
                else s)
      in if NoAsserts target then s1 else inject_explicit_bounds s1 func)"

text \<open>\<open>IsRealizedInStmt\<close> (source lines 592-612): the flag is set at a Realize of the function.\<close>

fun IsRealizedInStmt :: "string \<Rightarrow> Stmt \<Rightarrow> bool \<Rightarrow> bool" where
  "IsRealizedInStmt func (For n mn ext ft dev body) result = IsRealizedInStmt func body result"
| "IsRealizedInStmt func (LetStmt n v body) result = IsRealizedInStmt func body result"
| "IsRealizedInStmt func (IfThenElse c t e) result =
     (let r = IsRealizedInStmt func t result
      in case e of None \<Rightarrow> r | Some e' \<Rightarrow> IsRealizedInStmt func e' r)"
| "IsRealizedInStmt func (Block a b) result =
     IsRealizedInStmt func b (IsRealizedInStmt func a result)"
| "IsRealizedInStmt func (Provide n vals args) result = result"
| "IsRealizedInStmt func (Realize n ts bnds c body) result =
     (let r = IsRealizedInStmt func body result in if n = func then True else r)"
| "IsRealizedInStmt func (ProducerConsumer n p body) result = IsRealizedInStmt func body result"
| "IsRealizedInStmt func (AssertStmt c m) result = result"
| "IsRealizedInStmt func (Evaluate v) result = result"

definition function_is_already_realized_in_stmt :: "string \<Rightarrow> Stmt \<Rightarrow> bool" where
  "function_is_already_realized_in_stmt func s = IsRealizedInStmt func s False"

section \<open>Helpers of other components\<close>

text \<open>
  Modelled from the spec: \<open>substitute(name, value, stmt)\<close> (Substitute) puts the value in
  the place of every free occurrence of the variable; a let or a loop that binds the same
  name hides it in its body.
\<close>

fun substitute_expr :: "string \<Rightarrow> Expr \<Rightarrow> Expr \<Rightarrow> Expr" where
  "substitute_expr name r (IntImm i) = IntImm i"
| "substitute_expr name r (StringImm s) = StringImm s"
| "substitute_expr name r (Variable t n) = (if n = name then r else Variable t n)"
| "substitute_expr name r (Bin op a b) =
     Bin op (substitute_expr name r a) (substitute_expr name r b)"
| "substitute_expr name r (Call t n args ct) = Call t n (map (substitute_expr name r) args) ct"
| "substitute_expr name r (Let_e n v b) =
     Let_e n (substitute_expr name r v) (if n = name then b else substitute_expr name r b)"

fun substitute :: "string \<Rightarrow> Expr \<Rightarrow> Stmt \<Rightarrow> Stmt" where
  "substitute name r (For n mn ext ft dev body) =
     For n (substitute_expr name r mn) (substitute_expr name r ext) ft dev
       (if n = name then body else substitute name r body)"
| "substitute name r (LetStmt n v body) =
     LetStmt n (substitute_expr name r v) (if n = name then body else substitute name r body)"
| "substitute name r (IfThenElse c t e) =
     IfThenElse (substitute_expr name r c) (substitute name r t)
       (case e of None \<Rightarrow> None | Some e' \<Rightarrow> Some (substitute name r e'))"
| "substitute name r (Block a b) = Block (substitute name r a) (substitute name r b)"
| "substitute name r (Provide n vals args) =
     Provide n (map (substitute_expr name r) vals) (map (substitute_expr name r) args)"
| "substitute name r (Realize n ts bnds c body) =
     Realize n ts
       (map (\<lambda>(mn, ext). (substitute_expr name r mn, substitute_expr name r ext)) bnds)
       (substitute_expr name r c) (substitute name r body)"
| "substitute name r (ProducerConsumer n p body) = ProducerConsumer n p (substitute name r body)"
| "substitute name r (AssertStmt c m) =
     AssertStmt (substitute_expr name r c) (substitute_expr name r m)"
| "substitute name r (Evaluate v) = Evaluate (substitute_expr name r v)"

text \<open>
  Modelled from the spec: \<open>expr_uses_var(e, v)\<close> (ExprUsesVar) holds when a variable
  named \<open>v\<close> occurs in \<open>e\<close>.
\<close>

fun expr_uses_var :: "Expr \<Rightarrow> string \<Rightarrow> bool" where
  "expr_uses_var (IntImm i) v = False"
| "expr_uses_var (StringImm s) v = False"
| "expr_uses_var (Variable t n) v = (n = v)"
| "expr_uses_var (Bin op a b) v = (expr_uses_var a v \<or> expr_uses_var b v)"
| "expr_uses_var (Call t n args ct) v = list_ex (\<lambda>a. expr_uses_var a v) args"
| "expr_uses_var (Let_e n val b) v = (expr_uses_var val v \<or> expr_uses_var b v)"

text \<open>
  Modelled from the spec: a call is pure when its call type is a pure extern, an image
  load or a pure intrinsic (\<open>Call::is_pure\<close> of the IR header); \<open>likely(e)\<close> wraps \<open>e\<close> in
  the pure intrinsic of that name.
\<close>

definition is_pure :: "CallType \<Rightarrow> bool" where
  "is_pure ct = (ct = PureExtern \<or> ct = Image \<or> ct = PureIntrinsic)"

definition likely :: "Expr \<Rightarrow> Expr" where
  "likely e = Call (UInt_t 1) ''likely'' [e] PureIntrinsic"

text \<open>
  The remaining collaborators are parameters of the development: the apply-splits
  procedure, the loop bounds after a split, qualification of names, the simplifier, and
  the emitter of the call of an extern stage.
\<close>

record ApplySplitResult =
  substitutions :: "(string \<times> Expr) list"
  let_stmts :: "(string \<times> Expr) list"
  predicates :: "Expr list"

record Ext =
  apply_splits :: "Split list \<Rightarrow> bool \<Rightarrow> string \<Rightarrow> (string \<rightharpoonup> Expr) \<Rightarrow> ApplySplitResult"
  compute_loop_bounds_after_split :: "Split \<Rightarrow> string \<Rightarrow> (string \<times> Expr) list"
  qualify :: "string \<Rightarrow> Expr \<Rightarrow> Expr"
  simplify :: "Expr \<Rightarrow> Expr"
  extern_produce :: "Function \<Rightarrow> Target \<Rightarrow> Stmt"

section \<open>The loop-nest builder\<close>

text \<open>\<open>ContainsImpureCall\<close> (source lines 51-71): a visitor with the flag \<open>result\<close>.\<close>

fun ContainsImpureCall :: "Expr \<Rightarrow> bool \<Rightarrow> bool" where
  "ContainsImpureCall (IntImm i) result = result"
| "ContainsImpureCall (StringImm s) result = result"
| "ContainsImpureCall (Variable t n) result = result"
| "ContainsImpureCall (Bin op a b) result = ContainsImpureCall b (ContainsImpureCall a result)"
| "ContainsImpureCall (Call t n args ct) result =
     (if \<not> is_pure ct then True else fold ContainsImpureCall args result)"
| "ContainsImpureCall (Let_e n v b) result = ContainsImpureCall b (ContainsImpureCall v result)"

definition contains_impure_call :: "Expr \<Rightarrow> bool" where
  "contains_impure_call e = ContainsImpureCall e False"

text \<open>The containers of a loop nest (source lines 30-39). A loop container has no value.\<close>

datatype ContainerType = Container_For | Container_Let | Container_If

record Container =
  container_type :: ContainerType
  dim_idx :: nat
  container_name :: string
  container_value :: "Expr option"

text \<open>A loop over a mutable state that stops at the first failed assertion.\<close>

fun fold_err :: "('a \<Rightarrow> 's \<Rightarrow> error + 's) \<Rightarrow> 'a list \<Rightarrow> 's \<Rightarrow> error + 's" where
  "fold_err f [] s = Inr s"
| "fold_err f (x # xs) s = (case f x s of Inl e \<Rightarrow> Inl e | Inr s' \<Rightarrow> fold_err f xs s')"

text \<open>
  The inner loop of both sorts (source lines 173-181 and 195-203):
  \<open>push_up nest k\<close> runs \<open>j\<close> from \<open>k - 1\<close> down to \<open>0\<close>; the container that moves is at
  \<open>j + 1\<close>.
\<close>

definition swap_containers :: "Container list \<Rightarrow> nat \<Rightarrow> Container list" where
  "swap_containers nest j = nest[j := nest ! Suc j, Suc j := nest ! j]"

fun push_up :: "Container list \<Rightarrow> nat \<Rightarrow> error + Container list" where
  "push_up nest 0 = Inr nest"
| "push_up nest (Suc j) =
     (case container_value (nest ! Suc j) of
        None \<Rightarrow> Inl InternalError
      | Some v \<Rightarrow>
          if \<not> expr_uses_var v (container_name (nest ! j))
          then push_up (swap_containers nest j) j
          else Inr nest)"

definition sort_let_step :: "nat \<Rightarrow> Container list \<Rightarrow> error + Container list" where
  "sort_let_step i nest =
     (if container_value (nest ! i) = None then Inl InternalError
      else if container_type (nest ! i) \<noteq> Container_Let then Inl InternalError
      else push_up nest i)"

definition sort_lets :: "nat \<Rightarrow> nat \<Rightarrow> Container list \<Rightarrow> error + Container list" where
  "sort_lets n_dims n_predicates nest =
     fold_err sort_let_step [n_dims ..< length nest - n_predicates] nest"

definition sort_predicate_step :: "nat \<Rightarrow> Container list \<Rightarrow> error + Container list" where
  "sort_predicate_step i nest =
     (case container_value (nest ! i) of
        None \<Rightarrow> Inl InternalError
      | Some v \<Rightarrow>
          if container_type (nest ! i) \<noteq> Container_If then Inl InternalError
          else if contains_impure_call v then Inr nest
          else push_up nest i)"

definition sort_predicates :: "nat \<Rightarrow> Container list \<Rightarrow> error + Container list" where
  "sort_predicates n_predicates nest =
     fold_err sort_predicate_step [length nest - n_predicates ..< length nest] nest"

text \<open>Rewrapping the statement in its containers, innermost first (source lines 206-221).\<close>

definition rewrap_step :: "Dim list \<Rightarrow> Container \<Rightarrow> Stmt \<Rightarrow> error + Stmt" where
  "rewrap_step ds c stmt =
     (case container_type c of
        Container_Let \<Rightarrow>
          (case container_value c of
             None \<Rightarrow> Inl InternalError
           | Some v \<Rightarrow> Inr (LetStmt (container_name c) v stmt))
      | Container_If \<Rightarrow>
          (case container_value c of
             None \<Rightarrow> Inl InternalError
           | Some v \<Rightarrow> Inr (IfThenElse v stmt None))
      | Container_For \<Rightarrow>
          (let dim = ds ! dim_idx c;
               mn = var32 (container_name c @ ''.loop_min'');
               extent = var32 (container_name c @ ''.loop_extent'')
           in Inr (For (container_name c) mn extent (for_type dim) (device_api dim) stmt)))"

fun strip_lets :: "Stmt \<Rightarrow> (string \<times> Expr) list \<times> Stmt" where
  "strip_lets (LetStmt n v body) = (let (ls, s) = strip_lets body in ((n, v) # ls, s))"
| "strip_lets s = ([], s)"

definition fused_guard :: "string \<Rightarrow> Dim \<Rightarrow> Stmt \<Rightarrow> Stmt" where
  "fused_guard prefix dim stmt =
     (let var = var32 (prefix @ dim_var dim);
          mx = var32 (prefix @ dim_var dim @ ''.loop_max'');
          mn = var32 (prefix @ dim_var dim @ ''.loop_min'')
      in IfThenElse (likely (Bin LE var mx)) (IfThenElse (likely (Bin LE mn var)) stmt None) None)"

definition dim_extent_alignment :: "Schedule \<Rightarrow> (string \<rightharpoonup> Expr)" where
  "dim_extent_alignment s =
     fold (\<lambda>rv m. m(rvar_var rv \<mapsto> rvar_extent rv)) (rvars s)
       (fold (\<lambda>b m.
                (let m1 = (case bound_extent b of None \<Rightarrow> m | Some e \<Rightarrow> m(bound_var b \<mapsto> e))
                 in case bound_modulus b of None \<Rightarrow> m1 | Some md \<Rightarrow> m1(bound_var b \<mapsto> md)))
          (bounds s) Map.empty)"

definition loop_bound_lets :: "string \<Rightarrow> string list \<Rightarrow> ReductionVariable list \<Rightarrow> Stmt \<Rightarrow> Stmt" where
  "loop_bound_lets prefix pure_dims rvs stmt =
     (let om = prefix @ ''__outermost'';
          stmt1 = LetStmt (om @ ''.loop_extent'') (const32 1)
                    (LetStmt (om @ ''.loop_max'') (const32 0)
                       (LetStmt (om @ ''.loop_min'') (const32 0) stmt));
          stmt2 = fold (\<lambda>i st.
                     (let var = prefix @ i;
                          mx = var32 (var @ ''.max'');
                          mn = var32 (var @ ''.min'')
                      in LetStmt (var @ ''.loop_max'') mx
                           (LetStmt (var @ ''.loop_min'') mn
                              (LetStmt (var @ ''.loop_extent'')
                                 (Bin Sub (Bin Add mx (const32 1)) mn) st))))
                    pure_dims stmt1
      in fold (\<lambda>rv st.
                 (let p = prefix @ rvar_var rv;
                      rmin = var32 (p @ ''.min'');
                      rmax = var32 (p @ ''.max'')
                  in LetStmt (p @ ''.loop_extent'') (Bin Add (Bin Sub rmax rmin) (const32 1))
                       (LetStmt (p @ ''.loop_max'') rmax
                          (LetStmt (p @ ''.loop_min'') rmin st))))
           rvs stmt2)"

text \<open>\<open>build_provide_loop_nest_helper\<close> (source lines 74-267).\<close>

definition build_nest :: "string \<Rightarrow> Dim list \<Rightarrow> ApplySplitResult \<Rightarrow> (string \<times> Expr) list \<Rightarrow>
    Expr list \<Rightarrow> Container list" where
  "build_nest prefix ds splits_result stripped preds =
     map (\<lambda>i. \<lparr>container_type = Container_For, dim_idx = i,
                container_name = prefix @ dim_var (ds ! i), container_value = None\<rparr>)
       (rev [0 ..< length ds])
     @ map (\<lambda>l. \<lparr>container_type = Container_Let, dim_idx = 0,
                  container_name = fst l, container_value = Some (snd l)\<rparr>)
         (rev (let_stmts splits_result))
     @ map (\<lambda>l. \<lparr>container_type = Container_Let, dim_idx = 0,
                  container_name = fst l, container_value = Some (snd l)\<rparr>)
         stripped
     @ map (\<lambda>p. \<lparr>container_type = Container_If, dim_idx = 0,
                  container_name = [], container_value = Some p\<rparr>)
         (predicates splits_result @ preds)"

definition build_provide_loop_nest_helper ::
  "Ext \<Rightarrow> string \<Rightarrow> string \<Rightarrow> int \<Rightarrow> string list \<Rightarrow> Expr list \<Rightarrow> Expr list \<Rightarrow> Expr list \<Rightarrow>
     Schedule \<Rightarrow> bool \<Rightarrow> error + Stmt" where
  "build_provide_loop_nest_helper ext fname prefix start_fuse pure_dims site vals preds s is_update =
     (let stmt0 = Provide fname vals site;
          fused = (if start_fuse < 0 then []
                   else map (\<lambda>i. dims s ! i) [nat start_fuse ..< length (dims s) - 1]);
          stmt1 = fold (fused_guard prefix) fused stmt0;
          splits_result = apply_splits ext (splits s) is_update prefix (dim_extent_alignment s);
          stmt2 = fold (\<lambda>sub st. substitute (fst sub) (snd sub) st)
                    (substitutions splits_result) stmt1;
          stripped = fst (strip_lets stmt2);
          stmt3 = snd (strip_lets stmt2);
          n_predicates = length (predicates splits_result) + length preds;
          nest = build_nest prefix (dims s) splits_result stripped
                   (map (\<lambda>p. likely (qualify ext prefix p)) preds)
      in case sort_lets (length (dims s)) n_predicates nest of
           Inl e \<Rightarrow> Inl e
         | Inr nest1 \<Rightarrow>
             (case sort_predicates n_predicates nest1 of
                Inl e \<Rightarrow> Inl e
              | Inr nest2 \<Rightarrow>
                  (case fold_err (rewrap_step (dims s)) (rev nest2) stmt3 of
                     Inl e \<Rightarrow> Inl e
                   | Inr stmt4 \<Rightarrow>
                       Inr (loop_bound_lets prefix pure_dims (rvars s)
                              (fold (\<lambda>sp st. fold (\<lambda>l st1. LetStmt (fst l) (snd l) st1)
                                                (compute_loop_bounds_after_split ext sp prefix) st)
                                 (rev (splits s)) stmt4)))))"


text \<open>
  \<open>build_provide_loop_nest\<close> (source lines 270-315). The loop over the specializations
  runs from the last to the first; \<open>specialized_copies\<close> is that loop, over the reversed
  list, with the statement built so far.
\<close>

lemma size_specializations:
  "size_list (\<lambda>p. size (snd p)) (specializations d) < size d"
proof (cases d)
  case (Definition i a v s p specs)
  have "size_list (\<lambda>p. size (snd p)) specs \<le> size_list (size_prod (\<lambda>x. 0) size) specs"
    by (induction specs) auto
  with Definition show ?thesis by simp
qed

lemma size_list_rev: "size_list f (rev xs) = size_list f xs"
  by (induction xs) (simp_all add: size_list_append)

function build_provide_loop_nest ::
    "Ext \<Rightarrow> string \<Rightarrow> string \<Rightarrow> int \<Rightarrow> string list \<Rightarrow> Definition \<Rightarrow> bool \<Rightarrow> error + Stmt"
  and specialized_copies ::
    "Ext \<Rightarrow> string \<Rightarrow> string \<Rightarrow> int \<Rightarrow> string list \<Rightarrow> bool \<Rightarrow> (Expr \<times> Definition) list \<Rightarrow>
       Stmt \<Rightarrow> error + Stmt" where
  "build_provide_loop_nest ext fname prefix start_fuse pure_dims d is_update =
     (if (\<not> is_update) \<noteq> def_is_init d then Inl InternalError
      else
        (let vals = map (qualify ext prefix) (def_values d);
             site = map (qualify ext prefix) (def_args d)
         in case build_provide_loop_nest_helper ext fname prefix start_fuse pure_dims site vals
                   (split_predicate d) (def_schedule d) is_update of
              Inl e \<Rightarrow> Inl e
            | Inr stmt \<Rightarrow>
                specialized_copies ext fname prefix start_fuse pure_dims is_update
                  (rev (specializations d)) stmt))"
| "specialized_copies ext fname prefix start_fuse pure_dims is_update [] stmt = Inr stmt"
| "specialized_copies ext fname prefix start_fuse pure_dims is_update (sp # rest) stmt =
     (case build_provide_loop_nest ext fname prefix start_fuse pure_dims (snd sp) is_update of
        Inl e \<Rightarrow> Inl e
      | Inr then_case \<Rightarrow>
          specialized_copies ext fname prefix start_fuse pure_dims is_update rest
            (IfThenElse (fst sp) then_case (Some stmt)))"
  by pat_completeness auto
termination
  by (relation "measure (\<lambda>x. case x of
          Inl (ext, fname, prefix, start_fuse, pure_dims, d, is_update) \<Rightarrow> size d
        | Inr (ext, fname, prefix, start_fuse, pure_dims, is_update, specs, stmt) \<Rightarrow>
            size_list (\<lambda>p. size (snd p)) specs)")
     (auto simp: size_list_rev size_specializations)

declare build_provide_loop_nest.simps [simp del]


section \<open>Production of a function\<close>

text \<open>
  \<open>build_produce\<close>, \<open>build_update\<close> and \<open>build_production\<close> (source lines 323-523). The
  branch of \<open>build_produce\<close> for a function with an extern definition is the collaborator
  \<open>extern_produce\<close>.

  Modelled from the spec: \<open>Block::make\<close> on a list of statements (IR) is undefined for the
  empty list and nests the blocks to the right otherwise.
\<close>

fun block_of :: "Stmt \<Rightarrow> Stmt list \<Rightarrow> Stmt" where
  "block_of s [] = s"
| "block_of s (t # ts) = Block s (block_of t ts)"

definition Block_make :: "Stmt list \<Rightarrow> Stmt option" where
  "Block_make stmts = (case stmts of [] \<Rightarrow> None | s # ss \<Rightarrow> Some (block_of s ss))"

fun map_err :: "('a \<Rightarrow> error + 'b) \<Rightarrow> 'a list \<Rightarrow> error + 'b list" where
  "map_err f [] = Inr []"
| "map_err f (x # xs) =
     (case f x of
        Inl e \<Rightarrow> Inl e
      | Inr y \<Rightarrow> (case map_err f xs of Inl e \<Rightarrow> Inl e | Inr ys \<Rightarrow> Inr (y # ys)))"

definition build_produce :: "Ext \<Rightarrow> Function \<Rightarrow> Target \<Rightarrow> error + Stmt" where
  "build_produce ext f target =
     (if has_extern_definition f then Inr (extern_produce ext f target)
      else build_provide_loop_nest ext (func_name f) (func_name f @ ''.s0.'') (- 1)
             (func_args f) (func_definition f) False)"

definition build_update :: "Ext \<Rightarrow> Function \<Rightarrow> error + Stmt list" where
  "build_update ext f =
     map_err (\<lambda>i. build_provide_loop_nest ext (func_name f)
                     (func_name f @ ''.s'' @ to_string (i + 1) @ ''.'') (- 1)
                     (func_args f) (func_updates f ! i) True)
       [0 ..< length (func_updates f)]"

definition build_production :: "Ext \<Rightarrow> Function \<Rightarrow> Target \<Rightarrow> error + (Stmt \<times> Stmt option)" where
  "build_production ext func target =
     (case build_produce ext func target of
        Inl e \<Rightarrow> Inl e
      | Inr produce \<Rightarrow>
          (case build_update ext func of
             Inl e \<Rightarrow> Inl e
           | Inr updates \<Rightarrow> Inr (produce, Block_make updates)))"

section \<open>The single-function injector\<close>

text \<open>
  Modelled from the spec: \<open>split_string(source, delim)\<close> (Util), the pieces of the source
  between the occurrences of the delimiter; the pass only splits at dots. A function is
  pure when it has neither update stages nor an extern definition.
\<close>

fun split_string :: "string \<Rightarrow> string list" where
  "split_string [] = [[]]"
| "split_string (c # cs) =
     (if c = CHR ''.'' then [] # split_string cs
      else (c # hd (split_string cs)) # tl (split_string cs))"

definition func_is_pure :: "Function \<Rightarrow> bool" where
  "func_is_pure f = (func_updates f = [] \<and> \<not> has_extern_definition f)"

text \<open>
  \<open>atoi\<close> on a string of decimal digits. A value beyond the range of \<open>int\<close> is undefined
  behaviour in the source and a failure here.
\<close>

definition has_only_digits :: "string \<Rightarrow> bool" where
  "has_only_digits str = list_all (\<lambda>c. c \<in> set ''0123456789'') str"

definition digits_value :: "string \<Rightarrow> nat" where
  "digits_value str = fold (\<lambda>c n. 10 * n + (of_char c - 48)) str 0"

definition atoi :: "string \<Rightarrow> error + nat" where
  "atoi str = (if digits_value str \<le> 2147483647 then Inr (digits_value str) else Inl InternalError)"

type_synonym Env = "(string \<times> Function) list"

text \<open>\<open>std::find_if\<close> over the dims with \<open>var_name_match\<close>: the index of the first match.\<close>

fun find_dim :: "Dim list \<Rightarrow> string \<Rightarrow> error + nat option" where
  "find_dim [] v = Inr None"
| "find_dim (d # ds) v =
     (case var_name_match (dim_var d) v of
        Inl e \<Rightarrow> Inl e
      | Inr True \<Rightarrow> Inr (Some 0)
      | Inr False \<Rightarrow>
          (case find_dim ds v of
             Inl e \<Rightarrow> Inl e
           | Inr None \<Rightarrow> Inr None
           | Inr (Some i) \<Rightarrow> Inr (Some (Suc i))))"

text \<open>The definition of a stage: stage 0 is the initial definition, stage k the update k - 1.\<close>

definition stage_definition :: "Function \<Rightarrow> nat \<Rightarrow> error + Definition" where
  "stage_definition f stage =
     (if stage = 0 then Inr (func_definition f)
      else if stage - 1 < length (func_updates f) then Inr (func_updates f ! (stage - 1))
      else Inl InternalError)"

text \<open>\<open>is_the_right_level\<close> (source lines 632-678).\<close>

definition parse_stage_step :: "string \<Rightarrow> nat option \<Rightarrow> error + nat option" where
  "parse_stage_step w stage =
     (if take 1 w = ''s'' \<and> has_only_digits (drop 1 w)
      then (case atoi (drop 1 w) of Inl e \<Rightarrow> Inl e | Inr n \<Rightarrow> Inr (Some n))
      else Inr stage)"

definition is_the_right_level :: "Env \<Rightarrow> string \<Rightarrow> error + bool" where
  "is_the_right_level env loop_name =
     (if loop_name = level_to_string LoopLevel_root then Inr True
      else
        (let v = split_string loop_name in
         if \<not> length v > 2 then Inl InternalError
         else
           (let fname = hd v; var = last v in
            case fold_err parse_stage_step (butlast (tl v)) None of
              Inl e \<Rightarrow> Inl e
            | Inr None \<Rightarrow> Inl InternalError
            | Inr (Some stage) \<Rightarrow>
                (case map_of env fname of
                   None \<Rightarrow> Inl InternalError
                 | Some f \<Rightarrow>
                     if \<not> stage \<le> length (func_updates f) then Inl InternalError
                     else
                       (case stage_definition f stage of
                          Inl e \<Rightarrow> Inl e
                        | Inr d \<Rightarrow>
                            (let fl = fuse_level (def_schedule d) in
                             if is_inline fl \<or> is_root fl then Inr True
                             else
                               (case find_dim (dims (def_schedule d)) (level_var fl) of
                                  Inl e \<Rightarrow> Inl e
                                | Inr None \<Rightarrow> Inl InternalError
                                | Inr (Some it1) \<Rightarrow>
                                    (case find_dim (dims (def_schedule d)) var of
                                       Inl e \<Rightarrow> Inl e
                                     | Inr None \<Rightarrow> Inl InternalError
                                     | Inr (Some it2) \<Rightarrow> Inr (it2 < it1)))))))))"

text \<open>\<open>InjectRealization\<close> (source lines 616-809), with its two found-flags as state.\<close>

record Found =
  found_store_level :: bool
  found_compute_level :: bool

definition build_pipeline :: "Ext \<Rightarrow> Target \<Rightarrow> Function \<Rightarrow> Stmt \<Rightarrow> error + Stmt" where
  "build_pipeline ext target func s =
     (case build_production ext func target of
        Inl e \<Rightarrow> Inl e
      | Inr realization \<Rightarrow>
          (let producer0 = (case snd realization of
                              Some u \<Rightarrow> Block (fst realization) u
                            | None \<Rightarrow> fst realization);
               producer = ProducerConsumer (func_name func) True producer0;
               consumer = ProducerConsumer (func_name func) False s
           in Inr (Block producer consumer)))"

definition reinstate_lets :: "(string \<times> Expr) list \<Rightarrow> Stmt \<Rightarrow> Stmt" where
  "reinstate_lets lets body = foldr (\<lambda>l b. LetStmt (fst l) (snd l) b) lets body"

text \<open>The test of a loop against a level of the function, with the redirection of fusion.\<close>

definition at_level :: "Env \<Rightarrow> LoopLevel \<Rightarrow> string \<Rightarrow> error + bool" where
  "at_level env level loop_name =
     (if match_loop level loop_name then is_the_right_level env loop_name else Inr False)"

definition needs_injection :: "Function \<Rightarrow> bool \<Rightarrow> Stmt \<Rightarrow> bool" where
  "needs_injection func is_output body =
     (\<not> function_is_already_realized_in_stmt (func_name func) body \<and>
      (function_is_used_in_stmt (func_name func) body \<or> is_output))"

definition inject_at_compute_level ::
    "Ext \<Rightarrow> Target \<Rightarrow> Function \<Rightarrow> bool \<Rightarrow> Stmt \<Rightarrow> error + Stmt" where
  "inject_at_compute_level ext target func is_output body =
     (if needs_injection func is_output body then build_pipeline ext target func body
      else Inr body)"

definition inject_at_store_level :: "Target \<Rightarrow> Function \<Rightarrow> bool \<Rightarrow> Stmt \<Rightarrow> Stmt" where
  "inject_at_store_level target func is_output body =
     (if needs_injection func is_output body then build_realize target func is_output body
      else body)"

definition after_body ::
    "Ext \<Rightarrow> Env \<Rightarrow> Target \<Rightarrow> Function \<Rightarrow> bool \<Rightarrow> string \<Rightarrow> Stmt \<Rightarrow> Found \<Rightarrow>
       error + (Stmt \<times> Found)" where
  "after_body ext env target func is_output loop_name body st =
     (case at_level env (compute_level (func_schedule func)) loop_name of
        Inl e \<Rightarrow> Inl e
      | Inr at_compute \<Rightarrow>
          (case (if at_compute then inject_at_compute_level ext target func is_output body
                 else Inr body) of
             Inl e \<Rightarrow> Inl e
           | Inr body1 \<Rightarrow>
               (let st1 = (if at_compute then st\<lparr>found_compute_level := True\<rparr> else st) in
                case at_level env (store_level (func_schedule func)) loop_name of
                  Inl e \<Rightarrow> Inl e
                | Inr at_store \<Rightarrow>
                    if at_store then
                      (if \<not> found_compute_level st1 then Inl InternalError
                       else Inr (inject_at_store_level target func is_output body1,
                                 st1\<lparr>found_store_level := True\<rparr>))
                    else Inr (body1, st1))))"

lemma size_strip_lets [termination_simp]: "size (snd (strip_lets s)) \<le> size s"
  by (induction s rule: strip_lets.induct) (auto simp: case_prod_beta Let_def)

function InjectRealization ::
    "Ext \<Rightarrow> Env \<Rightarrow> Target \<Rightarrow> Function \<Rightarrow> bool \<Rightarrow> Stmt \<Rightarrow> Found \<Rightarrow> error + (Stmt \<times> Found)" where
  "InjectRealization ext env target func is_output (For n mn extent ft dev body0) st =
     (let lets = fst (strip_lets body0);
          body = snd (strip_lets body0);
          for_loop = For n mn extent ft dev body0
      in if has_extern_definition func \<and> is_inline (compute_level (func_schedule func)) \<and>
            ft = Vectorized \<and>
            \<not> function_is_already_realized_in_stmt (func_name func) for_loop \<and>
            function_is_used_in_stmt (func_name func) for_loop
         then (case build_pipeline ext target func for_loop of
                 Inl e \<Rightarrow> Inl e
               | Inr p \<Rightarrow> Inr (build_realize target func is_output p,
                               \<lparr>found_store_level = True, found_compute_level = True\<rparr>))
         else (case InjectRealization ext env target func is_output body st of
                 Inl e \<Rightarrow> Inl e
               | Inr r \<Rightarrow>
                   (case after_body ext env target func is_output n (fst r) (snd r) of
                      Inl e \<Rightarrow> Inl e
                    | Inr r1 \<Rightarrow>
                        Inr (For n mn extent ft dev (reinstate_lets lets (fst r1)), snd r1))))"
| "InjectRealization ext env target func is_output (Provide n vals args) st =
     (if n \<noteq> func_name func \<and> \<not> func_is_pure func \<and>
         is_inline (compute_level (func_schedule func)) \<and>
         function_is_used_in_stmt (func_name func) (Provide n vals args)
      then (case build_pipeline ext target func (Provide n vals args) of
              Inl e \<Rightarrow> Inl e
            | Inr p \<Rightarrow> Inr (build_realize target func is_output p,
                            \<lparr>found_store_level = True, found_compute_level = True\<rparr>))
      else Inr (Provide n vals args, st))"
| "InjectRealization ext env target func is_output (LetStmt n v body) st =
     (case InjectRealization ext env target func is_output body st of
        Inl e \<Rightarrow> Inl e
      | Inr r \<Rightarrow> Inr (LetStmt n v (fst r), snd r))"
| "InjectRealization ext env target func is_output (IfThenElse c t e) st =
     (case InjectRealization ext env target func is_output t st of
        Inl err \<Rightarrow> Inl err
      | Inr r \<Rightarrow>
          (case e of
             None \<Rightarrow> Inr (IfThenElse c (fst r) None, snd r)
           | Some e' \<Rightarrow>
               (case InjectRealization ext env target func is_output e' (snd r) of
                  Inl err \<Rightarrow> Inl err
                | Inr r1 \<Rightarrow> Inr (IfThenElse c (fst r) (Some (fst r1)), snd r1))))"
| "InjectRealization ext env target func is_output (Block a b) st =
     (case InjectRealization ext env target func is_output a st of
        Inl e \<Rightarrow> Inl e
      | Inr r \<Rightarrow>
          (case InjectRealization ext env target func is_output b (snd r) of
             Inl e \<Rightarrow> Inl e
           | Inr r1 \<Rightarrow> Inr (Block (fst r) (fst r1), snd r1)))"
| "InjectRealization ext env target func is_output (Realize n ts bnds c body) st =
     (case InjectRealization ext env target func is_output body st of
        Inl e \<Rightarrow> Inl e
      | Inr r \<Rightarrow> Inr (Realize n ts bnds c (fst r), snd r))"
| "InjectRealization ext env target func is_output (ProducerConsumer n p body) st =
     (case InjectRealization ext env target func is_output body st of
        Inl e \<Rightarrow> Inl e
      | Inr r \<Rightarrow> Inr (ProducerConsumer n p (fst r), snd r))"
| "InjectRealization ext env target func is_output (AssertStmt c m) st = Inr (AssertStmt c m, st)"
| "InjectRealization ext env target func is_output (Evaluate v) st = Inr (Evaluate v, st)"
  by pat_completeness auto
termination
  by (relation "measure (\<lambda>(ext, env, target, func, is_output, s, st). size s)")
     (auto simp: le_imp_less_Suc size_strip_lets)


section \<open>The fused-group injector\<close>

text \<open>
  \<open>InjectStmt\<close> and \<open>inject_stmt\<close> (source lines 823-871). The statement to inject is
  always defined here; the evolving producer may still be undefined.
\<close>

fun InjectStmt :: "Stmt \<Rightarrow> LoopLevel \<Rightarrow> Stmt \<Rightarrow> bool \<Rightarrow> Stmt \<times> bool" where
  "InjectStmt injected level (For n mn extent ft dev body) found_level =
     (let r = InjectStmt injected level body found_level in
      if match_loop level n then (For n mn extent ft dev (Block (fst r) injected), True)
      else (For n mn extent ft dev (fst r), snd r))"
| "InjectStmt injected level (LetStmt n v body) found_level =
     (let r = InjectStmt injected level body found_level in (LetStmt n v (fst r), snd r))"
| "InjectStmt injected level (IfThenElse c t e) found_level =
     (let r = InjectStmt injected level t found_level in
      case e of
        None \<Rightarrow> (IfThenElse c (fst r) None, snd r)
      | Some e' \<Rightarrow>
          (let r1 = InjectStmt injected level e' (snd r)
           in (IfThenElse c (fst r) (Some (fst r1)), snd r1)))"
| "InjectStmt injected level (Block a b) found_level =
     (let r = InjectStmt injected level a found_level;
          r1 = InjectStmt injected level b (snd r)
      in (Block (fst r) (fst r1), snd r1))"
| "InjectStmt injected level (Provide n vals args) found_level =
     (Provide n vals args, found_level)"
| "InjectStmt injected level (Realize n ts bnds c body) found_level =
     (let r = InjectStmt injected level body found_level in (Realize n ts bnds c (fst r), snd r))"
| "InjectStmt injected level (ProducerConsumer n p body) found_level =
     (let r = InjectStmt injected level body found_level in (ProducerConsumer n p (fst r), snd r))"
| "InjectStmt injected level (AssertStmt c m) found_level = (AssertStmt c m, found_level)"
| "InjectStmt injected level (Evaluate v) found_level = (Evaluate v, found_level)"

definition inject_stmt :: "Stmt option \<Rightarrow> Stmt \<Rightarrow> LoopLevel \<Rightarrow> error + Stmt" where
  "inject_stmt root injected level =
     (case root of
        None \<Rightarrow> Inr injected
      | Some r \<Rightarrow>
          if is_inline level \<or> is_root level then Inr (Block r injected)
          else (let res = InjectStmt injected level r False in
                if snd res then Inr (fst res) else Inl InternalError))"

text \<open>
  \<open>SubstituteBounds\<close> (source lines 873-954). The map \<open>bounds\<close> is its state: a key may be
  bound to an undefined expression. Modelled from the spec: \<open>is_one\<close> (IROperator)
  recognises the constant one.
\<close>

definition is_one :: "Expr \<Rightarrow> bool" where
  "is_one e = (e = IntImm 1)"

definition as_variable :: "Expr \<Rightarrow> string option" where
  "as_variable e = (case e of Variable t n \<Rightarrow> Some n | _ \<Rightarrow> None)"

text \<open>The new name of a fused loop: \<open>.fused\<close> goes in front of the part after the last dot.\<close>

definition fused_loop_name :: "string \<Rightarrow> error + string" where
  "fused_loop_name name =
     (if CHR ''.'' \<notin> set name then Inl InternalError
      else (let suffix = rev (takeWhile (\<lambda>c. c \<noteq> CHR ''.'') (rev name));
                last_dot = length name - length suffix - 1
            in Inr (take last_dot name @ ''.fused.'' @ drop (last_dot + 1) name)))"

definition replaced_bounds :: "(string \<rightharpoonup> Expr) \<Rightarrow> Expr \<Rightarrow> Expr \<Rightarrow> (Expr \<times> Expr) option" where
  "replaced_bounds replacements mn extent =
     (case as_variable mn of
        None \<Rightarrow> None
      | Some min_name \<Rightarrow>
          (case as_variable extent of
             None \<Rightarrow> None
           | Some extent_name \<Rightarrow>
               (case replacements min_name of
                  None \<Rightarrow> None
                | Some min_val \<Rightarrow>
                    (case replacements extent_name of
                       None \<Rightarrow> None
                     | Some extent_val \<Rightarrow> Some (min_val, extent_val)))))"

definition fused_loop ::
    "Ext \<Rightarrow> string \<Rightarrow> ForType \<Rightarrow> DeviceAPI \<Rightarrow> Expr \<Rightarrow> Expr \<Rightarrow> Stmt \<Rightarrow> error + Stmt" where
  "fused_loop ext name ft dev min_val extent_val body =
     (case fused_loop_name name of
        Inl e \<Rightarrow> Inl e
      | Inr new_var \<Rightarrow>
          (let ft1 = (if is_one extent_val then Serial else ft);
               stmt = For new_var (var32 (new_var @ ''.loop_min''))
                        (var32 (new_var @ ''.loop_extent'')) ft1 dev body;
               stmt1 = LetStmt (new_var @ ''.loop_min'') min_val stmt;
               stmt2 = LetStmt (new_var @ ''.loop_max'')
                         (simplify ext (Bin Sub (Bin Add min_val extent_val) (const32 1))) stmt1;
               stmt3 = LetStmt (new_var @ ''.loop_extent'') extent_val stmt2
           in Inr (substitute name (var32 new_var) stmt3)))"

fun SubstituteBounds ::
    "Ext \<Rightarrow> (string \<rightharpoonup> Expr) \<Rightarrow> Stmt \<Rightarrow> (string \<rightharpoonup> Expr option) \<Rightarrow>
       error + (Stmt \<times> (string \<rightharpoonup> Expr option))" where
  "SubstituteBounds ext replacements (LetStmt n v body) bnds =
     (let bnds1 = (case bnds n of None \<Rightarrow> bnds | Some old \<Rightarrow> bnds(n \<mapsto> Some v)) in
      case SubstituteBounds ext replacements body bnds1 of
        Inl e \<Rightarrow> Inl e
      | Inr r \<Rightarrow> Inr (LetStmt n v (fst r), snd r))"
| "SubstituteBounds ext replacements (For n mn extent ft dev body) bnds =
     (case SubstituteBounds ext replacements body bnds of
        Inl e \<Rightarrow> Inl e
      | Inr r \<Rightarrow>
          (case replaced_bounds replacements mn extent of
             None \<Rightarrow> Inr (For n mn extent ft dev (fst r), snd r)
           | Some vals \<Rightarrow>
               (case fused_loop ext n ft dev (fst vals) (snd vals) (fst r) of
                  Inl e \<Rightarrow> Inl e
                | Inr stmt \<Rightarrow> Inr (stmt, snd r))))"
| "SubstituteBounds ext replacements (IfThenElse c t e) bnds =
     (case SubstituteBounds ext replacements t bnds of
        Inl err \<Rightarrow> Inl err
      | Inr r \<Rightarrow>
          (case e of
             None \<Rightarrow> Inr (IfThenElse c (fst r) None, snd r)
           | Some e' \<Rightarrow>
               (case SubstituteBounds ext replacements e' (snd r) of
                  Inl err \<Rightarrow> Inl err
                | Inr r1 \<Rightarrow> Inr (IfThenElse c (fst r) (Some (fst r1)), snd r1))))"
| "SubstituteBounds ext replacements (Block a b) bnds =
     (case SubstituteBounds ext replacements a bnds of
        Inl e \<Rightarrow> Inl e
      | Inr r \<Rightarrow>
          (case SubstituteBounds ext replacements b (snd r) of
             Inl e \<Rightarrow> Inl e
           | Inr r1 \<Rightarrow> Inr (Block (fst r) (fst r1), snd r1)))"
| "SubstituteBounds ext replacements (Provide n vals args) bnds = Inr (Provide n vals args, bnds)"
| "SubstituteBounds ext replacements (Realize n ts rb c body) bnds =
     (case SubstituteBounds ext replacements body bnds of
        Inl e \<Rightarrow> Inl e
      | Inr r \<Rightarrow> Inr (Realize n ts rb c (fst r), snd r))"
| "SubstituteBounds ext replacements (ProducerConsumer n p body) bnds =
     (case SubstituteBounds ext replacements body bnds of
        Inl e \<Rightarrow> Inl e
      | Inr r \<Rightarrow> Inr (ProducerConsumer n p (fst r), snd r))"
| "SubstituteBounds ext replacements (AssertStmt c m) bnds = Inr (AssertStmt c m, bnds)"
| "SubstituteBounds ext replacements (Evaluate v) bnds = Inr (Evaluate v, bnds)"

definition substitute_bounds ::
    "Ext \<Rightarrow> Stmt \<Rightarrow> (string \<rightharpoonup> Expr option) \<Rightarrow> (string \<rightharpoonup> Expr) \<Rightarrow>
       error + (Stmt \<times> (string \<rightharpoonup> Expr option))" where
  "substitute_bounds ext s bnds replacements = SubstituteBounds ext replacements s bnds"

text \<open>
  The registration loop of \<open>build_produce_definition\<close> (source lines 1096-1124).
  \<open>emplace\<close> leaves a key that is already bound as it is.
\<close>

definition emplace :: "('k \<rightharpoonup> 'v) \<Rightarrow> 'k \<Rightarrow> 'v \<Rightarrow> ('k \<rightharpoonup> 'v)" where
  "emplace m k v = (case m k of None \<Rightarrow> m(k \<mapsto> v) | Some old \<Rightarrow> m)"

record FusedMaps =
  fm_bounds :: "string \<rightharpoonup> Expr option"
  fm_replacements :: "string \<rightharpoonup> Expr"

definition stage_var :: "string \<Rightarrow> nat \<Rightarrow> string \<Rightarrow> string" where
  "stage_var fname stage v = fname @ ''.s'' @ to_string stage @ ''.'' @ v"

definition register_fused_dim :: "FusedPair \<Rightarrow> Dim \<Rightarrow> FusedMaps \<Rightarrow> FusedMaps" where
  "register_fused_dim pair dim m =
     (let var = stage_var (func_2 pair) (stage_2 pair) (dim_var dim);
          b1 = emplace (fm_bounds m) (var @ ''.loop_min'') None;
          b2 = emplace b1 (var @ ''.loop_max'') None;
          b3 = emplace b2 (var @ ''.loop_extent'') None;
          var_orig = stage_var (func_1 pair) (stage_1 pair) (dim_var dim);
          val = var32 var_orig;
          r1 = emplace (fm_replacements m) (var @ ''.loop_min'') val;
          r2 = emplace r1 (var @ ''.loop_max'') val;
          r3 = emplace r2 (var @ ''.loop_extent'') (const32 1);
          b4 = emplace b3 (var_orig @ ''.loop_min'') None;
          b5 = emplace b4 (var_orig @ ''.loop_max'') None;
          b6 = emplace b5 (var_orig @ ''.loop_extent'') None
      in \<lparr>fm_bounds = b6, fm_replacements = r3\<rparr>)"

text \<open>The dims from an index up to, but excluding, the last one (\<open>__outermost\<close>).\<close>

definition dims_from :: "Dim list \<Rightarrow> nat \<Rightarrow> Dim list" where
  "dims_from ds idx = map (\<lambda>i. ds ! i) [idx ..< length ds - 1]"

definition register_fused_pair ::
    "Env \<Rightarrow> (string \<rightharpoonup> bool) \<Rightarrow> Dim list \<Rightarrow> FusedPair \<Rightarrow> nat \<times> FusedMaps \<Rightarrow>
       error + (nat \<times> FusedMaps)" where
  "register_fused_pair env skip ds pair st =
     (if map_of env (func_2 pair) = None then Inr st
      else (case skip (func_2 pair) of
              None \<Rightarrow> Inl InternalError
            | Some True \<Rightarrow> Inr st
            | Some False \<Rightarrow>
                (case find_dim ds (var_name pair) of
                   Inl e \<Rightarrow> Inl e
                 | Inr None \<Rightarrow> Inl InternalError
                 | Inr (Some idx) \<Rightarrow>
                     Inr (min (fst st) idx,
                          fold (register_fused_dim pair) (dims_from ds idx) (snd st)))))"

text \<open>\<open>build_produce_definition\<close> (source lines 1075-1137) and \<open>build_produce\<close> of the group.\<close>

record GroupState =
  gs_maps :: FusedMaps
  gs_add_lets :: "(string \<times> Expr) list"

definition fuse_level_start :: "(string \<rightharpoonup> bool) \<Rightarrow> Dim list \<Rightarrow> LoopLevel \<Rightarrow> error + nat" where
  "fuse_level_start skip ds fl =
     (if \<not> is_inline fl \<and> \<not> is_root fl then
        (case skip (level_func fl) of
           None \<Rightarrow> Inl InternalError
         | Some True \<Rightarrow> Inr (length ds)
         | Some False \<Rightarrow>
             (case find_dim ds (level_var fl) of
                Inl e \<Rightarrow> Inl e
              | Inr None \<Rightarrow> Inl InternalError
              | Inr (Some idx) \<Rightarrow> Inr idx))
      else Inr (length ds))"

definition build_produce_definition ::
    "Ext \<Rightarrow> Env \<Rightarrow> (string \<rightharpoonup> bool) \<Rightarrow> Function \<Rightarrow> string \<Rightarrow> Definition \<Rightarrow> bool \<Rightarrow> GroupState \<Rightarrow>
       error + (Stmt \<times> GroupState)" where
  "build_produce_definition ext env skip f prefix d is_update st =
     (let ds = dims (def_schedule d) in
      case fuse_level_start skip ds (fuse_level (def_schedule d)) of
        Inl e \<Rightarrow> Inl e
      | Inr start_fuse0 \<Rightarrow>
          (case fold_err (register_fused_pair env skip ds) (fused_pairs (def_schedule d))
                  (start_fuse0, gs_maps st) of
             Inl e \<Rightarrow> Inl e
           | Inr r \<Rightarrow>
               (case build_provide_loop_nest ext (func_name f) prefix (int (fst r))
                       (func_args f) d is_update of
                  Inl e \<Rightarrow> Inl e
                | Inr produce \<Rightarrow>
                    Inr (snd (strip_lets produce),
                         \<lparr>gs_maps = snd r,
                          gs_add_lets = gs_add_lets st @ fst (strip_lets produce)\<rparr>))))"

definition produce_stage ::
    "Ext \<Rightarrow> Env \<Rightarrow> (string \<rightharpoonup> bool) \<Rightarrow> Function \<Rightarrow> nat \<Rightarrow> Definition \<Rightarrow>
       Stmt option \<times> GroupState \<Rightarrow> error + (Stmt option \<times> GroupState)" where
  "produce_stage ext env skip f stage d acc =
     (case build_produce_definition ext env skip f
             (func_name f @ ''.s'' @ to_string stage @ ''.'') d (stage \<noteq> 0) (snd acc) of
        Inl e \<Rightarrow> Inl e
      | Inr r \<Rightarrow>
          (case inject_stmt (fst acc) (fst r) (fuse_level (def_schedule d)) of
             Inl e \<Rightarrow> Inl e
           | Inr produce \<Rightarrow> Inr (Some produce, snd r)))"

definition build_produce_group ::
    "Ext \<Rightarrow> Env \<Rightarrow> (string \<rightharpoonup> bool) \<Rightarrow> Function \<Rightarrow> Stmt option \<times> GroupState \<Rightarrow>
       error + (Stmt option \<times> GroupState)" where
  "build_produce_group ext env skip f acc =
     (case produce_stage ext env skip f 0 (func_definition f) acc of
        Inl e \<Rightarrow> Inl e
      | Inr acc1 \<Rightarrow>
          fold_err (\<lambda>j. produce_stage ext env skip f (j + 1) (func_updates f ! j))
            [0 ..< length (func_updates f)] acc1)"


text \<open>
  \<open>collect_all_dependence\<close> and its helper (source lines 1139-1182): a depth-first
  traversal of the fused pairs. Its state is the list \<open>dependence\<close> and the set
  \<open>visited\<close>. The loop over the fused pairs of a definition is the same in both source
  functions.
\<close>

definition pair_key :: "FusedPair \<Rightarrow> string" where
  "pair_key pair = func_2 pair @ ''.s'' @ to_string (stage_2 pair) @ ''.'' @ var_name pair"

function collect_all_dependence_helper ::
    "Env \<Rightarrow> (string \<rightharpoonup> bool) \<Rightarrow> string \<Rightarrow> Definition \<Rightarrow> FusedPair \<Rightarrow>
       FusedPair list \<times> string set \<Rightarrow> error + (FusedPair list \<times> string set)"
  and collect_dependence_loop ::
    "Env \<Rightarrow> (string \<rightharpoonup> bool) \<Rightarrow> FusedPair list \<Rightarrow>
       FusedPair list \<times> string set \<Rightarrow> error + (FusedPair list \<times> string set)" where
  "collect_all_dependence_helper env skip prefix d p st =
     collect_dependence_loop env skip (fused_pairs (def_schedule d))
       (fst st @ [p], insert prefix (snd st))"
| "collect_dependence_loop env skip [] st = Inr st"
| "collect_dependence_loop env skip (pair # rest) st =
     (case skip (func_2 pair) of
        None \<Rightarrow> Inl InternalError
      | Some True \<Rightarrow> collect_dependence_loop env skip rest st
      | Some False \<Rightarrow>
          (case map_of env (func_2 pair) of
             None \<Rightarrow> collect_dependence_loop env skip rest st
           | Some f \<Rightarrow>
               if pair_key pair \<in> snd st then collect_dependence_loop env skip rest st
               else
                 (case stage_definition f (stage_2 pair) of
                    Inl e \<Rightarrow> Inl e
                  | Inr d2 \<Rightarrow>
                      (case collect_all_dependence_helper env skip (pair_key pair) d2 pair st of
                         Inl e \<Rightarrow> Inl e
                       | Inr st1 \<Rightarrow> collect_dependence_loop env skip rest st1))))"
  by pat_completeness auto

text \<open>The keys of all fused pairs of the environment bound the set \<open>visited\<close>.\<close>

definition env_pairs :: "Env \<Rightarrow> FusedPair set" where
  "env_pairs env =
     (\<Union>f \<in> snd ` set env. \<Union>d \<in> set (func_definition f # func_updates f).
        set (fused_pairs (def_schedule d)))"

lemma finite_env_pairs: "finite (env_pairs env)"
  by (simp add: env_pairs_def)

lemma stage_definition_pairs:
  assumes "map_of env n = Some f" and "stage_definition f k = Inr d"
  shows "set (fused_pairs (def_schedule d)) \<subseteq> env_pairs env"
proof -
  from assms(1) have "f \<in> snd ` set env"
    by (metis image_eqI map_of_SomeD snd_conv)
  moreover from assms(2) have "d \<in> set (func_definition f # func_updates f)"
    by (auto simp: stage_definition_def split: if_splits)
  ultimately show ?thesis by (auto simp: env_pairs_def)
qed

lemma collect_visited_mono:
  "collect_all_dependence_helper_collect_dependence_loop_dom (Inl (env, skip, prefix, d, p, st)) \<Longrightarrow>
     collect_all_dependence_helper env skip prefix d p st = Inr st1 \<Longrightarrow> snd st \<subseteq> snd st1"
  "collect_all_dependence_helper_collect_dependence_loop_dom (Inr (env, skip, pairs, st)) \<Longrightarrow>
     collect_dependence_loop env skip pairs st = Inr st1 \<Longrightarrow> snd st \<subseteq> snd st1"
proof (induction env skip prefix d p st and env skip pairs st arbitrary: st1 and st1
    rule: collect_all_dependence_helper_collect_dependence_loop.pinduct)
  case (1 env skip prefix d p st)
  then show ?case
    by (auto simp: collect_all_dependence_helper.psimps)
next
  case (2 env skip st)
  then show ?case by (simp add: collect_dependence_loop.psimps)
next
  case (3 env skip pair rest st)
  from "3.prems" "3.hyps" show ?case
    apply (simp add: collect_dependence_loop.psimps split: option.splits bool.splits if_splits sum.splits)
    using "3.IH" by blast+
qed

definition dfs_measure :: "Env \<Rightarrow> FusedPair list \<Rightarrow> string set \<Rightarrow> nat" where
  "dfs_measure env pairs visited = card (pair_key ` (env_pairs env \<union> set pairs) - visited)"

lemma dfs_measure_mono:
  "set pairs1 \<subseteq> env_pairs env \<union> set pairs2 \<Longrightarrow> visited2 \<subseteq> visited1 \<Longrightarrow>
     dfs_measure env pairs1 visited1 \<le> dfs_measure env pairs2 visited2"
  unfolding dfs_measure_def
  by (rule card_mono) (auto simp: finite_env_pairs)

lemma dfs_measure_less:
  assumes "set pairs1 \<subseteq> env_pairs env \<union> set pairs2" and "visited2 \<subseteq> visited1"
    and "pair \<in> set pairs2" and "pair_key pair \<notin> visited2" and "pair_key pair \<in> visited1"
  shows "dfs_measure env pairs1 visited1 < dfs_measure env pairs2 visited2"
  unfolding dfs_measure_def
proof (rule psubset_card_mono)
  show "finite (pair_key ` (env_pairs env \<union> set pairs2) - visited2)"
    by (simp add: finite_env_pairs)
  show "pair_key ` (env_pairs env \<union> set pairs1) - visited1
          \<subset> pair_key ` (env_pairs env \<union> set pairs2) - visited2"
    using assms by auto
qed

termination collect_all_dependence_helper
proof (relation "inv_image (less_than <*lex*> less_than)
    (\<lambda>x. case x of
        Inl (env, skip, prefix, d, p, st) \<Rightarrow>
          (dfs_measure env (fused_pairs (def_schedule d)) (insert prefix (snd st)),
           Suc (length (fused_pairs (def_schedule d))))
      | Inr (env, skip, pairs, st) \<Rightarrow> (dfs_measure env pairs (snd st), length pairs))",
    goal_cases)
  case 1
  show ?case by (intro wf_inv_image wf_lex_prod wf_less_than)
next
  case (2 env skip prefix d p st)
  show ?case by simp
next
  case (3 env skip pair rest st x2)
  have "dfs_measure env rest (snd st) \<le> dfs_measure env (pair # rest) (snd st)"
    by (rule dfs_measure_mono) auto
  then show ?case by auto
next
  case (4 env skip pair rest st x2)
  have "dfs_measure env rest (snd st) \<le> dfs_measure env (pair # rest) (snd st)"
    by (rule dfs_measure_mono) auto
  then show ?case by auto
next
  case (5 env skip pair rest st x2 f)
  have "dfs_measure env rest (snd st) \<le> dfs_measure env (pair # rest) (snd st)"
    by (rule dfs_measure_mono) auto
  then show ?case by auto
next
  case (6 env skip pair rest st x2 f d2)
  have sub: "set (fused_pairs (def_schedule d2)) \<subseteq> env_pairs env"
    using 6 by (auto dest: stage_definition_pairs)
  have "dfs_measure env (fused_pairs (def_schedule d2)) (insert (pair_key pair) (snd st))
          < dfs_measure env (pair # rest) (snd st)"
    by (rule dfs_measure_less [where pair = pair]) (use sub 6 in auto)
  then show ?case by simp
next
  case (7 env skip pair rest st x2 f d2 st1)
  have "snd st \<subseteq> snd st1"
    using 7 collect_visited_mono(1) by blast
  then have "dfs_measure env rest (snd st1) \<le> dfs_measure env (pair # rest) (snd st)"
    by (intro dfs_measure_mono) auto
  then show ?case by auto
qed


definition collect_all_dependence ::
    "Env \<Rightarrow> (string \<rightharpoonup> bool) \<Rightarrow> Definition \<Rightarrow> error + FusedPair list" where
  "collect_all_dependence env skip d =
     (case collect_dependence_loop env skip (fused_pairs (def_schedule d)) ([], {}) of
        Inl e \<Rightarrow> Inl e
      | Inr st \<Rightarrow> Inr (fst st))"

text \<open>
  \<open>replace_parent_bound_with_union_bound\<close> (source lines 1186-1242). A key missing from
  \<open>bounds\<close> fails an assertion of the pass; \<open>min\<close> and \<open>max\<close> of an undefined expression
  fail as a user error.
\<close>

definition has_loop_bounds :: "(string \<rightharpoonup> Expr option) \<Rightarrow> string \<Rightarrow> bool" where
  "has_loop_bounds bnds var =
     (bnds (var @ ''.loop_min'') \<noteq> None \<and> bnds (var @ ''.loop_max'') \<noteq> None \<and>
      bnds (var @ ''.loop_extent'') \<noteq> None)"

definition lookup_bound :: "(string \<rightharpoonup> Expr option) \<Rightarrow> string \<Rightarrow> Expr option" where
  "lookup_bound bnds k = (case bnds k of None \<Rightarrow> None | Some v \<Rightarrow> v)"

definition make_min_max :: "BinOp \<Rightarrow> Expr option \<Rightarrow> Expr option \<Rightarrow> error + Expr" where
  "make_min_max op a b =
     (case a of
        None \<Rightarrow> Inl UserError
      | Some x \<Rightarrow> (case b of None \<Rightarrow> Inl UserError | Some y \<Rightarrow> Inr (Bin op x y)))"

definition union_bound_dim ::
    "Ext \<Rightarrow> (string \<rightharpoonup> Expr option) \<Rightarrow> string \<Rightarrow> FusedPair \<Rightarrow> Dim \<Rightarrow> (string \<rightharpoonup> Expr) \<Rightarrow>
       error + (string \<rightharpoonup> Expr)" where
  "union_bound_dim ext bnds prefix pair dim replacements =
     (let var_2 = stage_var (func_2 pair) (stage_2 pair) (dim_var dim);
          var_1 = prefix @ ''.'' @ dim_var dim
      in if \<not> has_loop_bounds bnds var_2 then Inl InternalError
         else if \<not> has_loop_bounds bnds var_1 then Inl InternalError
         else
           (let min_2 = lookup_bound bnds (var_2 @ ''.loop_min'');
                max_2 = lookup_bound bnds (var_2 @ ''.loop_max'');
                min_1 = (if replacements (var_1 @ ''.loop_min'') = None
                         then lookup_bound bnds (var_1 @ ''.loop_min'')
                         else replacements (var_1 @ ''.loop_min''));
                max_1 = (if replacements (var_1 @ ''.loop_min'') = None
                         then lookup_bound bnds (var_1 @ ''.loop_max'')
                         else replacements (var_1 @ ''.loop_max''))
            in case make_min_max Min_op min_1 min_2 of
                 Inl e \<Rightarrow> Inl e
               | Inr mn \<Rightarrow>
                   (case make_min_max Max_op max_1 max_2 of
                      Inl e \<Rightarrow> Inl e
                    | Inr mx \<Rightarrow>
                        (let new_min = simplify ext mn;
                             new_max = simplify ext mx;
                             new_extent = simplify ext (Bin Sub (Bin Add new_max (const32 1)) new_min)
                         in Inr (replacements
                                   (var_1 @ ''.loop_min'' \<mapsto> new_min,
                                    var_1 @ ''.loop_max'' \<mapsto> new_max,
                                    var_1 @ ''.loop_extent'' \<mapsto> new_extent))))))"

definition union_bound_pair ::
    "Ext \<Rightarrow> (string \<rightharpoonup> bool) \<Rightarrow> (string \<rightharpoonup> Expr option) \<Rightarrow> string \<Rightarrow> Dim list \<Rightarrow> FusedPair \<Rightarrow>
       (string \<rightharpoonup> Expr) \<Rightarrow> error + (string \<rightharpoonup> Expr)" where
  "union_bound_pair ext skip bnds prefix ds pair replacements =
     (case skip (func_2 pair) of
        None \<Rightarrow> Inl InternalError
      | Some True \<Rightarrow> Inr replacements
      | Some False \<Rightarrow>
          (case find_dim ds (var_name pair) of
             Inl e \<Rightarrow> Inl e
           | Inr None \<Rightarrow> Inl InternalError
           | Inr (Some idx) \<Rightarrow>
               fold_err (union_bound_dim ext bnds prefix pair) (dims_from ds idx) replacements))"

definition union_replacements ::
    "Ext \<Rightarrow> Env \<Rightarrow> (string \<rightharpoonup> bool) \<Rightarrow> Function \<Rightarrow> (string \<rightharpoonup> Expr option) \<Rightarrow>
       error + (string \<rightharpoonup> Expr)" where
  "union_replacements ext env skip f bnds =
     (case collect_all_dependence env skip (func_definition f) of
        Inl e \<Rightarrow> Inl e
      | Inr dependence \<Rightarrow>
          fold_err (union_bound_pair ext skip bnds (func_name f @ ''.s0'')
                      (dims (def_schedule (func_definition f))))
            dependence Map.empty)"

definition replace_parent_bound_with_union_bound ::
    "Ext \<Rightarrow> Env \<Rightarrow> (string \<rightharpoonup> bool) \<Rightarrow> Function \<Rightarrow> Stmt \<Rightarrow> (string \<rightharpoonup> Expr option) \<Rightarrow>
       error + Stmt" where
  "replace_parent_bound_with_union_bound ext env skip f produce bnds =
     (case union_replacements ext env skip f bnds of
        Inl e \<Rightarrow> Inl e
      | Inr replacements \<Rightarrow>
          (case substitute_bounds ext produce Map.empty replacements of
             Inl e \<Rightarrow> Inl e
           | Inr r \<Rightarrow> Inr (fst r)))"

text \<open>\<open>build_pipeline_group\<close> (source lines 981-1054).\<close>

definition skip_entry :: "Function \<times> bool \<Rightarrow> Stmt \<Rightarrow> bool" where
  "skip_entry g s = (\<not> (function_is_used_in_stmt (func_name (fst g)) s \<or> snd g))"

definition skip_insert :: "Stmt \<Rightarrow> Function \<times> bool \<Rightarrow> (string \<rightharpoonup> bool) \<Rightarrow> (string \<rightharpoonup> bool)" where
  "skip_insert s g m = m(func_name (fst g) \<mapsto> skip_entry g s)"

definition skip_map :: "(Function \<times> bool) list \<Rightarrow> Stmt \<Rightarrow> (string \<rightharpoonup> bool)" where
  "skip_map grp s = fold (skip_insert s) grp Map.empty"

definition num_skipped :: "(Function \<times> bool) list \<Rightarrow> Stmt \<Rightarrow> nat" where
  "num_skipped grp s = length (filter (\<lambda>g. skip_entry g s) grp)"

definition not_skipped :: "(string \<rightharpoonup> bool) \<Rightarrow> Function \<times> bool \<Rightarrow> bool" where
  "not_skipped skip g = (skip (func_name (fst g)) = Some False)"

definition wrap_producer_consumer ::
    "(string \<rightharpoonup> bool) \<Rightarrow> (Function \<times> bool) list \<Rightarrow> bool \<Rightarrow> Stmt \<Rightarrow> Stmt" where
  "wrap_producer_consumer skip grp is_producer s =
     fold (\<lambda>g body. if not_skipped skip g
                     then ProducerConsumer (func_name (fst g)) is_producer body else body)
       (rev grp) s"

definition build_pipeline_group ::
    "Ext \<Rightarrow> Env \<Rightarrow> (Function \<times> bool) list \<Rightarrow> Stmt \<Rightarrow> error + Stmt" where
  "build_pipeline_group ext env grp s =
     (let skip = skip_map grp s in
      if num_skipped grp s = length grp then Inr s
      else if \<not> not_skipped skip (hd grp) then Inl UserError
      else
        (let consume = wrap_producer_consumer skip grp False s;
             members = filter (not_skipped skip) grp
         in case fold_err (\<lambda>g. build_produce_group ext env skip (fst g)) members
                   (None, \<lparr>gs_maps = \<lparr>fm_bounds = Map.empty, fm_replacements = Map.empty\<rparr>,
                           gs_add_lets = []\<rparr>) of
              Inl e \<Rightarrow> Inl e
            | Inr (None, st) \<Rightarrow> Inl InternalError
            | Inr (Some produce0, st) \<Rightarrow>
                (let produce1 = reinstate_lets (gs_add_lets st) produce0 in
                 case substitute_bounds ext produce1 (fm_bounds (gs_maps st))
                        (fm_replacements (gs_maps st)) of
                   Inl e \<Rightarrow> Inl e
                 | Inr r \<Rightarrow>
                     (case replace_parent_bound_with_union_bound ext env skip
                             (fst (hd members)) (fst r) (snd r) of
                        Inl e \<Rightarrow> Inl e
                      | Inr produce2 \<Rightarrow>
                          Inr (Block (wrap_producer_consumer skip grp True produce2)
                                 consume)))))"

text \<open>\<open>build_realize_group\<close> (source lines 1244-1251).\<close>

definition build_realize_group :: "Target \<Rightarrow> (Function \<times> bool) list \<Rightarrow> Stmt \<Rightarrow> Stmt" where
  "build_realize_group target grp s =
     fold (\<lambda>g body. if function_is_used_in_stmt (func_name (fst g)) body \<or> snd g
                     then build_realize target (fst g) (snd g) body else body)
       (rev grp) s"

text \<open>
  \<open>InjectGroupRealization\<close> (source lines 958-1323). The group is the list of its
  functions, each with its output flag; the levels are those of the first member.
\<close>

definition group_after_body ::
    "Ext \<Rightarrow> Env \<Rightarrow> Target \<Rightarrow> (Function \<times> bool) list \<Rightarrow> string \<Rightarrow> Stmt \<Rightarrow> Found \<Rightarrow>
       error + (Stmt \<times> Found)" where
  "group_after_body ext env target grp loop_name body st =
     (case (if match_loop (compute_level (func_schedule (fst (hd grp)))) loop_name
            then build_pipeline_group ext env grp body else Inr body) of
        Inl e \<Rightarrow> Inl e
      | Inr body1 \<Rightarrow>
          (let st1 = (if match_loop (compute_level (func_schedule (fst (hd grp)))) loop_name
                      then st\<lparr>found_compute_level := True\<rparr> else st) in
           if match_loop (store_level (func_schedule (fst (hd grp)))) loop_name then
             (if \<not> found_compute_level st1 then Inl InternalError
              else Inr (build_realize_group target grp body1,
                        st1\<lparr>found_store_level := True\<rparr>))
           else Inr (body1, st1)))"

function InjectGroupRealization ::
    "Ext \<Rightarrow> Env \<Rightarrow> Target \<Rightarrow> (Function \<times> bool) list \<Rightarrow> Stmt \<Rightarrow> Found \<Rightarrow>
       error + (Stmt \<times> Found)" where
  "InjectGroupRealization ext env target grp (For n mn extent ft dev body0) st =
     (let lets = fst (strip_lets body0);
          body = snd (strip_lets body0)
      in case InjectGroupRealization ext env target grp body st of
           Inl e \<Rightarrow> Inl e
         | Inr r \<Rightarrow>
             (case group_after_body ext env target grp n (fst r) (snd r) of
                Inl e \<Rightarrow> Inl e
              | Inr r1 \<Rightarrow> Inr (For n mn extent ft dev (reinstate_lets lets (fst r1)), snd r1)))"
| "InjectGroupRealization ext env target grp (LetStmt n v body) st =
     (case InjectGroupRealization ext env target grp body st of
        Inl e \<Rightarrow> Inl e
      | Inr r \<Rightarrow> Inr (LetStmt n v (fst r), snd r))"
| "InjectGroupRealization ext env target grp (IfThenElse c t e) st =
     (case InjectGroupRealization ext env target grp t st of
        Inl err \<Rightarrow> Inl err
      | Inr r \<Rightarrow>
          (case e of
             None \<Rightarrow> Inr (IfThenElse c (fst r) None, snd r)
           | Some e' \<Rightarrow>
               (case InjectGroupRealization ext env target grp e' (snd r) of
                  Inl err \<Rightarrow> Inl err
                | Inr r1 \<Rightarrow> Inr (IfThenElse c (fst r) (Some (fst r1)), snd r1))))"
| "InjectGroupRealization ext env target grp (Block a b) st =
     (case InjectGroupRealization ext env target grp a st of
        Inl e \<Rightarrow> Inl e
      | Inr r \<Rightarrow>
          (case InjectGroupRealization ext env target grp b (snd r) of
             Inl e \<Rightarrow> Inl e
           | Inr r1 \<Rightarrow> Inr (Block (fst r) (fst r1), snd r1)))"
| "InjectGroupRealization ext env target grp (Provide n vals args) st =
     Inr (Provide n vals args, st)"
| "InjectGroupRealization ext env target grp (Realize n ts bnds c body) st =
     (case InjectGroupRealization ext env target grp body st of
        Inl e \<Rightarrow> Inl e
      | Inr r \<Rightarrow> Inr (Realize n ts bnds c (fst r), snd r))"
| "InjectGroupRealization ext env target grp (ProducerConsumer n p body) st =
     (case InjectGroupRealization ext env target grp body st of
        Inl e \<Rightarrow> Inl e
      | Inr r \<Rightarrow> Inr (ProducerConsumer n p (fst r), snd r))"
| "InjectGroupRealization ext env target grp (AssertStmt c m) st = Inr (AssertStmt c m, st)"
| "InjectGroupRealization ext env target grp (Evaluate v) st = Inr (Evaluate v, st)"
  by pat_completeness auto
termination
  by (relation "measure (\<lambda>(ext, env, target, grp, s, st). size s)")
     (auto simp: le_imp_less_Suc size_strip_lets)

text \<open>The constructor of the group injector asserts a well-formed group.\<close>

definition inject_group ::
    "Ext \<Rightarrow> Env \<Rightarrow> Target \<Rightarrow> (Function \<times> bool) list \<Rightarrow> Stmt \<Rightarrow> error + (Stmt \<times> Found)" where
  "inject_group ext env target grp s =
     (if grp = [] then Inl InternalError
      else if is_inline (compute_level (func_schedule (fst (hd grp)))) then Inl InternalError
      else InjectGroupRealization ext env target grp s
             \<lparr>found_store_level = False, found_compute_level = False\<rparr>)"


section \<open>The legality analyzer\<close>

text \<open>
  \<open>ComputeLegalSchedules\<close> (source lines 1326-1405). The stack \<open>sites\<close> grows at a loop
  and shrinks after its body, so it is an argument of the visit; the flag \<open>found\<close> and the
  list \<open>sites_allowed\<close> are the state.
\<close>

record Site =
  is_parallel :: bool
  loop_level :: LoopLevel

record Legal =
  found :: bool
  sites_allowed :: "Site list"

definition register_use :: "Site list \<Rightarrow> Legal \<Rightarrow> Legal" where
  "register_use sites st =
     (if \<not> found st then \<lparr>found = True, sites_allowed = sites\<rparr>
      else st\<lparr>sites_allowed :=
                filter (\<lambda>s1. list_ex (\<lambda>s2. match_level (loop_level s1) (loop_level s2))
                                (sites_allowed st))
                  sites\<rparr>)"

fun ComputeLegalSchedules_expr :: "string \<Rightarrow> Site list \<Rightarrow> Expr \<Rightarrow> Legal \<Rightarrow> Legal" where
  "ComputeLegalSchedules_expr func sites (IntImm i) st = st"
| "ComputeLegalSchedules_expr func sites (StringImm s) st = st"
| "ComputeLegalSchedules_expr func sites (Variable t n) st =
     (if names_buffer_of func t n then register_use sites st else st)"
| "ComputeLegalSchedules_expr func sites (Bin op a b) st =
     ComputeLegalSchedules_expr func sites b (ComputeLegalSchedules_expr func sites a st)"
| "ComputeLegalSchedules_expr func sites (Call t n args ct) st =
     (let st1 = fold (ComputeLegalSchedules_expr func sites) args st
      in if n = func then register_use sites st1 else st1)"
| "ComputeLegalSchedules_expr func sites (Let_e n v b) st =
     ComputeLegalSchedules_expr func sites b (ComputeLegalSchedules_expr func sites v st)"

text \<open>The level of a loop, from its name (source lines 1347-1360).\<close>

definition loop_level_of :: "Env \<Rightarrow> string \<Rightarrow> error + LoopLevel" where
  "loop_level_of env name =
     (if CHR ''.'' \<notin> set name then Inl InternalError
      else
        (let func = takeWhile (\<lambda>c. c \<noteq> CHR ''.'') name;
             var = rev (takeWhile (\<lambda>c. c \<noteq> CHR ''.'') (rev name))
         in if func = [] then (if var = [] then Inl InternalError else Inr LoopLevel_root)
            else (case map_of env func of
                    None \<Rightarrow> Inl InternalError
                  | Some f \<Rightarrow> Inr \<lparr>level_func = func_name f, level_var = var\<rparr>)))"

fun ComputeLegalSchedules :: "Env \<Rightarrow> string \<Rightarrow> Site list \<Rightarrow> Stmt \<Rightarrow> Legal \<Rightarrow> error + Legal" where
  "ComputeLegalSchedules env func sites (For n mn extent ft dev body) st =
     (let st1 = ComputeLegalSchedules_expr func sites extent
                  (ComputeLegalSchedules_expr func sites mn st)
      in case loop_level_of env n of
           Inl e \<Rightarrow> Inl e
         | Inr level \<Rightarrow>
             ComputeLegalSchedules env func
               (sites @ [\<lparr>is_parallel = (ft = Parallel \<or> ft = Vectorized), loop_level = level\<rparr>])
               body st1)"
| "ComputeLegalSchedules env func sites (LetStmt n v body) st =
     ComputeLegalSchedules env func sites body (ComputeLegalSchedules_expr func sites v st)"
| "ComputeLegalSchedules env func sites (IfThenElse c t e) st =
     (case ComputeLegalSchedules env func sites t (ComputeLegalSchedules_expr func sites c st) of
        Inl err \<Rightarrow> Inl err
      | Inr st1 \<Rightarrow>
          (case e of None \<Rightarrow> Inr st1 | Some e' \<Rightarrow> ComputeLegalSchedules env func sites e' st1))"
| "ComputeLegalSchedules env func sites (Block a b) st =
     (case ComputeLegalSchedules env func sites a st of
        Inl e \<Rightarrow> Inl e
      | Inr st1 \<Rightarrow> ComputeLegalSchedules env func sites b st1)"
| "ComputeLegalSchedules env func sites (Provide n vals args) st =
     Inr (fold (ComputeLegalSchedules_expr func sites) args
            (fold (ComputeLegalSchedules_expr func sites) vals st))"
| "ComputeLegalSchedules env func sites (Realize n ts bnds c body) st =
     ComputeLegalSchedules env func sites body
       (ComputeLegalSchedules_expr func sites c
          (fold (\<lambda>b s. ComputeLegalSchedules_expr func sites (snd b)
                          (ComputeLegalSchedules_expr func sites (fst b) s))
             bnds st))"
| "ComputeLegalSchedules env func sites (ProducerConsumer n p body) st =
     ComputeLegalSchedules env func sites body st"
| "ComputeLegalSchedules env func sites (AssertStmt c m) st =
     Inr (ComputeLegalSchedules_expr func sites m (ComputeLegalSchedules_expr func sites c st))"
| "ComputeLegalSchedules env func sites (Evaluate v) st =
     Inr (ComputeLegalSchedules_expr func sites v st)"

definition legal_sites :: "Env \<Rightarrow> string \<Rightarrow> Stmt \<Rightarrow> error + Site list" where
  "legal_sites env func s =
     (case ComputeLegalSchedules env func [] s \<lparr>found = False, sites_allowed = []\<rparr> of
        Inl e \<Rightarrow> Inl e
      | Inr st \<Rightarrow> Inr (sites_allowed st))"

section \<open>Validation of the placement\<close>

text \<open>
  The last part of \<open>validate_schedule\<close> (source lines 1583-1652): the checks of the store
  and compute levels. The loop over the legal sites keeps four variables.
\<close>

record Placement =
  store_at_ok :: bool
  compute_at_ok :: bool
  store_idx :: nat
  compute_idx :: nat

definition placement_step :: "Site list \<Rightarrow> LoopLevel \<Rightarrow> LoopLevel \<Rightarrow> nat \<Rightarrow> Placement \<Rightarrow> Placement" where
  "placement_step sites store_at compute_at i p =
     (let p1 = (if match_level (loop_level (sites ! i)) store_at
                then p\<lparr>store_at_ok := True, store_idx := i\<rparr> else p)
      in if match_level (loop_level (sites ! i)) compute_at
         then p1\<lparr>compute_at_ok := store_at_ok p1, compute_idx := i\<rparr> else p1)"

definition find_placement :: "Site list \<Rightarrow> LoopLevel \<Rightarrow> LoopLevel \<Rightarrow> Placement" where
  "find_placement sites store_at compute_at =
     fold (placement_step sites store_at compute_at) [0 ..< length sites]
       \<lparr>store_at_ok = False, compute_at_ok = False, store_idx = 0, compute_idx = 0\<rparr>"

definition race_step :: "Site list \<Rightarrow> nat \<Rightarrow> Placement \<Rightarrow> Placement" where
  "race_step sites i p =
     (if is_parallel (sites ! i) then p\<lparr>store_at_ok := False, compute_at_ok := False\<rparr> else p)"

definition check_placement :: "Site list \<Rightarrow> LoopLevel \<Rightarrow> LoopLevel \<Rightarrow> error + unit" where
  "check_placement sites store_at compute_at =
     (let p = find_placement sites store_at compute_at;
          p1 = (if store_at_ok p \<and> compute_at_ok p
                then fold (race_step sites) [store_idx p + 1 ..< compute_idx p + 1] p
                else p)
      in if \<not> store_at_ok p1 \<or> \<not> compute_at_ok p1 then Inl UserError else Inr ())"

definition validate_placement :: "Env \<Rightarrow> Function \<Rightarrow> Stmt \<Rightarrow> bool \<Rightarrow> error + unit" where
  "validate_placement env f s is_output =
     (let store_at = store_level (func_schedule f);
          compute_at = compute_level (func_schedule f)
      in if is_output then
           (if is_root store_at \<and> is_root compute_at then Inr () else Inl UserError)
         else if is_inline store_at \<and> is_inline compute_at then
           (if specializations (func_definition f) = [] then Inr () else Inl UserError)
         else (case legal_sites env (func_name f) s of
                 Inl e \<Rightarrow> Inl e
               | Inr sites \<Rightarrow> check_placement sites store_at compute_at))"

section \<open>Removal of the outermost loops\<close>

text \<open>\<open>RemoveLoopsOverOutermost\<close> (source lines 1871-1893) and the end of the driver.\<close>

lemma size_substitute [termination_simp]: "size (substitute name r s) = size s"
  by (induction s) (auto split: option.splits)

definition binds_outermost :: "string \<Rightarrow> bool" where
  "binds_outermost name =
     (ends_with name ''.__outermost.loop_extent'' \<or>
      ends_with name ''.__outermost.loop_min'' \<or>
      ends_with name ''.__outermost.loop_max'')"

function RemoveLoopsOverOutermost :: "Ext \<Rightarrow> Stmt \<Rightarrow> Stmt" where
  "RemoveLoopsOverOutermost ext (For n mn extent ft dev body) =
     (if ends_with n ''.__outermost'' \<and> is_one (simplify ext extent) \<and> dev = DeviceAPI_None
      then RemoveLoopsOverOutermost ext (substitute n mn body)
      else For n mn extent ft dev (RemoveLoopsOverOutermost ext body))"
| "RemoveLoopsOverOutermost ext (LetStmt n v body) =
     (if binds_outermost n
      then RemoveLoopsOverOutermost ext (substitute n (simplify ext v) body)
      else LetStmt n v (RemoveLoopsOverOutermost ext body))"
| "RemoveLoopsOverOutermost ext (IfThenElse c t e) =
     IfThenElse c (RemoveLoopsOverOutermost ext t)
       (case e of None \<Rightarrow> None | Some e' \<Rightarrow> Some (RemoveLoopsOverOutermost ext e'))"
| "RemoveLoopsOverOutermost ext (Block a b) =
     Block (RemoveLoopsOverOutermost ext a) (RemoveLoopsOverOutermost ext b)"
| "RemoveLoopsOverOutermost ext (Provide n vals args) = Provide n vals args"
| "RemoveLoopsOverOutermost ext (Realize n ts bnds c body) =
     Realize n ts bnds c (RemoveLoopsOverOutermost ext body)"
| "RemoveLoopsOverOutermost ext (ProducerConsumer n p body) =
     ProducerConsumer n p (RemoveLoopsOverOutermost ext body)"
| "RemoveLoopsOverOutermost ext (AssertStmt c m) = AssertStmt c m"
| "RemoveLoopsOverOutermost ext (Evaluate v) = Evaluate v"
  by pat_completeness auto
termination
  by (relation "measure (\<lambda>(ext, s). size s)") (auto simp: size_substitute)

text \<open>The driver ends by taking the body of the root loop and removing the outermost loops.\<close>

definition finish_schedule :: "Ext \<Rightarrow> Stmt \<Rightarrow> error + Stmt" where
  "finish_schedule ext s =
     (case s of
        For n mn extent ft dev body \<Rightarrow> Inr (RemoveLoopsOverOutermost ext body)
      | _ \<Rightarrow> Inl InternalError)"


section \<open>Notions used in the statements\<close>

text \<open>
  The expressions that occur in a statement, the names of the calls and the variables
  (with their types) of an expression: what a statement contains, said without a visitor.
\<close>

fun call_names_expr :: "Expr \<Rightarrow> string set" where
  "call_names_expr (IntImm i) = {}"
| "call_names_expr (StringImm s) = {}"
| "call_names_expr (Variable t n) = {}"
| "call_names_expr (Bin op a b) = call_names_expr a \<union> call_names_expr b"
| "call_names_expr (Call t n args ct) = insert n (\<Union> (set (map call_names_expr args)))"
| "call_names_expr (Let_e n v b) = call_names_expr v \<union> call_names_expr b"

fun variables_expr :: "Expr \<Rightarrow> (Type \<times> string) set" where
  "variables_expr (IntImm i) = {}"
| "variables_expr (StringImm s) = {}"
| "variables_expr (Variable t n) = {(t, n)}"
| "variables_expr (Bin op a b) = variables_expr a \<union> variables_expr b"
| "variables_expr (Call t n args ct) = \<Union> (set (map variables_expr args))"
| "variables_expr (Let_e n v b) = variables_expr v \<union> variables_expr b"

fun exprs_of_stmt :: "Stmt \<Rightarrow> Expr list" where
  "exprs_of_stmt (For n mn ext ft dev body) = mn # ext # exprs_of_stmt body"
| "exprs_of_stmt (LetStmt n v body) = v # exprs_of_stmt body"
| "exprs_of_stmt (IfThenElse c t e) =
     c # exprs_of_stmt t @ (case e of None \<Rightarrow> [] | Some e' \<Rightarrow> exprs_of_stmt e')"
| "exprs_of_stmt (Block a b) = exprs_of_stmt a @ exprs_of_stmt b"
| "exprs_of_stmt (Provide n vals args) = vals @ args"
| "exprs_of_stmt (Realize n ts bnds c body) =
     map fst bnds @ map snd bnds @ c # exprs_of_stmt body"
| "exprs_of_stmt (ProducerConsumer n p body) = exprs_of_stmt body"
| "exprs_of_stmt (AssertStmt c m) = [c, m]"
| "exprs_of_stmt (Evaluate v) = [v]"

definition call_names_stmt :: "Stmt \<Rightarrow> string set" where
  "call_names_stmt s = \<Union> (set (map call_names_expr (exprs_of_stmt s)))"

definition variables_stmt :: "Stmt \<Rightarrow> (Type \<times> string) set" where
  "variables_stmt s = \<Union> (set (map variables_expr (exprs_of_stmt s)))"

definition uses_expr :: "string \<Rightarrow> Expr \<Rightarrow> bool" where
  "uses_expr func e = (func \<in> call_names_expr e \<or> (\<exists>(t, n) \<in> variables_expr e. names_buffer_of func t n))"

text \<open>
  The assertion of an explicit bound as the specification words it: the user's minimum
  is at most the inferred minimum, and the user's maximum (minimum plus extent minus one)
  is at least the inferred maximum. A bound without a minimum takes the inferred one.
\<close>

definition bound_assert :: "string \<Rightarrow> nat \<Rightarrow> string \<Rightarrow> Expr option \<Rightarrow> Expr \<Rightarrow> Stmt" where
  "bound_assert fname stage var user_min_opt extent =
     (let inferred_min = var32 (fname @ ''.s'' @ to_string stage @ ''.'' @ var @ ''.min_unbounded'');
          inferred_max = var32 (fname @ ''.s'' @ to_string stage @ ''.'' @ var @ ''.max_unbounded'');
          user_min = (case user_min_opt of None \<Rightarrow> inferred_min | Some m \<Rightarrow> m);
          user_max = Bin Sub (Bin Add extent user_min) (const32 1)
      in AssertStmt
           (Bin And (Bin LE user_min inferred_min) (Bin GE user_max inferred_max))
           (Call (Int_t 32) ''halide_error_explicit_bounds_too_small''
              [StringImm var, StringImm fname, user_min, user_max, inferred_min, inferred_max]
              Extern))"

definition stage_bound_asserts :: "string \<Rightarrow> Bound list \<Rightarrow> nat \<Rightarrow> Stmt list" where
  "stage_bound_asserts fname bs stage =
     concat (map (\<lambda>b. case bound_extent b of
                          None \<Rightarrow> []
                        | Some e \<Rightarrow> [bound_assert fname stage (bound_var b) (bound_min b) e]) bs)"

definition explicit_bound_asserts :: "Function \<Rightarrow> Stmt list" where
  "explicit_bound_asserts func =
     concat (map (stage_bound_asserts (func_name func) (bounds (func_schedule func)))
               [0 ..< Suc (length (func_updates func))])"

definition realize_node :: "Function \<Rightarrow> Stmt \<Rightarrow> Stmt" where
  "realize_node func s =
     Realize (func_name func) (output_types func)
       (map (\<lambda>arg. (var32 (func_name func @ ''.'' @ arg @ ''.min_realized''),
                    var32 (func_name func @ ''.'' @ arg @ ''.extent_realized'')))
          (func_args func))
       const_true s"

text \<open>The names of the Realize nodes of a statement.\<close>

fun realize_names :: "Stmt \<Rightarrow> string set" where
  "realize_names (For n mn ext ft dev body) = realize_names body"
| "realize_names (LetStmt n v body) = realize_names body"
| "realize_names (IfThenElse c t e) =
     realize_names t \<union> (case e of None \<Rightarrow> {} | Some e' \<Rightarrow> realize_names e')"
| "realize_names (Block a b) = realize_names a \<union> realize_names b"
| "realize_names (Provide n vals args) = {}"
| "realize_names (Realize n ts bnds c body) = insert n (realize_names body)"
| "realize_names (ProducerConsumer n p body) = realize_names body"
| "realize_names (AssertStmt c m) = {}"
| "realize_names (Evaluate v) = {}"

text \<open>
  The chain of tests of the specializations: the first pair is the outermost test, the
  base is the innermost fallthrough.
\<close>

fun specialization_chain :: "(Expr \<times> Stmt) list \<Rightarrow> Stmt \<Rightarrow> Stmt" where
  "specialization_chain [] base = base"
| "specialization_chain (ca # rest) base =
     IfThenElse (fst ca) (snd ca) (Some (specialization_chain rest base))"







text \<open>
  The placement of a function among the legal sites. \<open>matching_sites\<close> lists the indices
  of the sites that match a level, outermost first. A placement is in error when the store
  level or the compute level matches no site, when every site of the store level lies
  inside the innermost site of the compute level, or when a site after the innermost store
  site, up to and including the innermost compute site, is parallel. \<open>placement_upto\<close> is
  the state of the loop over the sites after its first \<open>k\<close> rounds.
\<close>

definition matching_sites :: "Site list \<Rightarrow> LoopLevel \<Rightarrow> nat list" where
  "matching_sites sites level =
     filter (\<lambda>i. match_level (loop_level (sites ! i)) level) [0 ..< length sites]"

definition placement_error :: "Site list \<Rightarrow> LoopLevel \<Rightarrow> LoopLevel \<Rightarrow> bool" where
  "placement_error sites store_at compute_at =
     (let ss = matching_sites sites store_at;
          cs = matching_sites sites compute_at
      in ss = [] \<or> cs = [] \<or> last cs < hd ss \<or>
         list_ex (\<lambda>i. is_parallel (sites ! i)) [last ss + 1 ..< last cs + 1])"

definition sites_upto :: "Site list \<Rightarrow> LoopLevel \<Rightarrow> nat \<Rightarrow> nat list" where
  "sites_upto sites level k =
     filter (\<lambda>i. match_level (loop_level (sites ! i)) level) [0 ..< k]"

definition placement_upto :: "Site list \<Rightarrow> LoopLevel \<Rightarrow> LoopLevel \<Rightarrow> nat \<Rightarrow> Placement" where
  "placement_upto sites store_at compute_at k =
     (let ss = sites_upto sites store_at k; cs = sites_upto sites compute_at k
      in \<lparr>store_at_ok = (ss \<noteq> []),
          compute_at_ok = (cs \<noteq> [] \<and> ss \<noteq> [] \<and> hd ss \<le> last cs),
          store_idx = (if ss = [] then 0 else last ss),
          compute_idx = (if cs = [] then 0 else last cs)\<rparr>)"

text \<open>
  The uses of a function, as the analyzer meets them: \<open>use_count\<close> counts the uses in an
  expression, \<open>use_stacks\<close> lists, in the order of the visit, the stack of enclosing loops
  of every use in a statement. \<open>allowed_by\<close> keeps the sites of the last stack that match
  some site of every other stack. A level is plain when its variable has no dot. The
  longest common prefix of the stacks, with sites compared by \<open>match_level\<close>, is the notion
  of the specification.
\<close>

fun use_count :: "string \<Rightarrow> Expr \<Rightarrow> nat" where
  "use_count func (IntImm i) = 0"
| "use_count func (StringImm s) = 0"
| "use_count func (Variable t n) = (if names_buffer_of func t n then 1 else 0)"
| "use_count func (Bin op a b) = use_count func a + use_count func b"
| "use_count func (Call t n args ct) =
     sum_list (map (use_count func) args) + (if n = func then 1 else 0)"
| "use_count func (Let_e n v b) = use_count func v + use_count func b"

definition use_counts :: "string \<Rightarrow> Expr list \<Rightarrow> nat" where
  "use_counts func es = sum_list (map (use_count func) es)"

fun use_stacks :: "Env \<Rightarrow> string \<Rightarrow> Site list \<Rightarrow> Stmt \<Rightarrow> error + Site list list" where
  "use_stacks env func sites (For n mn extent ft dev body) =
     (case loop_level_of env n of
        Inl e \<Rightarrow> Inl e
      | Inr level \<Rightarrow>
          (case use_stacks env func
                  (sites @ [\<lparr>is_parallel = (ft = Parallel \<or> ft = Vectorized), loop_level = level\<rparr>])
                  body of
             Inl e \<Rightarrow> Inl e
           | Inr inner \<Rightarrow> Inr (replicate (use_counts func [mn, extent]) sites @ inner)))"
| "use_stacks env func sites (LetStmt n v body) =
     (case use_stacks env func sites body of
        Inl e \<Rightarrow> Inl e
      | Inr inner \<Rightarrow> Inr (replicate (use_count func v) sites @ inner))"
| "use_stacks env func sites (IfThenElse c t e) =
     (case use_stacks env func sites t of
        Inl err \<Rightarrow> Inl err
      | Inr st \<Rightarrow>
          (case e of
             None \<Rightarrow> Inr (replicate (use_count func c) sites @ st)
           | Some e' \<Rightarrow>
               (case use_stacks env func sites e' of
                  Inl err \<Rightarrow> Inl err
                | Inr se \<Rightarrow> Inr (replicate (use_count func c) sites @ st @ se))))"
| "use_stacks env func sites (Block a b) =
     (case use_stacks env func sites a of
        Inl e \<Rightarrow> Inl e
      | Inr sa \<Rightarrow>
          (case use_stacks env func sites b of Inl e \<Rightarrow> Inl e | Inr sb \<Rightarrow> Inr (sa @ sb)))"
| "use_stacks env func sites (Provide n vals args) =
     Inr (replicate (use_counts func (vals @ args)) sites)"
| "use_stacks env func sites (Realize n ts bnds c body) =
     (case use_stacks env func sites body of
        Inl e \<Rightarrow> Inl e
      | Inr inner \<Rightarrow>
          Inr (replicate (use_counts func (concat (map (\<lambda>b. [fst b, snd b]) bnds) @ [c])) sites
               @ inner))"
| "use_stacks env func sites (ProducerConsumer n p body) = use_stacks env func sites body"
| "use_stacks env func sites (AssertStmt c m) = Inr (replicate (use_counts func [c, m]) sites)"
| "use_stacks env func sites (Evaluate v) = Inr (replicate (use_count func v) sites)"

definition allowed_by :: "Site list list \<Rightarrow> Site list" where
  "allowed_by stacks =
     (if stacks = [] then []
      else filter (\<lambda>s1. \<forall>st \<in> set (butlast stacks).
                          \<exists>s2 \<in> set st. match_level (loop_level s1) (loop_level s2))
             (last stacks))"

definition plain_level :: "LoopLevel \<Rightarrow> bool" where
  "plain_level l = (CHR ''.'' \<notin> set (level_var l))"

definition plain_stack :: "Site list \<Rightarrow> bool" where
  "plain_stack sites = (\<forall>s \<in> set sites. plain_level (loop_level s))"

fun common_prefix :: "Site list \<Rightarrow> Site list \<Rightarrow> Site list" where
  "common_prefix (a # as) (b # bs) =
     (if match_level (loop_level a) (loop_level b) then a # common_prefix as bs else [])"
| "common_prefix as bs = []"

definition longest_common_prefix :: "Site list list \<Rightarrow> Site list" where
  "longest_common_prefix stacks =
     (case stacks of [] \<Rightarrow> [] | st # rest \<Rightarrow> fold (\<lambda>s acc. common_prefix acc s) rest st)"


text \<open>
  The registrations of one fused pair and one dim as a list of keys and values,
  \<open>emplace\<close> over such a list, and the names of the child's loop, of the parent's loop
  and of the renamed child loop.
\<close>

definition emplace_all :: "(string \<times> 'v) list \<Rightarrow> (string \<rightharpoonup> 'v) \<Rightarrow> (string \<rightharpoonup> 'v)" where
  "emplace_all kvs r = fold (\<lambda>kv m. emplace m (fst kv) (snd kv)) kvs r"

definition fused_replacements :: "FusedPair \<Rightarrow> Dim \<Rightarrow> (string \<times> Expr) list" where
  "fused_replacements pair dim =
     (let child = stage_var (func_2 pair) (stage_2 pair) (dim_var dim);
          parent = stage_var (func_1 pair) (stage_1 pair) (dim_var dim)
      in [(child @ ''.loop_min'', var32 parent), (child @ ''.loop_max'', var32 parent),
          (child @ ''.loop_extent'', const32 1)])"

definition child_var :: "FusedPair \<Rightarrow> Dim \<Rightarrow> string" where
  "child_var pair dim = stage_var (func_2 pair) (stage_2 pair) (dim_var dim)"

definition parent_var :: "FusedPair \<Rightarrow> Dim \<Rightarrow> string" where
  "parent_var pair dim = stage_var (func_1 pair) (stage_1 pair) (dim_var dim)"

definition fused_var :: "FusedPair \<Rightarrow> Dim \<Rightarrow> string" where
  "fused_var pair dim =
     func_2 pair @ ''.s'' @ to_string (stage_2 pair) @ ''.fused.'' @ dim_var dim"

text \<open>
  The loops of a statement in the order of a traversal, with and without their bounds;
  the header a loop has after the substitution of the bounds; the registrations of a
  pair, of a definition, of a function and of the members of a group, in the order in
  which the producer is built; a statement in which every loop has its own
  \<open>.loop_min\<close> and \<open>.loop_extent\<close> as bounds; the members of a group that are not skipped
  and the construction of their producer.
\<close>

fun for_loops :: "Stmt \<Rightarrow> (string \<times> Expr \<times> Expr \<times> ForType \<times> DeviceAPI) list" where
  "for_loops (For n mn extent ft dev body) = (n, mn, extent, ft, dev) # for_loops body"
| "for_loops (LetStmt n v body) = for_loops body"
| "for_loops (IfThenElse c t e) =
     for_loops t @ (case e of None \<Rightarrow> [] | Some e' \<Rightarrow> for_loops e')"
| "for_loops (Block a b) = for_loops a @ for_loops b"
| "for_loops (Provide n vals args) = []"
| "for_loops (Realize n ts bnds c body) = for_loops body"
| "for_loops (ProducerConsumer n p body) = for_loops body"
| "for_loops (AssertStmt c m) = []"
| "for_loops (Evaluate v) = []"

definition loop_header ::
    "string \<times> Expr \<times> Expr \<times> ForType \<times> DeviceAPI \<Rightarrow> string \<times> ForType \<times> DeviceAPI" where
  "loop_header l = (case l of (n, mn, extent, ft, dev) \<Rightarrow> (n, ft, dev))"

definition fused_name :: "string \<Rightarrow> string" where
  "fused_name n = (case fused_loop_name n of Inl e \<Rightarrow> n | Inr m \<Rightarrow> m)"

definition fused_header ::
    "(string \<rightharpoonup> Expr) \<Rightarrow> string \<times> Expr \<times> Expr \<times> ForType \<times> DeviceAPI \<Rightarrow>
       string \<times> ForType \<times> DeviceAPI" where
  "fused_header replacements l =
     (case l of (n, mn, extent, ft, dev) \<Rightarrow>
        (case replaced_bounds replacements mn extent of
           None \<Rightarrow> (n, ft, dev)
         | Some vals \<Rightarrow> (fused_name n, if is_one (snd vals) then Serial else ft, dev)))"

definition fused_dims :: "Dim list \<Rightarrow> FusedPair \<Rightarrow> Dim list" where
  "fused_dims ds pair =
     (case find_dim ds (var_name pair) of
        Inl e \<Rightarrow> []
      | Inr None \<Rightarrow> []
      | Inr (Some idx) \<Rightarrow> dims_from ds idx)"

definition pair_registrations ::
    "Env \<Rightarrow> (string \<rightharpoonup> bool) \<Rightarrow> Dim list \<Rightarrow> FusedPair \<Rightarrow> (string \<times> Expr) list" where
  "pair_registrations env skip ds pair =
     (if map_of env (func_2 pair) \<noteq> None \<and> skip (func_2 pair) = Some False
      then concat (map (fused_replacements pair) (fused_dims ds pair)) else [])"

definition definition_registrations ::
    "Env \<Rightarrow> (string \<rightharpoonup> bool) \<Rightarrow> Definition \<Rightarrow> (string \<times> Expr) list" where
  "definition_registrations env skip d =
     concat (map (pair_registrations env skip (dims (def_schedule d)))
               (fused_pairs (def_schedule d)))"

definition function_registrations ::
    "Env \<Rightarrow> (string \<rightharpoonup> bool) \<Rightarrow> Function \<Rightarrow> (string \<times> Expr) list" where
  "function_registrations env skip f =
     concat (map (definition_registrations env skip) (func_definition f # func_updates f))"

definition group_registrations ::
    "Env \<Rightarrow> (string \<rightharpoonup> bool) \<Rightarrow> (Function \<times> bool) list \<Rightarrow> (string \<times> Expr) list" where
  "group_registrations env skip members =
     concat (map (\<lambda>g. function_registrations env skip (fst g)) members)"

definition own_bounds :: "Stmt \<Rightarrow> bool" where
  "own_bounds s =
     list_all (\<lambda>l. case l of (n, mn, extent, ft, dev) \<Rightarrow>
                 mn = var32 (n @ ''.loop_min'') \<and> extent = var32 (n @ ''.loop_extent''))
       (for_loops s)"

definition renamed_loop ::
    "(string \<rightharpoonup> Expr) \<Rightarrow> string \<times> ForType \<times> DeviceAPI \<Rightarrow> string \<times> ForType \<times> DeviceAPI" where
  "renamed_loop replacements h =
     (case h of (n, ft, dev) \<Rightarrow>
        (case replacements (n @ ''.loop_min'') of
           None \<Rightarrow> (n, ft, dev)
         | Some min_val \<Rightarrow>
             (case replacements (n @ ''.loop_extent'') of
                None \<Rightarrow> (n, ft, dev)
              | Some extent_val \<Rightarrow>
                  (fused_name n, if extent_val = const32 1 then Serial else ft, dev))))"

definition own_bounds_opt :: "Stmt option \<Rightarrow> bool" where
  "own_bounds_opt p = (case p of None \<Rightarrow> True | Some s \<Rightarrow> own_bounds s)"

definition loop_headers :: "Stmt \<Rightarrow> (string \<times> ForType \<times> DeviceAPI) list" where
  "loop_headers s = map loop_header (for_loops s)"

definition group_members :: "(Function \<times> bool) list \<Rightarrow> Stmt \<Rightarrow> (Function \<times> bool) list" where
  "group_members grp s = filter (not_skipped (skip_map grp s)) grp"

definition group_producer ::
    "Ext \<Rightarrow> Env \<Rightarrow> (Function \<times> bool) list \<Rightarrow> Stmt \<Rightarrow> error + (Stmt option \<times> GroupState)" where
  "group_producer ext env grp s =
     fold_err (\<lambda>g. build_produce_group ext env (skip_map grp s) (fst g)) (group_members grp s)
       (None, \<lparr>gs_maps = \<lparr>fm_bounds = Map.empty, fm_replacements = Map.empty\<rparr>,
               gs_add_lets = []\<rparr>)"

definition registered_pair ::
    "Env \<Rightarrow> (string \<rightharpoonup> bool) \<Rightarrow> Definition \<Rightarrow> FusedPair \<Rightarrow> nat \<Rightarrow> bool" where
  "registered_pair env skip d pair idx =
     (pair \<in> set (fused_pairs (def_schedule d)) \<and> map_of env (func_2 pair) \<noteq> None \<and>
      skip (func_2 pair) = Some False \<and>
      find_dim (dims (def_schedule d)) (var_name pair) = Inr (Some idx))"

section \<open>Concrete instances\<close>

text \<open>
  Small schedules, functions and statements on which the properties are evaluated. The
  collaborators of \<open>trivial_ext\<close> do nothing: no splits, names left as they are, and a
  simplifier that returns its argument.
\<close>

definition trivial_ext :: Ext where
  "trivial_ext =
     \<lparr>apply_splits = (\<lambda>sp upd prefix al. \<lparr>substitutions = [], let_stmts = [], predicates = []\<rparr>),
      compute_loop_bounds_after_split = (\<lambda>sp prefix. []),
      qualify = (\<lambda>prefix e. e),
      simplify = (\<lambda>e. e),
      extern_produce = (\<lambda>f t. Evaluate (IntImm 0))\<rparr>"

definition ex_dim :: "string \<Rightarrow> Dim" where
  "ex_dim v = \<lparr>dim_var = v, for_type = Serial, device_api = DeviceAPI_None\<rparr>"

definition ex_schedule :: "string list \<Rightarrow> LoopLevel \<Rightarrow> FusedPair list \<Rightarrow> Schedule" where
  "ex_schedule vs fl fps =
     \<lparr>dims = map ex_dim (vs @ [''__outermost'']), splits = [], bounds = [], rvars = [],
      store_level = LoopLevel_root, compute_level = LoopLevel_root, fuse_level = fl,
      fused_pairs = fps, touched = False, memoized = False\<rparr>"

definition ex_definition :: "bool \<Rightarrow> Schedule \<Rightarrow> Definition" where
  "ex_definition init s = Definition init [var32 ''x''] [IntImm 0] s [] []"

definition ex_function :: "string \<Rightarrow> Definition \<Rightarrow> Definition list \<Rightarrow> Function" where
  "ex_function n d us =
     \<lparr>func_name = n, func_args = [''x''], func_definition = d, func_updates = us,
      output_types = [Int_t 32], has_extern_definition = False\<rparr>"

definition ex_target :: Target where
  "ex_target = \<lparr>NoAsserts = False, MSAN = False\<rparr>"

definition ex_f :: Function where
  "ex_f = ex_function ''f'' (ex_definition True (ex_schedule [''x''] LoopLevel_inline [])) []"

definition ex_g :: Function where
  "ex_g = ex_function ''g'' (ex_definition True (ex_schedule [''x''] LoopLevel_inline [])) []"

definition ex_call_f :: Stmt where
  "ex_call_f = Provide ''h'' [Call (Int_t 32) ''f'' [var32 ''x''] Halide] [var32 ''x'']"

definition ex_realized_f :: Stmt where
  "ex_realized_f = Realize ''f'' [Int_t 32] [] const_true ex_call_f"

definition ex_spec_alt :: Definition where
  "ex_spec_alt = ex_definition True (ex_schedule [''x''] LoopLevel_inline [])"

definition ex_specialized :: Definition where
  "ex_specialized =
     Definition True [var32 ''x''] [IntImm 0] (ex_schedule [''x''] LoopLevel_inline []) []
       [(Variable (UInt_t 1) ''p'', ex_spec_alt), (Variable (UInt_t 1) ''q'', ex_spec_alt)]"

definition ex_loops :: Stmt where
  "ex_loops =
     For ''f.s0.__outermost'' (var32 ''f.s0.__outermost.loop_min'')
       (var32 ''f.s0.__outermost.loop_extent'') Serial DeviceAPI_None
       (For ''f.s0.x'' (var32 ''f.s0.x.loop_min'') (var32 ''f.s0.x.loop_extent'') Serial
          DeviceAPI_None (Provide ''f'' [IntImm 0] [var32 ''x'']))"

definition ex_loop_nest :: Stmt where
  "ex_loop_nest =
     reinstate_lets
       [(''f.s0.x.loop_max'', var32 ''f.s0.x.max''),
        (''f.s0.x.loop_min'', var32 ''f.s0.x.min''),
        (''f.s0.x.loop_extent'',
           Bin Sub (Bin Add (var32 ''f.s0.x.max'') (IntImm 1)) (var32 ''f.s0.x.min'')),
        (''f.s0.__outermost.loop_extent'', IntImm 1),
        (''f.s0.__outermost.loop_max'', IntImm 0),
        (''f.s0.__outermost.loop_min'', IntImm 0)]
       ex_loops"

definition ex_impure_pred :: Expr where
  "ex_impure_pred = likely (Bin LT (Call (Int_t 32) ''random_int'' [] Extern) (IntImm 5))"

definition ex_pure_pred :: Expr where
  "ex_pure_pred = likely (Bin LT (var32 ''p'') (IntImm 5))"

definition ex_for_container :: "nat \<Rightarrow> string \<Rightarrow> Container" where
  "ex_for_container i n =
     \<lparr>container_type = Container_For, dim_idx = i, container_name = n, container_value = None\<rparr>"

definition ex_if_container :: "Expr \<Rightarrow> Container" where
  "ex_if_container p =
     \<lparr>container_type = Container_If, dim_idx = 0, container_name = [], container_value = Some p\<rparr>"


definition ex_loops_nest :: "Container list" where
  "ex_loops_nest = [ex_for_container 1 ''f.s0.__outermost'', ex_for_container 0 ''f.s0.x'']"

definition ex_nest :: "Container list" where
  "ex_nest = ex_loops_nest @ [ex_if_container ex_impure_pred, ex_if_container ex_pure_pred]"



definition ex_level :: "string \<Rightarrow> string \<Rightarrow> LoopLevel" where
  "ex_level f v = \<lparr>level_func = f, level_var = v\<rparr>"

definition ex_placed :: "LoopLevel \<Rightarrow> LoopLevel \<Rightarrow> Function" where
  "ex_placed st co =
     ex_function ''f''
       (ex_definition True
          ((ex_schedule [''x''] LoopLevel_inline [])\<lparr>store_level := st, compute_level := co\<rparr>)) []"

definition ex_env :: Env where
  "ex_env = [(''g'', ex_g), (''f'', ex_f)]"

definition ex_loop :: "string \<Rightarrow> ForType \<Rightarrow> Stmt \<Rightarrow> Stmt" where
  "ex_loop n ft body = For n (var32 (n @ ''.loop_min'')) (var32 (n @ ''.loop_extent'')) ft
                         DeviceAPI_None body"

definition ex_root :: "Stmt \<Rightarrow> Stmt" where
  "ex_root body = For ''.__root'' (IntImm 0) (IntImm 1) Serial DeviceAPI_Host body"

definition ex_consumer :: Stmt where
  "ex_consumer = Provide ''g'' [Call (Int_t 32) ''f'' [var32 ''g.s0.x''] Halide] [var32 ''g.s0.x'']"

definition ex_parallel_stmt :: Stmt where
  "ex_parallel_stmt = ex_root (ex_loop ''g.s0.y'' Parallel (ex_loop ''g.s0.x'' Serial ex_consumer))"

definition ex_site :: "bool \<Rightarrow> LoopLevel \<Rightarrow> Site" where
  "ex_site par l = \<lparr>is_parallel = par, loop_level = l\<rparr>"

definition ex_reordered_stmt :: Stmt where
  "ex_reordered_stmt =
     ex_root (Block (ex_loop ''g.s0.y'' Serial (ex_loop ''g.s0.x'' Serial ex_consumer))
                    (ex_loop ''g.s1.x'' Serial (ex_loop ''g.s1.y'' Serial ex_consumer)))"

definition ex_stack_yx :: "Site list" where
  "ex_stack_yx = [ex_site False LoopLevel_root, ex_site False (ex_level ''g'' ''y''),
                  ex_site False (ex_level ''g'' ''x'')]"

definition ex_stack_xy :: "Site list" where
  "ex_stack_xy = [ex_site False LoopLevel_root, ex_site False (ex_level ''g'' ''x''),
                  ex_site False (ex_level ''g'' ''y'')]"



text \<open>A pair that fuses \<open>g.s0\<close> into \<open>f.s0\<close> at \<open>y\<close>, and the loop over \<open>y\<close> of the child.\<close>

definition ex_pair :: FusedPair where
  "ex_pair = \<lparr>func_1 = ''f'', stage_1 = 0, func_2 = ''g'', stage_2 = 0, var_name = ''y''\<rparr>"

text \<open>
  A function \<open>g\<close> whose update stage is fused into its initial stage at \<open>x\<close>, the loop
  nest of \<open>g\<close> with the renamed loops of the update stage, and a function \<open>f\<close> stored
  at \<open>(g, x)\<close> and computed at \<open>(g, y)\<close>.
\<close>

definition ex_self_fused_g :: Function where
  "ex_self_fused_g =
     ex_function ''g''
       (ex_definition True
          (ex_schedule [''x'', ''y''] LoopLevel_inline
             [\<lparr>func_1 = ''g'', stage_1 = 0, func_2 = ''g'', stage_2 = 1, var_name = ''x''\<rparr>]))
       [ex_definition False (ex_schedule [''x'', ''y''] (ex_level ''g'' ''x'') [])]"

definition ex_self_fused_env :: Env where
  "ex_self_fused_env =
     [(''g'', ex_self_fused_g),
      (''f'', ex_placed (ex_level ''g'' ''x'') (ex_level ''g'' ''y''))]"

definition ex_self_fused_stmt :: Stmt where
  "ex_self_fused_stmt =
     ex_root
       (ex_loop ''g.s0.__outermost'' Serial
          (ex_loop ''g.s0.y'' Serial
             (ex_loop ''g.s0.x'' Serial
                (Block (Provide ''g'' [IntImm 0] [var32 ''g.s0.x'', var32 ''g.s0.y''])
                   (ex_loop ''g.s1.__outermost'' Serial
                      (ex_loop ''g.s1.fused.y'' Serial
                         (ex_loop ''g.s1.fused.x'' Serial ex_consumer)))))))"

definition ex_self_fused_sites :: "Site list" where
  "ex_self_fused_sites =
     [ex_site False LoopLevel_root, ex_site False (ex_level ''g'' ''__outermost''),
      ex_site False (ex_level ''g'' ''y''), ex_site False (ex_level ''g'' ''x''),
      ex_site False (ex_level ''g'' ''__outermost''),
      ex_site False (ex_level ''g'' ''y''), ex_site False (ex_level ''g'' ''x'')]"

definition ex_misplaced :: Function where
  "ex_misplaced = ex_placed (ex_level ''g'' ''x'') (ex_level ''g'' ''y'')"

text \<open>
  A group of two functions: the initial stage of \<open>g\<close> is fused into that of \<open>f\<close> at
  \<open>y\<close>, and its loop over \<open>y\<close> is parallel. Both are called by the consumer. The result
  of the pipeline build for the group.
\<close>

definition ex_parent_f :: Function where
  "ex_parent_f =
     (ex_function ''f''
        (ex_definition True
           (ex_schedule [''x'', ''y''] LoopLevel_inline
              [\<lparr>func_1 = ''f'', stage_1 = 0, func_2 = ''g'', stage_2 = 0, var_name = ''y''\<rparr>])) [])
     \<lparr>func_args := [''x'', ''y'']\<rparr>"

definition ex_child_g :: Function where
  "ex_child_g =
     (ex_function ''g''
        (ex_definition True
           ((ex_schedule [''x'', ''y''] (ex_level ''f'' ''y'') [])
              \<lparr>dims := [ex_dim ''x'', (ex_dim ''y'')\<lparr>for_type := Parallel\<rparr>,
                         ex_dim ''__outermost'']\<rparr>)) [])
     \<lparr>func_args := [''x'', ''y'']\<rparr>"

definition ex_group_env :: Env where
  "ex_group_env = [(''f'', ex_parent_f), (''g'', ex_child_g)]"

definition ex_group :: "(Function \<times> bool) list" where
  "ex_group = [(ex_parent_f, False), (ex_child_g, False)]"

definition ex_group_consumer :: Stmt where
  "ex_group_consumer =
     Provide ''h'' [Call (Int_t 32) ''f'' [var32 ''h.s0.x''] Halide,
                    Call (Int_t 32) ''g'' [var32 ''h.s0.x''] Halide] [var32 ''h.s0.x'']"

definition ex_bound_lets :: "string \<Rightarrow> (string \<times> Expr) list" where
  "ex_bound_lets p =
     [(p @ ''.y.loop_max'', var32 (p @ ''.y.max'')),
      (p @ ''.y.loop_min'', var32 (p @ ''.y.min'')),
      (p @ ''.y.loop_extent'',
         Bin Sub (Bin Add (var32 (p @ ''.y.max'')) (IntImm 1)) (var32 (p @ ''.y.min''))),
      (p @ ''.x.loop_max'', var32 (p @ ''.x.max'')),
      (p @ ''.x.loop_min'', var32 (p @ ''.x.min'')),
      (p @ ''.x.loop_extent'',
         Bin Sub (Bin Add (var32 (p @ ''.x.max'')) (IntImm 1)) (var32 (p @ ''.x.min''))),
      (p @ ''.__outermost.loop_extent'', IntImm 1),
      (p @ ''.__outermost.loop_max'', IntImm 0),
      (p @ ''.__outermost.loop_min'', IntImm 0)]"

definition ex_guarded :: "string \<Rightarrow> string \<Rightarrow> string \<Rightarrow> Stmt" where
  "ex_guarded fn v b =
     IfThenElse (likely (Bin LE (var32 v) (var32 (b @ ''.loop_max''))))
       (IfThenElse (likely (Bin LE (var32 (b @ ''.loop_min'')) (var32 v)))
          (Provide fn [IntImm 0] [var32 ''x'']) None) None"

definition ex_union_min :: Expr where
  "ex_union_min = Bin Min_op (var32 ''f.s0.y.min'') (var32 ''g.s0.y.min'')"

definition ex_union_max :: Expr where
  "ex_union_max = Bin Max_op (var32 ''f.s0.y.max'') (var32 ''g.s0.y.max'')"

definition ex_child_nest :: Stmt where
  "ex_child_nest =
     ex_loop ''g.s0.__outermost'' Serial
       (reinstate_lets
          [(''g.s0.fused.y.loop_extent'', IntImm 1),
           (''g.s0.fused.y.loop_max'',
              Bin Sub (Bin Add (var32 ''f.s0.fused.y'') (IntImm 1)) (IntImm 1)),
           (''g.s0.fused.y.loop_min'', var32 ''f.s0.fused.y'')]
          (ex_loop ''g.s0.fused.y'' Serial
             (ex_loop ''g.s0.x'' Serial (ex_guarded ''g'' ''g.s0.fused.y'' ''g.s0.y''))))"

definition ex_parent_nest :: Stmt where
  "ex_parent_nest =
     ex_loop ''f.s0.__outermost'' Serial
       (reinstate_lets
          [(''f.s0.fused.y.loop_extent'',
              Bin Sub (Bin Add ex_union_max (IntImm 1)) ex_union_min),
           (''f.s0.fused.y.loop_max'',
              Bin Sub
                (Bin Add ex_union_min (Bin Sub (Bin Add ex_union_max (IntImm 1)) ex_union_min))
                (IntImm 1)),
           (''f.s0.fused.y.loop_min'', ex_union_min)]
          (ex_loop ''f.s0.fused.y'' Serial
             (Block (ex_loop ''f.s0.x'' Serial (ex_guarded ''f'' ''f.s0.fused.y'' ''f.s0.y''))
                ex_child_nest)))"

definition ex_group_result :: Stmt where
  "ex_group_result =
     Block
       (ProducerConsumer ''f'' True
          (ProducerConsumer ''g'' True
             (reinstate_lets (ex_bound_lets ''f.s0'' @ ex_bound_lets ''g.s0'') ex_parent_nest)))
       (ProducerConsumer ''f'' False (ProducerConsumer ''g'' False ex_group_consumer))"

section \<open>Properties of the use test\<close>

lemma fold_flag:
  assumes "\<And>x r. x \<in> set xs \<Longrightarrow> f x r = (r \<or> P x)"
  shows "fold f xs r = (r \<or> (\<exists>x \<in> set xs. P x))"
  using assms by (induction xs arbitrary: r) auto

lemma IsUsedInStmt_expr_eq:
  "IsUsedInStmt_expr func e r = (r \<or> uses_expr func e)"
proof (induction e arbitrary: r)
  case (Call t n args ct)
  have "fold (IsUsedInStmt_expr func) args r = (r \<or> (\<exists>x \<in> set args. uses_expr func x))"
    by (rule fold_flag) (simp add: Call.IH)
  then show ?case by (auto simp: uses_expr_def Let_def)
qed (auto simp: uses_expr_def)

lemma fold_IsUsedInStmt_expr:
  "fold (IsUsedInStmt_expr func) es r = (r \<or> (\<exists>e \<in> set es. uses_expr func e))"
  by (rule fold_flag) (simp add: IsUsedInStmt_expr_eq)

lemma fold_bounds_used:
  "fold (\<lambda>(mn, ext) r. IsUsedInStmt_expr func ext (IsUsedInStmt_expr func mn r)) bnds r
     = (r \<or> (\<exists>p \<in> set bnds. uses_expr func (fst p) \<or> uses_expr func (snd p)))"
  by (rule fold_flag) (auto simp: IsUsedInStmt_expr_eq)

lemma IsUsedInStmt_stmt_eq:
  "IsUsedInStmt_stmt func s r = (r \<or> (\<exists>e \<in> set (exprs_of_stmt s). uses_expr func e))"
proof (induction s arbitrary: r)
  case (Realize n ts bnds c body)
  show ?case
    apply (simp only: IsUsedInStmt_stmt.simps fold_bounds_used)
    apply (simp only: Realize.IH IsUsedInStmt_expr_eq exprs_of_stmt.simps)
    apply (auto simp: image_iff)
    done
qed (auto simp: IsUsedInStmt_expr_eq fold_IsUsedInStmt_expr Let_def split: option.splits)

lemma used_char:
  "function_is_used_in_stmt func s \<longleftrightarrow>
     (func \<in> call_names_stmt s \<or>
      (\<exists>(t, n) \<in> variables_stmt s.
          is_handle t \<and> starts_with n (func @ ''.'') \<and> ends_with n ''.buffer''))"
  unfolding function_is_used_in_stmt_def IsUsedInStmt_stmt_eq call_names_stmt_def variables_stmt_def
  by (auto simp: uses_expr_def names_buffer_of_def)

section \<open>Properties of the explicit-bound assertions\<close>

lemma explicit_bound_step_eq:
  "explicit_bound_step fname stage b body =
     foldr Block (case bound_extent b of None \<Rightarrow> []
                  | Some e \<Rightarrow> [bound_assert fname stage (bound_var b) (bound_min b) e]) body"
  by (simp add: explicit_bound_step_def bound_assert_def Let_def split: option.splits)

lemma fold_prepend:
  assumes "\<And>x body. f x body = foldr Block (rev (g x)) body"
  shows "fold f xs body = foldr Block (rev (concat (map g xs))) body"
  by (induction xs arbitrary: body) (simp_all add: assms)

lemma fold_stage_bounds:
  "fold (explicit_bound_step fname stage) bs body =
     foldr Block (rev (stage_bound_asserts fname bs stage)) body"
  unfolding stage_bound_asserts_def
  by (rule fold_prepend) (simp add: explicit_bound_step_eq split: option.splits)

lemma fold_stages:
  "fold (\<lambda>stage. fold (explicit_bound_step fname stage) bs) stages body =
     foldr Block (rev (concat (map (stage_bound_asserts fname bs) stages))) body"
  by (rule fold_prepend) (rule fold_stage_bounds)

lemma inject_explicit_bounds_eq:
  "inject_explicit_bounds body func = foldr Block (rev (explicit_bound_asserts func)) body"
proof -
  have "inject_explicit_bounds body func =
        fold (\<lambda>stage. fold (explicit_bound_step (func_name func) stage)
                            (bounds (func_schedule func)))
          [0 ..< length (func_updates func) + 1] body"
    unfolding inject_explicit_bounds_def ..
  also have "\<dots> = foldr Block (rev (explicit_bound_asserts func)) body"
    unfolding fold_stages explicit_bound_asserts_def by (simp only: Suc_eq_plus1)
  finally show ?thesis .
qed

text \<open>
  Claim C7. For every function, every stage index from 0 to the number of updates and
  every user bound of its schedule with a defined extent, the realization is preceded by
  an assertion whose condition is (user min <= inferred min) and (user min + extent - 1 >=
  inferred max) and whose message calls \<open>halide_error_explicit_bounds_too_small\<close>; a bound
  without an extent contributes no assertion, and with the NoAsserts feature nothing is
  asserted. The assertions are those of \<open>explicit_bound_asserts\<close>; the last one generated
  is the outermost.
\<close>

theorem explicit_bounds_asserted:
  "build_realize target func is_output s =
     (if NoAsserts target then (if is_output then s else realize_node func s)
      else foldr Block (rev (explicit_bound_asserts func))
             (if is_output then s else realize_node func s))"
  unfolding build_realize_def Let_def inject_explicit_bounds_eq realize_node_def
  by simp

section \<open>Use, realization and the decisions of the injectors\<close>

lemma IsRealizedInStmt_eq:
  "IsRealizedInStmt func s r = (r \<or> func \<in> realize_names s)"
  by (induction s arbitrary: r) (auto simp: Let_def split: option.splits)

lemma already_realized_char:
  "function_is_already_realized_in_stmt func s \<longleftrightarrow> func \<in> realize_names s"
  by (simp add: function_is_already_realized_in_stmt_def IsRealizedInStmt_eq)

lemma skip_map_notin:
  "n \<notin> (func_name \<circ> fst) ` set grp \<Longrightarrow> fold (skip_insert s) grp m n = m n"
  by (induction grp arbitrary: m) (auto simp: skip_insert_def)

lemma skip_map_distinct:
  "distinct (map (func_name \<circ> fst) grp) \<Longrightarrow> g \<in> set grp \<Longrightarrow>
     fold (skip_insert s) grp m (func_name (fst g)) = Some (skip_entry g s)"
proof (induction grp arbitrary: m)
  case Nil
  then show ?case by simp
next
  case (Cons a grp)
  show ?case
  proof (cases "g = a")
    case True
    with Cons.prems have notin: "func_name (fst g) \<notin> (func_name \<circ> fst) ` set grp" by auto
    have "fold (skip_insert s) (a # grp) m (func_name (fst g)) =
          fold (skip_insert s) grp (skip_insert s a m) (func_name (fst g))"
      by simp
    also have "\<dots> = skip_insert s a m (func_name (fst g))"
      by (rule skip_map_notin [OF notin])
    also have "\<dots> = Some (skip_entry g s)"
      using True by (simp add: skip_insert_def)
    finally show ?thesis .
  next
    case False
    with Cons show ?thesis by auto
  qed
qed

lemma names_buffer_of_no_handle [simp]: "\<not> names_buffer_of func (Int_t b) n"
  by (simp add: names_buffer_of_def is_handle_def)

text \<open>
  Claim C10, as amended. A function is used in a statement exactly when the statement
  contains a call of that name, or a variable of handle type whose name starts with the
  function's name and a dot and ends with \<open>.buffer\<close>. At a matching level, the
  single-function injector wraps a body in produce or realize nodes exactly when the
  function is not yet realized in the body and is used in it or is an output. A member of
  a fused group (with distinct names) is skipped exactly when it is neither used in the
  statement nor an output.
\<close>

theorem use_test_and_injection:
  "(function_is_used_in_stmt func s \<longleftrightarrow>
      (func \<in> call_names_stmt s \<or>
       (\<exists>(t, n) \<in> variables_stmt s.
           is_handle t \<and> starts_with n (func @ ''.'') \<and> ends_with n ''.buffer''))) \<and>
   inject_at_compute_level ext target f is_output body =
     (if func_name f \<notin> realize_names body \<and>
         (function_is_used_in_stmt (func_name f) body \<or> is_output)
      then build_pipeline ext target f body else Inr body) \<and>
   inject_at_store_level target f is_output body =
     (if func_name f \<notin> realize_names body \<and>
         (function_is_used_in_stmt (func_name f) body \<or> is_output)
      then build_realize target f is_output body else body) \<and>
   (distinct (map (func_name \<circ> fst) grp) \<longrightarrow> g \<in> set grp \<longrightarrow>
      skip_map grp s (func_name (fst g)) =
        Some (\<not> (function_is_used_in_stmt (func_name (fst g)) s \<or> snd g)))"
proof (intro conjI impI)
  show "function_is_used_in_stmt func s \<longleftrightarrow>
      (func \<in> call_names_stmt s \<or>
       (\<exists>(t, n) \<in> variables_stmt s.
           is_handle t \<and> starts_with n (func @ ''.'') \<and> ends_with n ''.buffer''))"
    by (rule used_char)
  show "inject_at_compute_level ext target f is_output body =
     (if func_name f \<notin> realize_names body \<and>
         (function_is_used_in_stmt (func_name f) body \<or> is_output)
      then build_pipeline ext target f body else Inr body)"
    by (simp add: inject_at_compute_level_def needs_injection_def already_realized_char)
  show "inject_at_store_level target f is_output body =
     (if func_name f \<notin> realize_names body \<and>
         (function_is_used_in_stmt (func_name f) body \<or> is_output)
      then build_realize target f is_output body else body)"
    by (simp add: inject_at_store_level_def needs_injection_def already_realized_char)
next
  assume "distinct (map (func_name \<circ> fst) grp)" and "g \<in> set grp"
  then show "skip_map grp s (func_name (fst g)) =
        Some (\<not> (function_is_used_in_stmt (func_name (fst g)) s \<or> snd g))"
    unfolding skip_map_def by (simp add: skip_map_distinct skip_entry_def)
qed

theorem use_test_and_injection_witness:
  "distinct (map (func_name \<circ> fst) [(ex_f, False), (ex_g, False)]) \<and>
   (ex_g, False) \<in> set [(ex_f, False), (ex_g, False)] \<and>
   function_is_used_in_stmt ''f'' ex_call_f \<and>
   inject_at_store_level ex_target ex_f False ex_call_f =
     build_realize ex_target ex_f False ex_call_f \<and>
   skip_map [(ex_f, False), (ex_g, False)] ex_call_f ''g'' = Some True"
  using use_test_and_injection [of "''f''" ex_call_f trivial_ext ex_target ex_f False ex_call_f
      "[(ex_f, False), (ex_g, False)]" "(ex_g, False)"]
        use_test_and_injection [of "''g''" ex_call_f trivial_ext ex_target ex_f False ex_call_f
      "[(ex_f, False), (ex_g, False)]" "(ex_g, False)"]
  by (simp add: ex_f_def ex_g_def ex_function_def ex_call_f_def function_is_used_in_stmt_def
        var32_def)

text \<open>
  The use test and the output flag do not decide alone: a function that is used in a body
  and already realized there is not wrapped again.
\<close>

theorem use_test_not_the_only_test:
  "function_is_used_in_stmt ''f'' ex_realized_f \<and>
   inject_at_compute_level trivial_ext ex_target ex_f False ex_realized_f = Inr ex_realized_f \<and>
   inject_at_store_level ex_target ex_f False ex_realized_f = ex_realized_f"
  by (simp add: ex_realized_f_def ex_call_f_def ex_f_def ex_function_def
        function_is_used_in_stmt_def function_is_already_realized_in_stmt_def
        inject_at_compute_level_def inject_at_store_level_def needs_injection_def
        var32_def const_true_def)

section \<open>The chain of specializations\<close>

lemma specialization_chain_append:
  "specialization_chain (xs @ ys) base = specialization_chain xs (specialization_chain ys base)"
  by (induction xs) simp_all

lemma specialized_copies_rev:
  "specialized_copies ext fname prefix sf pd upd (rev specs) stmt = Inr r \<longleftrightarrow>
     (\<exists>alts. length alts = length specs \<and>
        (\<forall>i < length specs.
            build_provide_loop_nest ext fname prefix sf pd (snd (specs ! i)) upd = Inr (alts ! i)) \<and>
        r = specialization_chain (zip (map fst specs) alts) stmt)"
proof (induction specs arbitrary: stmt r rule: rev_induct)
  case Nil
  show ?case by auto
next
  case (snoc x xs)
  show ?case
  proof (cases "build_provide_loop_nest ext fname prefix sf pd (snd x) upd")
    case (Inl e)
    have "\<not> (\<exists>alts. length alts = length (xs @ [x]) \<and>
        (\<forall>i < length (xs @ [x]).
            build_provide_loop_nest ext fname prefix sf pd (snd ((xs @ [x]) ! i)) upd
              = Inr (alts ! i)) \<and>
        r = specialization_chain (zip (map fst (xs @ [x])) alts) stmt)"
    proof
      assume "\<exists>alts. length alts = length (xs @ [x]) \<and>
        (\<forall>i < length (xs @ [x]).
            build_provide_loop_nest ext fname prefix sf pd (snd ((xs @ [x]) ! i)) upd
              = Inr (alts ! i)) \<and>
        r = specialization_chain (zip (map fst (xs @ [x])) alts) stmt"
      then obtain alts where
        "\<forall>i < length (xs @ [x]).
            build_provide_loop_nest ext fname prefix sf pd (snd ((xs @ [x]) ! i)) upd
              = Inr (alts ! i)"
        by blast
      from this [THEN spec, of "length xs"]
      have "build_provide_loop_nest ext fname prefix sf pd (snd x) upd = Inr (alts ! length xs)"
        by simp
      with Inl show False by simp
    qed
    with Inl show ?thesis by simp
  next
    case (Inr t)
    have step: "specialized_copies ext fname prefix sf pd upd (rev (xs @ [x])) stmt =
          specialized_copies ext fname prefix sf pd upd (rev xs)
            (IfThenElse (fst x) t (Some stmt))"
      using Inr by simp
    show ?thesis
    proof
      assume "specialized_copies ext fname prefix sf pd upd (rev (xs @ [x])) stmt = Inr r"
      with step snoc.IH obtain alts where alts: "length alts = length xs"
        "\<forall>i < length xs.
            build_provide_loop_nest ext fname prefix sf pd (snd (xs ! i)) upd = Inr (alts ! i)"
        "r = specialization_chain (zip (map fst xs) alts) (IfThenElse (fst x) t (Some stmt))"
        by auto
      have "length (alts @ [t]) = length (xs @ [x])" using alts(1) by simp
      moreover have "\<forall>i < length (xs @ [x]).
            build_provide_loop_nest ext fname prefix sf pd (snd ((xs @ [x]) ! i)) upd
              = Inr ((alts @ [t]) ! i)"
        using alts(1,2) Inr by (auto simp: nth_append less_Suc_eq)
      moreover have "r = specialization_chain (zip (map fst (xs @ [x])) (alts @ [t])) stmt"
        using alts(1,3) by (simp add: specialization_chain_append)
      ultimately show "\<exists>alts. length alts = length (xs @ [x]) \<and>
        (\<forall>i < length (xs @ [x]).
            build_provide_loop_nest ext fname prefix sf pd (snd ((xs @ [x]) ! i)) upd
              = Inr (alts ! i)) \<and>
        r = specialization_chain (zip (map fst (xs @ [x])) alts) stmt"
        by blast
    next
      assume "\<exists>alts. length alts = length (xs @ [x]) \<and>
        (\<forall>i < length (xs @ [x]).
            build_provide_loop_nest ext fname prefix sf pd (snd ((xs @ [x]) ! i)) upd
              = Inr (alts ! i)) \<and>
        r = specialization_chain (zip (map fst (xs @ [x])) alts) stmt"
      then obtain alts where alts: "length alts = length (xs @ [x])"
        "\<forall>i < length (xs @ [x]).
            build_provide_loop_nest ext fname prefix sf pd (snd ((xs @ [x]) ! i)) upd
              = Inr (alts ! i)"
        "r = specialization_chain (zip (map fst (xs @ [x])) alts) stmt"
        by blast
      from alts(1) obtain as a where as: "alts = as @ [a]" "length as = length xs"
        by (cases alts rule: rev_cases) auto
      from alts(2) [THEN spec, of "length xs"]
      have "build_provide_loop_nest ext fname prefix sf pd (snd x) upd = Inr (alts ! length xs)"
        by simp
      with as Inr have a: "a = t" by (simp add: nth_append)
      have "\<forall>i < length xs.
            build_provide_loop_nest ext fname prefix sf pd (snd (xs ! i)) upd = Inr (as ! i)"
      proof (intro allI impI)
        fix i assume i: "i < length xs"
        with alts(2) [THEN spec, of i]
        have "build_provide_loop_nest ext fname prefix sf pd
              (snd ((xs @ [x]) ! i)) upd = Inr (alts ! i)"
          by simp
        with i as show "build_provide_loop_nest ext fname prefix sf pd (snd (xs ! i)) upd
              = Inr (as ! i)"
          by (simp add: nth_append)
      qed
      moreover have "r = specialization_chain (zip (map fst xs) as)
                           (IfThenElse (fst x) t (Some stmt))"
        using alts(3) as a by (simp add: specialization_chain_append)
      ultimately have "specialized_copies ext fname prefix sf pd upd (rev xs)
            (IfThenElse (fst x) t (Some stmt)) = Inr r"
        using snoc.IH as(2) by blast
      with step show "specialized_copies ext fname prefix sf pd upd (rev (xs @ [x])) stmt = Inr r"
        by simp
    qed
  qed
qed

text \<open>
  Claim C5. For a definition with k specializations, \<open>build_provide_loop_nest\<close> succeeds
  exactly when the base loop nest and the loop nest of every specialization are built,
  and then returns the chain of exactly k IfThenElse nodes in which the condition of
  specialization 0 is the outermost test, each alternative is the loop nest of its
  specialization, and the base loop nest is the innermost fallthrough.
\<close>

theorem specializations_chained:
  "build_provide_loop_nest ext fname prefix sf pd d upd = Inr r \<longleftrightarrow>
     ((\<not> upd) = def_is_init d \<and>
      (\<exists>base alts.
         build_provide_loop_nest_helper ext fname prefix sf pd
           (map (qualify ext prefix) (def_args d)) (map (qualify ext prefix) (def_values d))
           (split_predicate d) (def_schedule d) upd = Inr base \<and>
         length alts = length (specializations d) \<and>
         (\<forall>i < length (specializations d).
            build_provide_loop_nest ext fname prefix sf pd (snd (specializations d ! i)) upd
              = Inr (alts ! i)) \<and>
         r = specialization_chain (zip (map fst (specializations d)) alts) base))"
proof (cases "(\<not> upd) = def_is_init d")
  case False
  then show ?thesis by (subst build_provide_loop_nest.simps) auto
next
  case True
  show ?thesis
  proof (cases "build_provide_loop_nest_helper ext fname prefix sf pd
           (map (qualify ext prefix) (def_args d)) (map (qualify ext prefix) (def_values d))
           (split_predicate d) (def_schedule d) upd")
    case (Inl e)
    with True show ?thesis by (subst build_provide_loop_nest.simps) (simp add: Let_def)
  next
    case (Inr base)
    with True show ?thesis
      by (subst build_provide_loop_nest.simps) (simp add: Let_def specialized_copies_rev)
  qed
qed

lemma ex_alt_built:
  "build_provide_loop_nest trivial_ext ''f'' ''f.s0.'' (- 1) [''x''] ex_spec_alt False
     = Inr ex_loop_nest"
  by code_simp

lemma ex_base_built:
  "build_provide_loop_nest_helper trivial_ext ''f'' ''f.s0.'' (- 1) [''x'']
     (map (qualify trivial_ext ''f.s0.'') (def_args ex_specialized))
     (map (qualify trivial_ext ''f.s0.'') (def_values ex_specialized))
     (split_predicate ex_specialized) (def_schedule ex_specialized) False
     = Inr ex_loop_nest"
  by code_simp

theorem specializations_chained_witness:
  "build_provide_loop_nest trivial_ext ''f'' ''f.s0.'' (- 1) [''x''] ex_specialized False =
     Inr (IfThenElse (Variable (UInt_t 1) ''p'') ex_loop_nest
            (Some (IfThenElse (Variable (UInt_t 1) ''q'') ex_loop_nest (Some ex_loop_nest))))"
proof -
  have alts: "\<forall>i < length (specializations ex_specialized).
      build_provide_loop_nest trivial_ext ''f'' ''f.s0.'' (- 1) [''x'']
        (snd (specializations ex_specialized ! i)) False = Inr ([ex_loop_nest, ex_loop_nest] ! i)"
    by (simp add: ex_specialized_def less_Suc_eq ex_alt_built)
  have "(\<not> False) = def_is_init ex_specialized"
    by (simp add: ex_specialized_def)
  moreover have "length [ex_loop_nest, ex_loop_nest] = length (specializations ex_specialized)"
    by (simp add: ex_specialized_def)
  moreover have "IfThenElse (Variable (UInt_t 1) ''p'') ex_loop_nest
            (Some (IfThenElse (Variable (UInt_t 1) ''q'') ex_loop_nest (Some ex_loop_nest)))
       = specialization_chain
           (zip (map fst (specializations ex_specialized)) [ex_loop_nest, ex_loop_nest])
           ex_loop_nest"
    by (simp add: ex_specialized_def)
  ultimately show ?thesis
    using specializations_chained [THEN iffD2, of False ex_specialized] ex_base_built alts by blast
qed

section \<open>Sorting of the containers\<close>












lemma ex_nest_built:
  "build_nest ''f.s0.'' (map ex_dim [''x'', ''__outermost''])
     \<lparr>substitutions = [], let_stmts = [], predicates = []\<rparr> []
     [ex_impure_pred, ex_pure_pred] = ex_nest"
  by code_simp







section \<open>Removal of the outermost loops\<close>





lemma ex_loop_nest_removed:
  "RemoveLoopsOverOutermost trivial_ext ex_loop_nest =
     reinstate_lets
       [(''f.s0.x.loop_max'', var32 ''f.s0.x.max''),
        (''f.s0.x.loop_min'', var32 ''f.s0.x.min''),
        (''f.s0.x.loop_extent'',
           Bin Sub (Bin Add (var32 ''f.s0.x.max'') (IntImm 1)) (var32 ''f.s0.x.min''))]
       (For ''f.s0.x'' (var32 ''f.s0.x.loop_min'') (var32 ''f.s0.x.loop_extent'') Serial
          DeviceAPI_None (Provide ''f'' [IntImm 0] [var32 ''x'']))"
  by code_simp



section \<open>Validation of the placement\<close>

lemma sites_upto_Suc:
  "sites_upto sites level (Suc k) =
     sites_upto sites level k @
       (if match_level (loop_level (sites ! k)) level then [k] else [])"
  by (simp add: sites_upto_def)

lemma sites_upto_less: "i \<in> set (sites_upto sites level k) \<Longrightarrow> i < k"
  by (simp add: sites_upto_def)

lemma sites_upto_last_less:
  "sites_upto sites level k \<noteq> [] \<Longrightarrow> last (sites_upto sites level k) < k"
  using sites_upto_less last_in_set by blast

lemma sites_upto_hd_less:
  "sites_upto sites level k \<noteq> [] \<Longrightarrow> hd (sites_upto sites level k) < k"
  using sites_upto_less hd_in_set by blast

lemma placement_step_upto:
  "placement_step sites store_at compute_at k (placement_upto sites store_at compute_at k) =
     placement_upto sites store_at compute_at (Suc k)"
proof -
  let ?ss = "sites_upto sites store_at k" and ?cs = "sites_upto sites compute_at k"
  have s: "?ss \<noteq> [] \<Longrightarrow> hd ?ss < k" and c: "?cs \<noteq> [] \<Longrightarrow> last ?cs < k"
    by (rule sites_upto_hd_less, assumption) (rule sites_upto_last_less, assumption)
  show ?thesis
  proof (cases "match_level (loop_level (sites ! k)) store_at")
    case st: True
    show ?thesis
    proof (cases "match_level (loop_level (sites ! k)) compute_at")
      case True
      with st s show ?thesis
        by (cases "?ss = []")
           (auto simp: placement_step_def placement_upto_def sites_upto_Suc Let_def)
    next
      case False
      with st s c show ?thesis
        by (cases "?ss = []"; cases "?cs = []")
           (auto simp: placement_step_def placement_upto_def sites_upto_Suc Let_def)
    qed
  next
    case st: False
    show ?thesis
    proof (cases "match_level (loop_level (sites ! k)) compute_at")
      case True
      with st s show ?thesis
        by (cases "?ss = []")
           (auto simp: placement_step_def placement_upto_def sites_upto_Suc Let_def)
    next
      case False
      with st show ?thesis
        by (auto simp: placement_step_def placement_upto_def sites_upto_Suc Let_def)
    qed
  qed
qed

lemma fold_placement_upto:
  "fold (placement_step sites store_at compute_at) [0 ..< k]
      \<lparr>store_at_ok = False, compute_at_ok = False, store_idx = 0, compute_idx = 0\<rparr> =
     placement_upto sites store_at compute_at k"
proof (induction k)
  case 0
  show ?case by (simp add: placement_upto_def sites_upto_def)
next
  case (Suc k)
  show ?case by (simp add: Suc placement_step_upto)
qed

lemma find_placement_eq:
  "find_placement sites store_at compute_at =
     placement_upto sites store_at compute_at (length sites)"
  by (simp add: find_placement_def fold_placement_upto)

lemma fold_race_step:
  "fold (race_step sites) idxs p =
     (if list_ex (\<lambda>i. is_parallel (sites ! i)) idxs
      then p\<lparr>store_at_ok := False, compute_at_ok := False\<rparr> else p)"
  by (induction idxs arbitrary: p) (auto simp: race_step_def)

lemma check_placement_eq:
  "check_placement sites store_at compute_at =
     (if placement_error sites store_at compute_at then Inl UserError else Inr ())"
proof -
  have up: "sites_upto sites store_at (length sites) = matching_sites sites store_at"
    "sites_upto sites compute_at (length sites) = matching_sites sites compute_at"
    by (simp_all add: sites_upto_def matching_sites_def)
  show ?thesis
    unfolding check_placement_def find_placement_eq fold_race_step placement_error_def
    by (auto simp: placement_upto_def up Let_def)
qed

text \<open>
  What the validation of a placement computes. For a function that is neither an output
  nor inline it is a user error when the store level or the compute level matches no legal
  site, when no site of the store level lies at or outside the innermost site of the
  compute level, or when a site after the innermost site of the store level, up to and
  including the innermost site of the compute level, is Parallel or Vectorized. When each
  level matches exactly one site, this is: an error when the compute site comes before the
  store site or a site strictly after the store site, up to and including the compute
  site, is parallel.
\<close>

lemma placement_checked:
  "(\<not> is_output \<and>
    \<not> (is_inline (store_level (func_schedule f)) \<and> is_inline (compute_level (func_schedule f))) \<and>
    legal_sites env (func_name f) s = Inr sites \<longrightarrow>
      validate_placement env f s is_output =
        (if placement_error sites (store_level (func_schedule f)) (compute_level (func_schedule f))
         then Inl UserError else Inr ())) \<and>
   (matching_sites sites store_at = [si] \<and> matching_sites sites compute_at = [ci] \<longrightarrow>
      placement_error sites store_at compute_at =
        (ci < si \<or> (\<exists>i. si < i \<and> i \<le> ci \<and> is_parallel (sites ! i))))"
proof (intro conjI impI)
  assume "\<not> is_output \<and>
    \<not> (is_inline (store_level (func_schedule f)) \<and> is_inline (compute_level (func_schedule f))) \<and>
    legal_sites env (func_name f) s = Inr sites"
  then show "validate_placement env f s is_output =
        (if placement_error sites (store_level (func_schedule f)) (compute_level (func_schedule f))
         then Inl UserError else Inr ())"
    by (auto simp: validate_placement_def check_placement_eq Let_def)
next
  assume m: "matching_sites sites store_at = [si] \<and> matching_sites sites compute_at = [ci]"
  have "list_ex (\<lambda>i. is_parallel (sites ! i)) [si + 1 ..< ci + 1] \<longleftrightarrow>
        (\<exists>i. si < i \<and> i \<le> ci \<and> is_parallel (sites ! i))"
    unfolding list_ex_iff
    by (metis Suc_eq_plus1 Suc_le_eq atLeastLessThan_iff less_Suc_eq_le set_upt)
  with m show "placement_error sites store_at compute_at =
        (ci < si \<or> (\<exists>i. si < i \<and> i \<le> ci \<and> is_parallel (sites ! i)))"
    by (auto simp: placement_error_def)
qed

lemma ex_parallel_sites:
  "legal_sites ex_env ''f'' ex_parallel_stmt =
     Inr [ex_site False LoopLevel_root, ex_site True (ex_level ''g'' ''y''),
          ex_site False (ex_level ''g'' ''x'')]"
  by code_simp

lemma ex_parallel_error:
  "placement_error
     [ex_site False LoopLevel_root, ex_site True (ex_level ''g'' ''y''),
      ex_site False (ex_level ''g'' ''x'')] LoopLevel_root (ex_level ''g'' ''x'')"
  by code_simp

lemma ex_parallel_ok:
  "\<not> placement_error
     [ex_site False LoopLevel_root, ex_site True (ex_level ''g'' ''y''),
      ex_site False (ex_level ''g'' ''x'')] (ex_level ''g'' ''y'') (ex_level ''g'' ''x'')"
  by code_simp

lemma placement_checked_instance:
  "legal_sites ex_env (func_name (ex_placed LoopLevel_root (ex_level ''g'' ''x''))) ex_parallel_stmt =
     Inr [ex_site False LoopLevel_root, ex_site True (ex_level ''g'' ''y''),
          ex_site False (ex_level ''g'' ''x'')] \<and>
   validate_placement ex_env (ex_placed LoopLevel_root (ex_level ''g'' ''x''))
     ex_parallel_stmt False = Inl UserError \<and>
   validate_placement ex_env (ex_placed (ex_level ''g'' ''y'') (ex_level ''g'' ''x''))
     ex_parallel_stmt False = Inr ()"
proof -
  have n: "func_name (ex_placed st co) = ''f''" for st co
    by (simp add: ex_placed_def ex_function_def)
  have l: "store_level (func_schedule (ex_placed st co)) = st"
    "compute_level (func_schedule (ex_placed st co)) = co" for st co
    by (simp_all add: ex_placed_def ex_function_def func_schedule_def ex_definition_def)
  have i: "\<not> is_inline (ex_level ''g'' ''x'')"
    by (simp add: is_inline_def ex_level_def)
  show ?thesis
    using placement_checked [of False "ex_placed LoopLevel_root (ex_level ''g'' ''x'')" ex_env ex_parallel_stmt
               "[ex_site False LoopLevel_root, ex_site True (ex_level ''g'' ''y''),
                 ex_site False (ex_level ''g'' ''x'')]"]
          placement_checked [of False "ex_placed (ex_level ''g'' ''y'') (ex_level ''g'' ''x'')" ex_env
               ex_parallel_stmt
               "[ex_site False LoopLevel_root, ex_site True (ex_level ''g'' ''y''),
                 ex_site False (ex_level ''g'' ''x'')]"]
          ex_parallel_sites ex_parallel_error ex_parallel_ok
    by (simp add: n l i)
qed

section \<open>The legality analyzer\<close>

lemma fold_register_replicate_add:
  "fold register_use (replicate (m + n) sites) st =
     fold register_use (replicate n sites) (fold register_use (replicate m sites) st)"
  by (simp add: replicate_add)

lemma legal_expr:
  "ComputeLegalSchedules_expr func sites e st =
     fold register_use (replicate (use_count func e) sites) st"
proof (induction e arbitrary: st)
  case (Call t n args ct)
  have "fold (ComputeLegalSchedules_expr func sites) args st =
        fold register_use (replicate (sum_list (map (use_count func) args)) sites) st"
    using Call.IH
  proof (induction args arbitrary: st)
    case Nil
    show ?case by simp
  next
    case (Cons a args)
    then show ?case by (simp add: replicate_add)
  qed
  then show ?case by (simp add: Let_def replicate_add)
qed (simp_all add: replicate_add)

lemma legal_exprs:
  "fold (ComputeLegalSchedules_expr func sites) es st =
     fold register_use (replicate (use_counts func es) sites) st"
  unfolding use_counts_def
  by (induction es arbitrary: st) (simp_all add: legal_expr replicate_add)

lemma legal_bounds:
  "fold (\<lambda>b s. ComputeLegalSchedules_expr func sites (snd b)
                  (ComputeLegalSchedules_expr func sites (fst b) s)) bnds st =
     fold register_use
       (replicate (use_counts func (concat (map (\<lambda>b. [fst b, snd b]) bnds))) sites) st"
  unfolding use_counts_def
  by (induction bnds arbitrary: st) (simp_all add: legal_expr replicate_add)

lemma legal_stmt:
  "ComputeLegalSchedules env func sites s st =
     (case use_stacks env func sites s of
        Inl e \<Rightarrow> Inl e
      | Inr stacks \<Rightarrow> Inr (fold register_use stacks st))"
proof (induction s arbitrary: sites st)
  case (Realize n ts bnds c body)
  show ?case
    apply (simp only: ComputeLegalSchedules.simps legal_bounds use_stacks.simps)
    apply (simp add: Realize.IH legal_expr use_counts_def replicate_add split: sum.splits)
    done
qed (auto simp: legal_expr legal_exprs use_counts_def replicate_add Let_def
       split: sum.splits option.splits)

lemma ends_with_dot:
  assumes "ends_with v (''.'' @ w)"
  shows "CHR ''.'' \<in> set v"
proof -
  from assms have "drop (length v - length (''.'' @ w)) v = ''.'' @ w"
    by (simp add: ends_with_def)
  then have "CHR ''.'' \<in> set (drop (length v - length (''.'' @ w)) v)"
    by simp
  then show ?thesis by (rule in_set_dropD)
qed

lemma match_plain:
  assumes "plain_level l1" and "plain_level l2"
  shows "match_level l1 l2 \<longleftrightarrow> level_func l1 = level_func l2 \<and> level_var l1 = level_var l2"
  using assms ends_with_dot unfolding match_level_def plain_level_def by blast

lemma loop_level_of_plain:
  assumes "loop_level_of env n = Inr l"
  shows "plain_level l"
proof -
  have "CHR ''.'' \<notin> set (rev (takeWhile (\<lambda>c. c \<noteq> CHR ''.'') (rev n)))"
    by (auto dest: set_takeWhileD)
  with assms show ?thesis
    by (auto simp: loop_level_of_def plain_level_def LoopLevel_root_def Let_def
          split: if_splits option.splits)
qed

lemma plain_replicate:
  "plain_stack sites \<Longrightarrow> \<forall>st \<in> set inner. plain_stack st \<Longrightarrow>
     \<forall>st \<in> set (replicate k sites @ inner). plain_stack st"
  by (auto simp: in_set_replicate)

lemma use_stacks_plain:
  "plain_stack sites \<Longrightarrow> use_stacks env func sites s = Inr stacks \<Longrightarrow>
     \<forall>st \<in> set stacks. plain_stack st"
proof (induction s arbitrary: sites stacks)
  case (For n mn extent ft dev body)
  show ?case
  proof (cases "loop_level_of env n")
    case (Inl e)
    with For.prems(2) show ?thesis by simp
  next
    case l: (Inr level)
    let ?sites = "sites @ [\<lparr>is_parallel = (ft = Parallel \<or> ft = Vectorized), loop_level = level\<rparr>]"
    have pl: "plain_stack ?sites"
      using For.prems(1) loop_level_of_plain [OF l] by (simp add: plain_stack_def)
    show ?thesis
    proof (cases "use_stacks env func ?sites body")
      case (Inl e)
      with l For.prems(2) show ?thesis by simp
    next
      case (Inr inner)
      with l For.prems(2)
      have st: "stacks = replicate (use_counts func [mn, extent]) sites @ inner" by simp
      from For.IH [OF pl Inr] show ?thesis
        unfolding st by (intro plain_replicate [OF For.prems(1)]) simp_all
    qed
  qed
next
  case (LetStmt n v body)
  show ?case
  proof (cases "use_stacks env func sites body")
    case (Inl e)
    with LetStmt.prems(2) show ?thesis by simp
  next
    case (Inr inner)
    with LetStmt.prems(2) have st: "stacks = replicate (use_count func v) sites @ inner" by simp
    from LetStmt.IH [OF LetStmt.prems(1) Inr] show ?thesis
      unfolding st by (intro plain_replicate [OF LetStmt.prems(1)]) simp_all
  qed
next
  case (IfThenElse c t e)
  show ?case
  proof (cases "use_stacks env func sites t")
    case (Inl err)
    with IfThenElse.prems(2) show ?thesis by simp
  next
    case t: (Inr st)
    note pt = IfThenElse.IH(1) [OF IfThenElse.prems(1) t]
    show ?thesis
    proof (cases e)
      case None
      with t IfThenElse.prems(2) have s: "stacks = replicate (use_count func c) sites @ st"
        by simp
      from pt show ?thesis
        unfolding s by (intro plain_replicate [OF IfThenElse.prems(1)]) simp_all
    next
      case (Some e')
      show ?thesis
      proof (cases "use_stacks env func sites e'")
        case (Inl err)
        with t Some IfThenElse.prems(2) show ?thesis by simp
      next
        case (Inr se)
        with t Some IfThenElse.prems(2)
        have s: "stacks = replicate (use_count func c) sites @ (st @ se)" by simp
        have "e' \<in> set_option e" using Some by simp
        from IfThenElse.IH(2) [OF this IfThenElse.prems(1) Inr] pt
        have "\<forall>x \<in> set (st @ se). plain_stack x" by auto
        then show ?thesis
          unfolding s by (intro plain_replicate [OF IfThenElse.prems(1)]) simp_all
      qed
    qed
  qed
next
  case (Block a b)
  show ?case
  proof (cases "use_stacks env func sites a")
    case (Inl e)
    with Block.prems(2) show ?thesis by simp
  next
    case sa: (Inr sa)
    show ?thesis
    proof (cases "use_stacks env func sites b")
      case (Inl e)
      with sa Block.prems(2) show ?thesis by simp
    next
      case (Inr sb)
      with sa Block.prems(2) have s: "stacks = sa @ sb" by simp
      from Block.IH(1) [OF Block.prems(1) sa] Block.IH(2) [OF Block.prems(1) Inr]
      show ?thesis unfolding s by auto
    qed
  qed
next
  case (Provide n vals args)
  from Provide.prems(2) have s: "stacks = replicate (use_counts func (vals @ args)) sites @ []"
    by simp
  show ?case unfolding s by (intro plain_replicate [OF Provide.prems(1)]) simp_all
next
  case (Realize n ts bnds c body)
  show ?case
  proof (cases "use_stacks env func sites body")
    case (Inl e)
    with Realize.prems(2) show ?thesis by simp
  next
    case (Inr inner)
    with Realize.prems(2)
    have st: "stacks =
        replicate (use_counts func (concat (map (\<lambda>b. [fst b, snd b]) bnds) @ [c])) sites @ inner"
      by simp
    from Realize.IH [OF Realize.prems(1) Inr] show ?thesis
      unfolding st by (intro plain_replicate [OF Realize.prems(1)]) simp_all
  qed
next
  case (ProducerConsumer n p body)
  from ProducerConsumer.prems(2) have "use_stacks env func sites body = Inr stacks" by simp
  from ProducerConsumer.IH [OF ProducerConsumer.prems(1) this] show ?case .
next
  case (AssertStmt c m)
  from AssertStmt.prems(2) have s: "stacks = replicate (use_counts func [c, m]) sites @ []"
    by simp
  show ?case unfolding s by (intro plain_replicate [OF AssertStmt.prems(1)]) simp_all
next
  case (Evaluate v)
  from Evaluate.prems(2) have s: "stacks = replicate (use_count func v) sites @ []"
    by simp
  show ?case unfolding s by (intro plain_replicate [OF Evaluate.prems(1)]) simp_all
qed

lemma fold_register_use_snoc:
  "fold register_use (stacks @ [s]) st = register_use s (fold register_use stacks st)"
  by simp

lemma fold_register_use_plain:
  assumes "\<forall>st \<in> set stacks. plain_stack st"
  shows "fold register_use stacks \<lparr>found = False, sites_allowed = []\<rparr> =
           \<lparr>found = (stacks \<noteq> []), sites_allowed = allowed_by stacks\<rparr>"
  using assms
proof (induction stacks rule: rev_induct)
  case Nil
  show ?case by (simp add: allowed_by_def)
next
  case (snoc s stacks)
  from snoc.prems have pl: "\<forall>st \<in> set stacks. plain_stack st" and ps: "plain_stack s"
    by simp_all
  note IH = snoc.IH [OF pl]
  show ?case
  proof (cases "stacks = []")
    case True
    then show ?thesis by (simp add: register_use_def allowed_by_def)
  next
    case False
    have plast: "plain_stack (last stacks)"
      using pl False by simp
    have eq: "list_ex (\<lambda>s2. match_level (loop_level s1) (loop_level s2)) (allowed_by stacks)
          \<longleftrightarrow> (\<forall>st \<in> set stacks. \<exists>s2 \<in> set st. match_level (loop_level s1) (loop_level s2))"
      if s1: "s1 \<in> set s" for s1
    proof
      assume "list_ex (\<lambda>s2. match_level (loop_level s1) (loop_level s2)) (allowed_by stacks)"
      then obtain s2 where s2: "s2 \<in> set (last stacks)"
        "\<forall>st \<in> set (butlast stacks). \<exists>s3 \<in> set st. match_level (loop_level s2) (loop_level s3)"
        "match_level (loop_level s1) (loop_level s2)"
        using False by (auto simp: allowed_by_def list_ex_iff)
      show "\<forall>st \<in> set stacks. \<exists>s3 \<in> set st. match_level (loop_level s1) (loop_level s3)"
      proof
        fix st assume st: "st \<in> set stacks"
        show "\<exists>s3 \<in> set st. match_level (loop_level s1) (loop_level s3)"
        proof (cases "st \<in> set (butlast stacks)")
          case True
          with s2(2) obtain s3 where s3: "s3 \<in> set st"
            "match_level (loop_level s2) (loop_level s3)" by blast
          have "plain_level (loop_level s1)" "plain_level (loop_level s2)"
            "plain_level (loop_level s3)"
            using ps s1 plast s2(1) pl st s3(1) by (auto simp: plain_stack_def)
          with s2(3) s3(2) have "match_level (loop_level s1) (loop_level s3)"
            by (simp add: match_plain)
          with s3(1) show ?thesis by blast
        next
          case notin: False
          have "st \<in> set (butlast stacks @ [last stacks])"
            using st False by simp
          with notin have "st = last stacks" by simp
          with s2(1,3) show ?thesis by blast
        qed
      qed
    next
      assume all: "\<forall>st \<in> set stacks. \<exists>s2 \<in> set st. match_level (loop_level s1) (loop_level s2)"
      have "last stacks \<in> set stacks" using False by simp
      with all obtain s2 where s2: "s2 \<in> set (last stacks)"
        "match_level (loop_level s1) (loop_level s2)" by blast
      have "\<forall>st \<in> set (butlast stacks). \<exists>s3 \<in> set st. match_level (loop_level s2) (loop_level s3)"
      proof
        fix st assume st: "st \<in> set (butlast stacks)"
        then have st': "st \<in> set stacks" by (rule in_set_butlastD)
        with all obtain s3 where s3: "s3 \<in> set st"
          "match_level (loop_level s1) (loop_level s3)" by blast
        have "plain_level (loop_level s1)" "plain_level (loop_level s2)"
          "plain_level (loop_level s3)"
          using ps s1 plast s2(1) pl st' s3(1) by (auto simp: plain_stack_def)
        with s2(2) s3(2) have "match_level (loop_level s2) (loop_level s3)"
          by (simp add: match_plain)
        with s3(1) show "\<exists>s3 \<in> set st. match_level (loop_level s2) (loop_level s3)" by blast
      qed
      with s2 show "list_ex (\<lambda>s2. match_level (loop_level s1) (loop_level s2)) (allowed_by stacks)"
        using False by (auto simp: allowed_by_def list_ex_iff)
    qed
    have "filter (\<lambda>s1. list_ex (\<lambda>s2. match_level (loop_level s1) (loop_level s2))
                          (allowed_by stacks)) s =
          filter (\<lambda>s1. \<forall>st \<in> set stacks.
                          \<exists>s2 \<in> set st. match_level (loop_level s1) (loop_level s2)) s"
      by (rule filter_cong [OF refl]) (rule eq)
    then show ?thesis
      unfolding fold_register_use_snoc IH using False
      by (simp add: register_use_def allowed_by_def)
  qed
qed

text \<open>
  Claim C1, as amended. For every function and every skeleton statement on which the
  analyzer does not fail, the allowed sites are the sites of the loop stack of the last
  use visited whose level matches some site in the stack of every other use, in the order
  of that stack (outermost first); there are none when the function is not used. So every
  site of the result matches some site in the stack of every use. The uses are the calls
  of the function and the handle variables naming its buffers.
\<close>

theorem allowed_sites_intersect:
  "legal_sites env func s =
     (case use_stacks env func [] s of
        Inl e \<Rightarrow> Inl e
      | Inr stacks \<Rightarrow> Inr (allowed_by stacks))"
proof (cases "use_stacks env func [] s")
  case (Inl e)
  then show ?thesis by (simp add: legal_sites_def legal_stmt)
next
  case (Inr stacks)
  have "plain_stack []" by (simp add: plain_stack_def)
  from use_stacks_plain [OF this Inr] have "\<forall>st \<in> set stacks. plain_stack st" .
  from fold_register_use_plain [OF this] Inr show ?thesis
    by (simp add: legal_sites_def legal_stmt)
qed

lemma ex_reordered_stacks:
  "use_stacks ex_env ''f'' [] ex_reordered_stmt = Inr [ex_stack_yx, ex_stack_xy]"
  by code_simp

lemma ex_reordered_legal:
  "legal_sites ex_env ''f'' ex_reordered_stmt = Inr ex_stack_xy"
  by code_simp

lemma ex_reordered_prefix:
  "longest_common_prefix [ex_stack_yx, ex_stack_xy] = [ex_site False LoopLevel_root]"
  by code_simp

theorem allowed_sites_intersect_witness:
  "use_stacks ex_env ''f'' [] ex_reordered_stmt = Inr [ex_stack_yx, ex_stack_xy] \<and>
   legal_sites ex_env ''f'' ex_reordered_stmt = Inr (allowed_by [ex_stack_yx, ex_stack_xy]) \<and>
   allowed_by [ex_stack_yx, ex_stack_xy] = ex_stack_xy"
  using allowed_sites_intersect [of ex_env "''f''" ex_reordered_stmt] ex_reordered_stacks ex_reordered_legal
  by simp

text \<open>
  With two uses under the loops y, x and x, y (an update stage with reordered loops) every
  site of the second stack is allowed, while the longest common prefix of the two stacks
  is the root alone.
\<close>

theorem allowed_sites_not_a_prefix:
  "use_stacks ex_env ''f'' [] ex_reordered_stmt = Inr [ex_stack_yx, ex_stack_xy] \<and>
   legal_sites ex_env ''f'' ex_reordered_stmt = Inr ex_stack_xy \<and>
   longest_common_prefix [ex_stack_yx, ex_stack_xy] = [ex_site False LoopLevel_root] \<and>
   ex_stack_xy \<noteq> [ex_site False LoopLevel_root]"
  using ex_reordered_stacks ex_reordered_legal ex_reordered_prefix
  by (simp add: ex_stack_xy_def)

section \<open>The level test of the single-function injector\<close>


lemma digit_chars: "map digit_char [0, 1, 2, 3, 4, 5, 6, 7, 8, 9] = ''0123456789''"
  by code_simp

lemma digit_char_digit: "d < 10 \<Longrightarrow> digit_char d \<in> set ''0123456789''"
proof -
  assume "d < 10"
  then have "d \<in> set [0, 1, 2, 3, 4, 5, 6, 7, 8, 9]" by auto
  then have "digit_char d \<in> set (map digit_char [0, 1, 2, 3, 4, 5, 6, 7, 8, 9])"
    unfolding set_map by (rule imageI)
  then show ?thesis unfolding digit_chars .
qed

lemma digit_char_value: "d < 10 \<Longrightarrow> of_char (digit_char d) - 48 = d"
  by (simp add: digit_char_def)

lemma digit_char_no_dot: "d < 10 \<Longrightarrow> digit_char d \<noteq> CHR ''.''"
  using digit_char_digit by fastforce

lemma to_string_digits: "has_only_digits (to_string n)"
proof (induction n rule: to_string.induct)
  case (1 n)
  show ?case
  proof (cases "n < 10")
    case True
    then show ?thesis
      using digit_char_digit [of n]
      by (subst to_string.simps) (simp add: has_only_digits_def)
  next
    case False
    have "n mod 10 < 10" by simp
    from digit_char_digit [OF this] 1 False show ?thesis
      by (subst to_string.simps) (simp add: has_only_digits_def)
  qed
qed

lemma digits_value_snoc:
  "digits_value (xs @ [c]) = 10 * digits_value xs + (of_char c - 48)"
  by (simp add: digits_value_def)

lemma to_string_value: "digits_value (to_string n) = n"
proof (induction n rule: to_string.induct)
  case (1 n)
  show ?case
  proof (cases "n < 10")
    case True
    then show ?thesis
      by (subst to_string.simps) (simp add: digits_value_def digit_char_value)
  next
    case False
    have "n mod 10 < 10" by simp
    from digit_char_value [OF this] 1 False show ?thesis
      by (subst to_string.simps) (simp add: digits_value_snoc)
  qed
qed





lemma parse_stage:
  "stage \<le> 2147483647 \<Longrightarrow> parse_stage_step (''s'' @ to_string stage) st = Inr (Some stage)"
  by (simp add: parse_stage_step_def to_string_digits atoi_def to_string_value)






section \<open>Fused pairs: the bounds of the child loops\<close>

lemma emplace_all_Nil [simp]: "emplace_all [] r = r"
  by (simp add: emplace_all_def)

lemma emplace_all_Cons [simp]:
  "emplace_all (kv # kvs) r = emplace_all kvs (emplace r (fst kv) (snd kv))"
  by (simp add: emplace_all_def)

lemma emplace_all_append: "emplace_all (xs @ ys) r = emplace_all ys (emplace_all xs r)"
  by (simp add: emplace_all_def)

lemma emplace_keeps: "r k = Some x \<Longrightarrow> emplace r k' v k = Some x"
  by (cases "r k'") (auto simp: emplace_def)

lemma emplace_all_keeps: "r k = Some x \<Longrightarrow> emplace_all kvs r k = Some x"
  by (induction kvs arbitrary: r) (simp_all add: emplace_keeps)

lemma emplace_other: "k \<noteq> k' \<Longrightarrow> emplace r k' v k = r k"
  by (simp add: emplace_def split: option.splits)

lemma emplace_same: "emplace r k v k = Some (case r k of None \<Rightarrow> v | Some old \<Rightarrow> old)"
  by (simp add: emplace_def split: option.splits)

lemma emplace_all_lookup:
  assumes "(k, v) \<in> set kvs" and "\<forall>v'. (k, v') \<in> set kvs \<longrightarrow> v' = v"
  shows "emplace_all kvs r k = Some (case r k of None \<Rightarrow> v | Some old \<Rightarrow> old)"
  using assms
proof (induction kvs arbitrary: r)
  case Nil
  then show ?case by simp
next
  case (Cons kv kvs)
  show ?case
  proof (cases "fst kv = k")
    case True
    with Cons.prems(2) have v: "snd kv = v"
      by (metis list.set_intros(1) prod.collapse)
    have "emplace r (fst kv) (snd kv) k = Some (case r k of None \<Rightarrow> v | Some old \<Rightarrow> old)"
      using True v emplace_same [of r k v] by simp
    then have "emplace_all kvs (emplace r (fst kv) (snd kv)) k =
        Some (case r k of None \<Rightarrow> v | Some old \<Rightarrow> old)"
      by (rule emplace_all_keeps)
    then show ?thesis by simp
  next
    case False
    with Cons.prems(1) have in_rest: "(k, v) \<in> set kvs" by auto
    from Cons.prems(2) have fn: "\<forall>v'. (k, v') \<in> set kvs \<longrightarrow> v' = v" by auto
    have "emplace r (fst kv) (snd kv) k = r k"
      using False by (simp add: emplace_other)
    with Cons.IH [OF in_rest fn, of "emplace r (fst kv) (snd kv)"] show ?thesis by simp
  qed
qed

lemma register_fused_dim_replacements:
  "fm_replacements (register_fused_dim pair dim m) =
     emplace_all (fused_replacements pair dim) (fm_replacements m)"
  by (simp add: register_fused_dim_def fused_replacements_def Let_def)

lemma fold_register_fused_dim:
  "fm_replacements (fold (register_fused_dim pair) ds m) =
     emplace_all (concat (map (fused_replacements pair) ds)) (fm_replacements m)"
  by (induction ds arbitrary: m)
     (simp_all add: register_fused_dim_replacements emplace_all_append)

lemma min_max_distinct: "a @ ''.loop_min'' \<noteq> b @ ''.loop_max''"
proof
  assume "a @ ''.loop_min'' = b @ ''.loop_max''"
  then have "last (a @ ''.loop_min'') = last (b @ ''.loop_max'')" by (rule arg_cong)
  then show False by simp
qed

lemma min_extent_distinct: "a @ ''.loop_min'' \<noteq> b @ ''.loop_extent''"
proof
  assume "a @ ''.loop_min'' = b @ ''.loop_extent''"
  then have "last (a @ ''.loop_min'') = last (b @ ''.loop_extent'')" by (rule arg_cong)
  then show False by simp
qed

lemma max_extent_distinct: "a @ ''.loop_max'' \<noteq> b @ ''.loop_extent''"
proof
  assume "a @ ''.loop_max'' = b @ ''.loop_extent''"
  then have "last (a @ ''.loop_max'') = last (b @ ''.loop_extent'')" by (rule arg_cong)
  then show False by simp
qed

lemma child_key_inject:
  "stage_var f n v @ s = stage_var f n w @ s \<Longrightarrow> v = w"
  unfolding stage_var_def by (simp only: append_same_eq same_append_eq)

lemma fused_replacements_cases:
  assumes "(k, x) \<in> set (fused_replacements pair d)"
  shows "(k = stage_var (func_2 pair) (stage_2 pair) (dim_var d) @ ''.loop_min'' \<and>
          x = var32 (stage_var (func_1 pair) (stage_1 pair) (dim_var d))) \<or>
         (k = stage_var (func_2 pair) (stage_2 pair) (dim_var d) @ ''.loop_max'' \<and>
          x = var32 (stage_var (func_1 pair) (stage_1 pair) (dim_var d))) \<or>
         (k = stage_var (func_2 pair) (stage_2 pair) (dim_var d) @ ''.loop_extent'' \<and>
          x = const32 1)"
  using assms unfolding fused_replacements_def Let_def
  by (simp only: list.set insert_iff empty_iff prod.inject simp_thms)

lemma fused_replacements_functional:
  assumes "(k, x) \<in> set (concat (map (fused_replacements pair) ds))"
    and "(k, y) \<in> set (concat (map (fused_replacements pair) ds))"
  shows "x = y"
proof -
  from assms(1) obtain d1 where d1: "(k, x) \<in> set (fused_replacements pair d1)" by auto
  from assms(2) obtain d2 where d2: "(k, y) \<in> set (fused_replacements pair d2)" by auto
  let ?c1 = "stage_var (func_2 pair) (stage_2 pair) (dim_var d1)"
  let ?c2 = "stage_var (func_2 pair) (stage_2 pair) (dim_var d2)"
  note ne = min_max_distinct [of ?c1 ?c2] min_max_distinct [of ?c2 ?c1]
    min_extent_distinct [of ?c1 ?c2] min_extent_distinct [of ?c2 ?c1]
    max_extent_distinct [of ?c1 ?c2] max_extent_distinct [of ?c2 ?c1]
  have inj: "?c1 @ s = ?c2 @ s \<Longrightarrow> dim_var d1 = dim_var d2" for s
    by (rule child_key_inject)
  from fused_replacements_cases [OF d1] fused_replacements_cases [OF d2] ne
  show ?thesis
    using inj [of "''.loop_min''"] inj [of "''.loop_max''"] by metis
qed

lemma fused_replacements_mem:
  "(child_var pair dim @ ''.loop_min'', var32 (parent_var pair dim))
     \<in> set (fused_replacements pair dim)"
  "(child_var pair dim @ ''.loop_max'', var32 (parent_var pair dim))
     \<in> set (fused_replacements pair dim)"
  "(child_var pair dim @ ''.loop_extent'', const32 1) \<in> set (fused_replacements pair dim)"
  unfolding fused_replacements_def child_var_def parent_var_def Let_def
  by (simp_all only: list.set insert_iff simp_thms)

lemma fused_loop_name_last:
  assumes "CHR ''.'' \<notin> set v"
  shows "fused_loop_name (p @ ''.'' @ v) = Inr (p @ ''.fused.'' @ v)"
proof -
  have r: "rev (p @ ''.'' @ v) = rev v @ CHR ''.'' # rev p" by simp
  have "takeWhile (\<lambda>c. c \<noteq> CHR ''.'') (rev v @ CHR ''.'' # rev p) =
          takeWhile (\<lambda>c. c \<noteq> CHR ''.'') (rev v)"
    by (rule takeWhile_tail) simp
  also have "\<dots> = rev v"
    using assms by (auto simp: takeWhile_eq_all_conv)
  finally have tw: "takeWhile (\<lambda>c. c \<noteq> CHR ''.'') (rev (p @ ''.'' @ v)) = rev v"
    unfolding r .
  have dot: "CHR ''.'' \<in> set (p @ ''.'' @ v)" by simp
  show ?thesis
    unfolding fused_loop_name_def Let_def tw using dot by simp
qed

lemma fused_loop_name_child:
  assumes "CHR ''.'' \<notin> set (dim_var dim)"
  shows "fused_loop_name (child_var pair dim) = Inr (fused_var pair dim)"
  using fused_loop_name_last [OF assms, of "func_2 pair @ ''.s'' @ to_string (stage_2 pair)"]
  by (simp add: child_var_def fused_var_def stage_var_def)

lemma SubstituteBounds_fused_For:
  assumes "fused_loop_name n = Inr new_var"
    and "replacements min_name = Some min_val"
    and "replacements extent_name = Some extent_val"
    and "SubstituteBounds ext replacements body bnds = Inr (body1, bnds1)"
  shows "SubstituteBounds ext replacements
           (For n (var32 min_name) (var32 extent_name) ft dev body) bnds =
         Inr (substitute n (var32 new_var)
                (LetStmt (new_var @ ''.loop_extent'') extent_val
                  (LetStmt (new_var @ ''.loop_max'')
                     (simplify ext (Bin Sub (Bin Add min_val extent_val) (const32 1)))
                     (LetStmt (new_var @ ''.loop_min'') min_val
                        (For new_var (var32 (new_var @ ''.loop_min''))
                           (var32 (new_var @ ''.loop_extent''))
                           (if extent_val = const32 1 then Serial else ft) dev body1)))),
              bnds1)"
  using assms
  by (simp add: replaced_bounds_def as_variable_def var32_def fused_loop_def Let_def
        is_one_def const32_def)

lemma for_loops_substitute:
  "map loop_header (for_loops (substitute name r s)) = map loop_header (for_loops s)"
  by (induction s) (auto simp: loop_header_def split: option.splits)

lemma SubstituteBounds_loops:
  "SubstituteBounds ext replacements s bnds = Inr r \<Longrightarrow>
     map loop_header (for_loops (fst r)) = map (fused_header replacements) (for_loops s)"
proof (induction ext replacements s bnds arbitrary: r rule: SubstituteBounds.induct)
  case (2 ext replacements n mn extent ft dev body bnds)
  from "2.prems" obtain rb where rb: "SubstituteBounds ext replacements body bnds = Inr rb"
    by (auto split: sum.splits)
  note ih = "2.IH" [OF rb]
  show ?case
  proof (cases "replaced_bounds replacements mn extent")
    case None
    with "2.prems" rb ih show ?thesis
      by (auto simp: loop_header_def fused_header_def)
  next
    case (Some vals)
    with "2.prems" rb obtain stmt where
      f: "fused_loop ext n ft dev (fst vals) (snd vals) (fst rb) = Inr stmt" and r: "r = (stmt, snd rb)"
      by (auto split: sum.splits)
    from f obtain new_var where nv: "fused_loop_name n = Inr new_var"
      by (auto simp: fused_loop_def split: sum.splits)
    with f have "map loop_header (for_loops stmt) =
        (new_var, if is_one (snd vals) then Serial else ft, dev) # map loop_header (for_loops (fst rb))"
      by (auto simp: fused_loop_def Let_def for_loops_substitute loop_header_def)
    with ih r nv Some show ?thesis
      by (simp add: fused_header_def fused_name_def)
  qed
qed (auto simp: loop_header_def split: sum.splits option.splits)

lemma fold_err_emplace:
  assumes "\<And>x s s'. x \<in> set xs \<Longrightarrow> f x s = Inr s' \<Longrightarrow> R s' = emplace_all (g x) (R s)"
    and "fold_err f xs s = Inr s'"
  shows "R s' = emplace_all (concat (map g xs)) (R s)"
  using assms
proof (induction xs arbitrary: s)
  case Nil
  then show ?case by simp
next
  case (Cons x xs)
  from Cons.prems(2) obtain s1 where s1: "f x s = Inr s1" and rest: "fold_err f xs s1 = Inr s'"
    by (auto split: sum.splits)
  have "R s1 = emplace_all (g x) (R s)"
    using Cons.prems(1) [OF _ s1] by simp
  moreover have "R s' = emplace_all (concat (map g xs)) (R s1)"
    using Cons.IH [OF _ rest] Cons.prems(1) by simp
  ultimately show ?case by (simp add: emplace_all_append)
qed

lemma register_fused_pair_registrations:
  assumes "register_fused_pair env skip ds pair st = Inr st'"
  shows "fm_replacements (snd st') =
           emplace_all (pair_registrations env skip ds pair) (fm_replacements (snd st))"
  using assms
  by (auto simp: register_fused_pair_def pair_registrations_def fused_dims_def
        fold_register_fused_dim split: option.splits bool.splits sum.splits if_splits)

lemma build_produce_definition_registrations:
  assumes "build_produce_definition ext env skip f prefix d is_update st = Inr r"
  shows "fm_replacements (gs_maps (snd r)) =
           emplace_all (definition_registrations env skip d) (fm_replacements (gs_maps st))"
proof -
  from assms obtain sf0 rr where
    reg: "fold_err (register_fused_pair env skip (dims (def_schedule d)))
            (fused_pairs (def_schedule d)) (sf0, gs_maps st) = Inr rr"
    and r: "gs_maps (snd r) = snd rr"
    by (auto simp: build_produce_definition_def Let_def split: sum.splits)
  have "fm_replacements (snd rr) =
      emplace_all (concat (map (pair_registrations env skip (dims (def_schedule d)))
                             (fused_pairs (def_schedule d))))
        (fm_replacements (snd (sf0, gs_maps st)))"
    by (rule fold_err_emplace [OF _ reg]) (rule register_fused_pair_registrations)
  with r show ?thesis by (simp add: definition_registrations_def)
qed

lemma produce_stage_registrations:
  assumes "produce_stage ext env skip f stage d acc = Inr acc'"
  shows "fm_replacements (gs_maps (snd acc')) =
           emplace_all (definition_registrations env skip d) (fm_replacements (gs_maps (snd acc)))"
proof -
  from assms obtain r where
    b: "build_produce_definition ext env skip f (func_name f @ ''.s'' @ to_string stage @ ''.'')
          d (stage \<noteq> 0) (snd acc) = Inr r"
    and a: "snd acc' = snd r"
    by (auto simp: produce_stage_def split: sum.splits)
  from build_produce_definition_registrations [OF b] a show ?thesis by simp
qed

lemma build_produce_group_registrations:
  assumes "build_produce_group ext env skip f acc = Inr acc'"
  shows "fm_replacements (gs_maps (snd acc')) =
           emplace_all (function_registrations env skip f) (fm_replacements (gs_maps (snd acc)))"
proof -
  from assms obtain acc1 where
    first: "produce_stage ext env skip f 0 (func_definition f) acc = Inr acc1"
    and rest: "fold_err (\<lambda>j. produce_stage ext env skip f (j + 1) (func_updates f ! j))
                 [0 ..< length (func_updates f)] acc1 = Inr acc'"
    by (auto simp: build_produce_group_def split: sum.splits)
  have "fm_replacements (gs_maps (snd acc')) =
      emplace_all (concat (map (\<lambda>j. definition_registrations env skip (func_updates f ! j))
                             [0 ..< length (func_updates f)]))
        (fm_replacements (gs_maps (snd acc1)))"
    by (rule fold_err_emplace [OF _ rest]) (rule produce_stage_registrations)
  moreover have "map (\<lambda>j. definition_registrations env skip (func_updates f ! j))
                   [0 ..< length (func_updates f)] =
                 map (definition_registrations env skip) (func_updates f)"
    by (rule nth_equalityI) simp_all
  ultimately show ?thesis
    using produce_stage_registrations [OF first]
    by (simp add: function_registrations_def emplace_all_append)
qed

lemma group_fold_registrations:
  assumes "fold_err (\<lambda>g. build_produce_group ext env skip (fst g)) members acc = Inr acc'"
  shows "fm_replacements (gs_maps (snd acc')) =
           emplace_all (group_registrations env skip members)
             (fm_replacements (gs_maps (snd acc)))"
  unfolding group_registrations_def
  by (rule fold_err_emplace [OF _ assms]) (rule build_produce_group_registrations)

lemma registered_lookup:
  assumes "single_valued (set regs)" and "(k, v) \<in> set regs"
  shows "emplace_all regs Map.empty k = Some v"
proof -
  have "\<forall>v'. (k, v') \<in> set regs \<longrightarrow> v' = v"
    using assms by (auto dest: single_valuedD)
  from emplace_all_lookup [OF assms(2) this, of Map.empty] show ?thesis by simp
qed

lemma fused_replacements_registered:
  assumes "g \<in> set members" and "d \<in> set (func_definition (fst g) # func_updates (fst g))"
    and "pair \<in> set (fused_pairs (def_schedule d))"
    and "map_of env (func_2 pair) \<noteq> None" and "skip (func_2 pair) = Some False"
    and "find_dim (dims (def_schedule d)) (var_name pair) = Inr (Some idx)"
    and "dim \<in> set (dims_from (dims (def_schedule d)) idx)"
  shows "set (fused_replacements pair dim) \<subseteq> set (group_registrations env skip members)"
proof -
  from assms(4-7) have "set (fused_replacements pair dim)
      \<subseteq> set (pair_registrations env skip (dims (def_schedule d)) pair)"
    by (auto simp: pair_registrations_def fused_dims_def)
  also from assms(3) have "\<dots> \<subseteq> set (definition_registrations env skip d)"
    by (auto simp: definition_registrations_def)
  also from assms(2) have "\<dots> \<subseteq> set (function_registrations env skip (fst g))"
    unfolding function_registrations_def by auto
  also from assms(1) have "\<dots> \<subseteq> set (group_registrations env skip members)"
    by (auto simp: group_registrations_def)
  finally show ?thesis .
qed

lemma fold_err_invariant:
  assumes "\<And>x s s'. x \<in> set xs \<Longrightarrow> I s \<Longrightarrow> f x s = Inr s' \<Longrightarrow> I s'"
    and "I s" and "fold_err f xs s = Inr s'"
  shows "I s'"
  using assms
proof (induction xs arbitrary: s)
  case Nil
  then show ?case by simp
next
  case (Cons x xs)
  from Cons.prems(3) obtain s1 where s1: "f x s = Inr s1" and rest: "fold_err f xs s1 = Inr s'"
    by (auto split: sum.splits)
  have s1_ok: "I s1" using Cons.prems(1) [OF _ Cons.prems(2) s1] by simp
  show ?case
  proof (rule Cons.IH [OF _ s1_ok rest])
    fix y t t'
    assume "y \<in> set xs" "I t" "f y t = Inr t'"
    then show "I t'" using Cons.prems(1) [of y t t'] by simp
  qed
qed

lemma fold_keeps_loops:
  assumes "\<And>x st. for_loops (h x st) = for_loops st"
  shows "for_loops (fold h xs st) = for_loops st"
  by (induction xs arbitrary: st) (simp_all add: assms)

lemma for_loops_substitute_Nil:
  "for_loops s = [] \<Longrightarrow> for_loops (substitute name r s) = []"
  using for_loops_substitute [of name r s] by simp

lemma for_loops_strip_lets: "for_loops (snd (strip_lets s)) = for_loops s"
  by (induction s rule: strip_lets.induct) (simp_all add: case_prod_beta)

lemma for_loops_reinstate_lets: "for_loops (reinstate_lets lets s) = for_loops s"
  by (induction lets) (simp_all add: reinstate_lets_def)

lemma for_loops_fused_guard: "for_loops (fused_guard prefix dim s) = for_loops s"
  by (simp add: fused_guard_def Let_def)

lemma for_loops_loop_bound_lets: "for_loops (loop_bound_lets prefix pure_dims rvs s) = for_loops s"
  unfolding loop_bound_lets_def Let_def
  by (simp add: fold_keeps_loops)

lemma own_bounds_rewrap_step:
  "own_bounds s \<Longrightarrow> rewrap_step ds c s = Inr s' \<Longrightarrow> own_bounds s'"
  by (auto simp: rewrap_step_def own_bounds_def Let_def
        split: ContainerType.splits option.splits)

lemma own_bounds_helper:
  assumes "build_provide_loop_nest_helper ext fname prefix start_fuse pure_dims site vals preds
             sched is_update = Inr r"
  shows "own_bounds r"
proof -
  define stmt1 where "stmt1 = fold (fused_guard prefix)
      (if start_fuse < 0 then []
       else map (\<lambda>i. dims sched ! i) [nat start_fuse ..< length (dims sched) - 1])
      (Provide fname vals site)"
  define stmt2 where "stmt2 = fold (\<lambda>sub st. substitute (fst sub) (snd sub) st)
      (substitutions (apply_splits ext (splits sched) is_update prefix
                        (dim_extent_alignment sched))) stmt1"
  have l1: "for_loops stmt1 = []"
    unfolding stmt1_def by (simp add: fold_keeps_loops for_loops_fused_guard)
  have "for_loops (fold (\<lambda>sub st. substitute (fst sub) (snd sub) st) subs st) = []"
    if "for_loops st = []" for subs st
    using that by (induction subs arbitrary: st) (simp_all add: for_loops_substitute_Nil)
  with l1 have l2: "for_loops stmt2 = []"
    unfolding stmt2_def by simp
  then have o3: "own_bounds (snd (strip_lets stmt2))"
    by (simp add: own_bounds_def for_loops_strip_lets)
  from assms obtain nest2 stmt4 where
    wrap: "fold_err (rewrap_step (dims sched)) (rev nest2) (snd (strip_lets stmt2)) = Inr stmt4"
    and r: "r = loop_bound_lets prefix pure_dims (rvars sched)
              (fold (\<lambda>sp st. fold (\<lambda>l st1. LetStmt (fst l) (snd l) st1)
                                (compute_loop_bounds_after_split ext sp prefix) st)
                 (rev (splits sched)) stmt4)"
    unfolding build_provide_loop_nest_helper_def Let_def stmt1_def stmt2_def
    by (auto split: sum.splits)
  have "own_bounds stmt4"
    by (rule fold_err_invariant [where I = own_bounds, OF _ o3 wrap])
       (rule own_bounds_rewrap_step)
  then show ?thesis
    unfolding r own_bounds_def
    by (simp add: for_loops_loop_bound_lets fold_keeps_loops)
qed

lemma own_bounds_loop_nest:
  "build_provide_loop_nest ext fname prefix sf pd d upd = Inr r \<Longrightarrow> own_bounds r"
  "own_bounds stmt \<Longrightarrow> specialized_copies ext fname prefix sf pd upd specs stmt = Inr r \<Longrightarrow>
     own_bounds r"
proof (induction ext fname prefix sf pd d upd and ext fname prefix sf pd upd specs stmt
    arbitrary: r and r rule: build_provide_loop_nest_specialized_copies.induct)
  case (1 ext fname prefix start_fuse pure_dims d is_update)
  from "1.prems" obtain stmt where
    ok: "\<not> (\<not> is_update) \<noteq> def_is_init d"
    and h: "build_provide_loop_nest_helper ext fname prefix start_fuse pure_dims
              (map (qualify ext prefix) (def_args d)) (map (qualify ext prefix) (def_values d))
              (split_predicate d) (def_schedule d) is_update = Inr stmt"
    and c: "specialized_copies ext fname prefix start_fuse pure_dims is_update
              (rev (specializations d)) stmt = Inr r"
    by (subst (asm) build_provide_loop_nest.simps) (auto simp: Let_def split: if_splits sum.splits)
  from "1.IH" [OF ok refl refl h own_bounds_helper [OF h] c] show ?case .
next
  case (2 ext fname prefix start_fuse pure_dims is_update stmt)
  then show ?case by simp
next
  case (3 ext fname prefix start_fuse pure_dims is_update sp rest stmt)
  from "3.prems"(2) obtain then_case where
    t: "build_provide_loop_nest ext fname prefix start_fuse pure_dims (snd sp) is_update =
          Inr then_case"
    and c: "specialized_copies ext fname prefix start_fuse pure_dims is_update rest
              (IfThenElse (fst sp) then_case (Some stmt)) = Inr r"
    by (auto split: sum.splits)
  have "own_bounds then_case" by (rule "3.IH"(1) [OF t])
  with "3.prems"(1) have "own_bounds (IfThenElse (fst sp) then_case (Some stmt))"
    by (simp add: own_bounds_def)
  from "3.IH"(2) [OF t this c] show ?case .
qed

lemma own_bounds_InjectStmt:
  "own_bounds s \<Longrightarrow> own_bounds injected \<Longrightarrow>
     own_bounds (fst (InjectStmt injected level s found_level))"
  by (induction injected level s found_level rule: InjectStmt.induct)
     (auto simp: own_bounds_def Let_def split: option.splits)

lemma own_bounds_Block: "own_bounds (Block a b) \<longleftrightarrow> own_bounds a \<and> own_bounds b"
  by (simp add: own_bounds_def)

lemma own_bounds_inject_stmt:
  assumes "inject_stmt root injected level = Inr s" and "own_bounds injected"
    and "case root of None \<Rightarrow> True | Some r \<Rightarrow> own_bounds r"
  shows "own_bounds s"
  using assms
  by (auto simp: inject_stmt_def Let_def own_bounds_InjectStmt own_bounds_Block
        split: option.splits if_splits)

lemma own_bounds_produce_stage:
  assumes "produce_stage ext env skip f stage d acc = Inr acc'"
    and "own_bounds_opt (fst acc)"
  shows "own_bounds_opt (fst acc')"
proof -
  from assms(1) obtain r produce where
    b: "build_produce_definition ext env skip f (func_name f @ ''.s'' @ to_string stage @ ''.'')
          d (stage \<noteq> 0) (snd acc) = Inr r"
    and i: "inject_stmt (fst acc) (fst r) (fuse_level (def_schedule d)) = Inr produce"
    and a: "fst acc' = Some produce"
    by (auto simp: produce_stage_def split: sum.splits)
  from b obtain nest sf where
    n: "build_provide_loop_nest ext (func_name f)
          (func_name f @ ''.s'' @ to_string stage @ ''.'') sf (func_args f) d (stage \<noteq> 0) = Inr nest"
    and r: "fst r = snd (strip_lets nest)"
    by (auto simp: build_produce_definition_def Let_def split: sum.splits)
  have "own_bounds (fst r)"
    using own_bounds_loop_nest(1) [OF n] unfolding r own_bounds_def
    by (simp add: for_loops_strip_lets)
  from own_bounds_inject_stmt [OF i this] assms(2) a show ?thesis
    by (simp add: own_bounds_opt_def)
qed

lemma own_bounds_produce_group:
  assumes "build_produce_group ext env skip f acc = Inr acc'"
    and "own_bounds_opt (fst acc)"
  shows "own_bounds_opt (fst acc')"
proof -
  from assms(1) obtain acc1 where
    first: "produce_stage ext env skip f 0 (func_definition f) acc = Inr acc1"
    and rest: "fold_err (\<lambda>j. produce_stage ext env skip f (j + 1) (func_updates f ! j))
                 [0 ..< length (func_updates f)] acc1 = Inr acc'"
    by (auto simp: build_produce_group_def split: sum.splits)
  have o1: "own_bounds_opt (fst acc1)"
    by (rule own_bounds_produce_stage [OF first assms(2)])
  show ?thesis
    by (rule fold_err_invariant [where I = "\<lambda>a. own_bounds_opt (fst a)", OF _ o1 rest])
       (rule own_bounds_produce_stage)
qed

lemma own_bounds_group_fold:
  assumes "fold_err (\<lambda>g. build_produce_group ext env skip (fst g)) members acc = Inr acc'"
    and "own_bounds_opt (fst acc)"
  shows "own_bounds_opt (fst acc')"
  by (rule fold_err_invariant [where I = "\<lambda>a. own_bounds_opt (fst a)", OF _ assms(2) assms(1)])
     (rule own_bounds_produce_group)

lemma fused_header_own_bounds:
  assumes "own_bounds s"
  shows "map (fused_header replacements) (for_loops s) =
           map (renamed_loop replacements) (map loop_header (for_loops s))"
proof -
  have "fused_header replacements l = renamed_loop replacements (loop_header l)"
    if "l \<in> set (for_loops s)" for l
  proof -
    obtain n mn extent ft dev where l: "l = (n, mn, extent, ft, dev)"
      by (cases l) auto
    with assms that have "mn = var32 (n @ ''.loop_min'')" "extent = var32 (n @ ''.loop_extent'')"
      by (auto simp: own_bounds_def list_all_iff)
    with l show ?thesis
      by (simp add: fused_header_def renamed_loop_def loop_header_def replaced_bounds_def
            as_variable_def var32_def is_one_def const32_def split: option.splits)
  qed
  then show ?thesis by simp
qed

lemma build_pipeline_group_steps:
  assumes "build_pipeline_group ext env grp s = Inr result"
    and "num_skipped grp s \<noteq> length grp"
  obtains produce0 st produce1 bnds1 produce2 where
    "group_producer ext env grp s = Inr (Some produce0, st)"
    "substitute_bounds ext (reinstate_lets (gs_add_lets st) produce0) (fm_bounds (gs_maps st))
       (fm_replacements (gs_maps st)) = Inr (produce1, bnds1)"
    "replace_parent_bound_with_union_bound ext env (skip_map grp s)
       (fst (hd (group_members grp s))) produce1 bnds1 = Inr produce2"
    "result = Block (wrap_producer_consumer (skip_map grp s) grp True produce2)
                (wrap_producer_consumer (skip_map grp s) grp False s)"
  using assms
  unfolding build_pipeline_group_def group_producer_def group_members_def Let_def
  by (auto split: if_splits sum.splits option.splits prod.splits)

lemma renamed_child_loop:
  assumes "replacements (child_var pair dim @ ''.loop_min'') = Some min_val"
    and "replacements (child_var pair dim @ ''.loop_extent'') = Some (const32 1)"
    and "CHR ''.'' \<notin> set (dim_var dim)"
  shows "renamed_loop replacements (child_var pair dim, ft, dev) = (fused_var pair dim, Serial, dev)"
  using assms fused_loop_name_child [OF assms(3), of pair]
  by (simp add: renamed_loop_def fused_name_def)

lemma ex_group_built:
  "build_pipeline_group trivial_ext ex_group_env ex_group ex_group_consumer = Inr ex_group_result"
  by code_simp

lemma ex_group_not_skipped: "num_skipped ex_group ex_group_consumer \<noteq> length ex_group"
  by code_simp

lemma ex_group_registered:
  "group_registrations ex_group_env (skip_map ex_group ex_group_consumer)
     (group_members ex_group ex_group_consumer) =
   [(''g.s0.y.loop_min'', var32 ''f.s0.y''), (''g.s0.y.loop_max'', var32 ''f.s0.y''),
    (''g.s0.y.loop_extent'', IntImm 1)]"
  by code_simp

lemma ex_group_loops:
  "(case group_producer trivial_ext ex_group_env ex_group ex_group_consumer of
      Inl e \<Rightarrow> []
    | Inr r \<Rightarrow>
        (case fst r of
           None \<Rightarrow> []
         | Some p \<Rightarrow> loop_headers (reinstate_lets (gs_add_lets (snd r)) p))) =
   [(''f.s0.__outermost'', Serial, DeviceAPI_None), (''f.s0.y'', Serial, DeviceAPI_None),
    (''f.s0.x'', Serial, DeviceAPI_None), (''g.s0.__outermost'', Serial, DeviceAPI_None),
    (''g.s0.y'', Parallel, DeviceAPI_None), (''g.s0.x'', Serial, DeviceAPI_None)]"
  by code_simp

lemma ex_group_fused_loops:
  "(case group_producer trivial_ext ex_group_env ex_group ex_group_consumer of
      Inl e \<Rightarrow> []
    | Inr r \<Rightarrow>
        (case fst r of
           None \<Rightarrow> []
         | Some p \<Rightarrow>
             (case substitute_bounds trivial_ext (reinstate_lets (gs_add_lets (snd r)) p)
                     (fm_bounds (gs_maps (snd r))) (fm_replacements (gs_maps (snd r))) of
                Inl e \<Rightarrow> []
              | Inr r1 \<Rightarrow> loop_headers (fst r1)))) =
   [(''f.s0.__outermost'', Serial, DeviceAPI_None), (''f.s0.y'', Serial, DeviceAPI_None),
    (''f.s0.x'', Serial, DeviceAPI_None), (''g.s0.__outermost'', Serial, DeviceAPI_None),
    (''g.s0.fused.y'', Serial, DeviceAPI_None), (''g.s0.x'', Serial, DeviceAPI_None)]"
  by code_simp

lemma ex_pair_registered:
  "registered_pair ex_group_env (skip_map ex_group ex_group_consumer)
     (func_definition ex_parent_f) ex_pair 1"
  by code_simp

lemma ex_pair_dim:
  "ex_dim ''y'' \<in> set (dims_from (dims (def_schedule (func_definition ex_parent_f))) 1)"
  by code_simp

lemma ex_pair_names:
  "child_var ex_pair (ex_dim ''y'') = ''g.s0.y''"
  "parent_var ex_pair (ex_dim ''y'') = ''f.s0.y''"
  "fused_var ex_pair (ex_dim ''y'') = ''g.s0.fused.y''"
  by code_simp+

text \<open>
  Claim C2. Take a run of the pipeline build of the fused-group injector that returns,
  with a group that is not skipped as a whole, in which no child loop is registered with
  two different parents. Then the construction of the producer and the substitution of the
  bounds returned, and the map \<open>replacements\<close> handed to the substitution binds, for every
  fused pair of a stage of a member whose child is in the environment and not skipped, and
  for every dim from the index of the pair's variable up to, but excluding, the last one
  (\<open>__outermost\<close>), the child's \<open>.loop_min\<close> and \<open>.loop_max\<close> to the parent's loop variable
  and its \<open>.loop_extent\<close> to the constant 1. The loops of the statement returned by the
  substitution are, in order, those of the producer, where a loop whose \<open>.loop_min\<close> and
  \<open>.loop_extent\<close> are replaced carries the name with \<open>.fused\<close> before its last component
  and is Serial when the replaced extent is the constant 1; so the loop of such a child
  over a dim with a dot-free name is \<open>func.s<stage>.fused.var\<close> and Serial. The result of
  the build is the block of that statement, after the union of the bounds of the parent,
  and the consumer.
\<close>

theorem fused_child_bounds_replaced:
  assumes "build_pipeline_group ext env grp s = Inr result"
    and "num_skipped grp s \<noteq> length grp"
    and "single_valued (set (group_registrations env (skip_map grp s) (group_members grp s)))"
  shows "\<exists>produce0 st produce1 bnds1.
      group_producer ext env grp s = Inr (Some produce0, st) \<and>
      substitute_bounds ext (reinstate_lets (gs_add_lets st) produce0) (fm_bounds (gs_maps st))
        (fm_replacements (gs_maps st)) = Inr (produce1, bnds1) \<and>
      (\<forall>g \<in> set (group_members grp s).
       \<forall>d \<in> set (func_definition (fst g) # func_updates (fst g)).
       \<forall>pair idx. registered_pair env (skip_map grp s) d pair idx \<longrightarrow>
         (\<forall>dim \<in> set (dims_from (dims (def_schedule d)) idx).
            fm_replacements (gs_maps st) (child_var pair dim @ ''.loop_min'') =
              Some (var32 (parent_var pair dim)) \<and>
            fm_replacements (gs_maps st) (child_var pair dim @ ''.loop_max'') =
              Some (var32 (parent_var pair dim)) \<and>
            fm_replacements (gs_maps st) (child_var pair dim @ ''.loop_extent'') =
              Some (const32 1) \<and>
            (CHR ''.'' \<notin> set (dim_var dim) \<longrightarrow>
               (\<forall>ft dev. renamed_loop (fm_replacements (gs_maps st))
                            (child_var pair dim, ft, dev) =
                          (fused_var pair dim, Serial, dev))))) \<and>
      loop_headers produce1 =
        map (renamed_loop (fm_replacements (gs_maps st)))
          (loop_headers (reinstate_lets (gs_add_lets st) produce0)) \<and>
      (\<exists>produce2.
         replace_parent_bound_with_union_bound ext env (skip_map grp s)
           (fst (hd (group_members grp s))) produce1 bnds1 = Inr produce2 \<and>
         result = Block (wrap_producer_consumer (skip_map grp s) grp True produce2)
                    (wrap_producer_consumer (skip_map grp s) grp False s))"
proof -
  let ?skip = "skip_map grp s"
  let ?regs = "group_registrations env ?skip (group_members grp s)"
  from build_pipeline_group_steps [OF assms(1,2)]
  obtain produce0 st produce1 bnds1 produce2 where
    prod: "group_producer ext env grp s = Inr (Some produce0, st)"
    and sub: "substitute_bounds ext (reinstate_lets (gs_add_lets st) produce0)
                (fm_bounds (gs_maps st)) (fm_replacements (gs_maps st)) = Inr (produce1, bnds1)"
    and uni: "replace_parent_bound_with_union_bound ext env ?skip
                (fst (hd (group_members grp s))) produce1 bnds1 = Inr produce2"
    and res: "result = Block (wrap_producer_consumer ?skip grp True produce2)
                (wrap_producer_consumer ?skip grp False s)"
    by blast
  let ?repl = "fm_replacements (gs_maps st)"
  have repl: "?repl = emplace_all ?regs Map.empty"
    using group_fold_registrations [OF prod [unfolded group_producer_def]] by simp
  have bound: "?repl k = Some v" if "(k, v) \<in> set ?regs" for k v
    unfolding repl by (rule registered_lookup [OF assms(3) that])
  have own: "own_bounds (reinstate_lets (gs_add_lets st) produce0)"
    using own_bounds_group_fold [OF prod [unfolded group_producer_def]]
    by (simp add: own_bounds_opt_def own_bounds_def for_loops_reinstate_lets)
  have loops: "loop_headers produce1 =
      map (renamed_loop ?repl) (loop_headers (reinstate_lets (gs_add_lets st) produce0))"
    using SubstituteBounds_loops [OF sub [unfolded substitute_bounds_def]]
      fused_header_own_bounds [OF own, of ?repl]
    by (simp add: loop_headers_def)
  have child: "?repl (child_var pair dim @ ''.loop_min'') = Some (var32 (parent_var pair dim)) \<and>
      ?repl (child_var pair dim @ ''.loop_max'') = Some (var32 (parent_var pair dim)) \<and>
      ?repl (child_var pair dim @ ''.loop_extent'') = Some (const32 1) \<and>
      (CHR ''.'' \<notin> set (dim_var dim) \<longrightarrow>
         (\<forall>ft dev. renamed_loop ?repl (child_var pair dim, ft, dev) =
                    (fused_var pair dim, Serial, dev)))"
    if g: "g \<in> set (group_members grp s)"
      and d: "d \<in> set (func_definition (fst g) # func_updates (fst g))"
      and p: "registered_pair env ?skip d pair idx"
      and dim: "dim \<in> set (dims_from (dims (def_schedule d)) idx)"
    for g d pair idx dim
  proof -
    from p have "set (fused_replacements pair dim) \<subseteq> set ?regs"
      unfolding registered_pair_def
      by (intro fused_replacements_registered [OF g d _ _ _ _ dim]) simp_all
    with fused_replacements_mem [of pair dim]
    have b: "?repl (child_var pair dim @ ''.loop_min'') = Some (var32 (parent_var pair dim))"
      "?repl (child_var pair dim @ ''.loop_max'') = Some (var32 (parent_var pair dim))"
      "?repl (child_var pair dim @ ''.loop_extent'') = Some (const32 1)"
      by (auto intro: bound)
    from renamed_child_loop [OF b(1) b(3)] b show ?thesis by blast
  qed
  from prod sub loops uni res child show ?thesis by blast
qed

theorem fused_child_bounds_replaced_witness:
  "build_pipeline_group trivial_ext ex_group_env ex_group ex_group_consumer =
     Inr ex_group_result \<and>
   num_skipped ex_group ex_group_consumer \<noteq> length ex_group \<and>
   single_valued (set (group_registrations ex_group_env (skip_map ex_group ex_group_consumer)
                         (group_members ex_group ex_group_consumer))) \<and>
   (ex_parent_f, False) \<in> set (group_members ex_group ex_group_consumer) \<and>
   registered_pair ex_group_env (skip_map ex_group ex_group_consumer)
     (func_definition ex_parent_f) ex_pair 1 \<and>
   ex_dim ''y'' \<in> set (dims_from (dims (def_schedule (func_definition ex_parent_f))) 1) \<and>
   (\<exists>produce0 st produce1 bnds1.
      group_producer trivial_ext ex_group_env ex_group ex_group_consumer =
        Inr (Some produce0, st) \<and>
      substitute_bounds trivial_ext (reinstate_lets (gs_add_lets st) produce0)
        (fm_bounds (gs_maps st)) (fm_replacements (gs_maps st)) = Inr (produce1, bnds1) \<and>
      fm_replacements (gs_maps st) ''g.s0.y.loop_min'' = Some (var32 ''f.s0.y'') \<and>
      fm_replacements (gs_maps st) ''g.s0.y.loop_max'' = Some (var32 ''f.s0.y'') \<and>
      fm_replacements (gs_maps st) ''g.s0.y.loop_extent'' = Some (IntImm 1) \<and>
      renamed_loop (fm_replacements (gs_maps st)) (''g.s0.y'', Parallel, DeviceAPI_None) =
        (''g.s0.fused.y'', Serial, DeviceAPI_None) \<and>
      loop_headers (reinstate_lets (gs_add_lets st) produce0) =
        [(''f.s0.__outermost'', Serial, DeviceAPI_None), (''f.s0.y'', Serial, DeviceAPI_None),
         (''f.s0.x'', Serial, DeviceAPI_None), (''g.s0.__outermost'', Serial, DeviceAPI_None),
         (''g.s0.y'', Parallel, DeviceAPI_None), (''g.s0.x'', Serial, DeviceAPI_None)] \<and>
      loop_headers produce1 =
        [(''f.s0.__outermost'', Serial, DeviceAPI_None), (''f.s0.y'', Serial, DeviceAPI_None),
         (''f.s0.x'', Serial, DeviceAPI_None), (''g.s0.__outermost'', Serial, DeviceAPI_None),
         (''g.s0.fused.y'', Serial, DeviceAPI_None), (''g.s0.x'', Serial, DeviceAPI_None)])"
proof -
  have sv: "single_valued (set (group_registrations ex_group_env
              (skip_map ex_group ex_group_consumer) (group_members ex_group ex_group_consumer)))"
    unfolding ex_group_registered by (simp add: single_valued_def)
  have "not_skipped (skip_map ex_group ex_group_consumer) (ex_parent_f, False)"
    by code_simp
  then have mem: "(ex_parent_f, False) \<in> set (group_members ex_group ex_group_consumer)"
    by (simp add: group_members_def ex_group_def)
  have d: "func_definition ex_parent_f
             \<in> set (func_definition (fst (ex_parent_f, False)) #
                    func_updates (fst (ex_parent_f, False)))"
    by simp
  have nodot: "CHR ''.'' \<notin> set (dim_var (ex_dim ''y''))"
    by (simp add: ex_dim_def)
  from fused_child_bounds_replaced [OF ex_group_built ex_group_not_skipped sv]
  obtain produce0 st produce1 bnds1 where
    prod: "group_producer trivial_ext ex_group_env ex_group ex_group_consumer =
             Inr (Some produce0, st)"
    and sub: "substitute_bounds trivial_ext (reinstate_lets (gs_add_lets st) produce0)
                (fm_bounds (gs_maps st)) (fm_replacements (gs_maps st)) = Inr (produce1, bnds1)"
    and reg: "\<forall>g \<in> set (group_members ex_group ex_group_consumer).
       \<forall>d \<in> set (func_definition (fst g) # func_updates (fst g)).
       \<forall>pair idx. registered_pair ex_group_env (skip_map ex_group ex_group_consumer) d pair idx \<longrightarrow>
         (\<forall>dim \<in> set (dims_from (dims (def_schedule d)) idx).
            fm_replacements (gs_maps st) (child_var pair dim @ ''.loop_min'') =
              Some (var32 (parent_var pair dim)) \<and>
            fm_replacements (gs_maps st) (child_var pair dim @ ''.loop_max'') =
              Some (var32 (parent_var pair dim)) \<and>
            fm_replacements (gs_maps st) (child_var pair dim @ ''.loop_extent'') =
              Some (const32 1) \<and>
            (CHR ''.'' \<notin> set (dim_var dim) \<longrightarrow>
               (\<forall>ft dev. renamed_loop (fm_replacements (gs_maps st))
                            (child_var pair dim, ft, dev) =
                          (fused_var pair dim, Serial, dev))))"
    by blast
  from reg [rule_format, OF mem d ex_pair_registered ex_pair_dim]
  have b: "fm_replacements (gs_maps st) (''g.s0.y'' @ ''.loop_min'') = Some (var32 ''f.s0.y'')"
    "fm_replacements (gs_maps st) (''g.s0.y'' @ ''.loop_max'') = Some (var32 ''f.s0.y'')"
    "fm_replacements (gs_maps st) (''g.s0.y'' @ ''.loop_extent'') = Some (const32 1)"
    and rn: "CHR ''.'' \<notin> set (dim_var (ex_dim ''y'')) \<longrightarrow>
       (\<forall>ft dev. renamed_loop (fm_replacements (gs_maps st)) (''g.s0.y'', ft, dev) =
                  (''g.s0.fused.y'', Serial, dev))"
    unfolding ex_pair_names by blast+
  from rn nodot
  have r: "renamed_loop (fm_replacements (gs_maps st)) (''g.s0.y'', Parallel, DeviceAPI_None) =
             (''g.s0.fused.y'', Serial, DeviceAPI_None)"
    by blast
  have l0: "loop_headers (reinstate_lets (gs_add_lets st) produce0) =
        [(''f.s0.__outermost'', Serial, DeviceAPI_None), (''f.s0.y'', Serial, DeviceAPI_None),
         (''f.s0.x'', Serial, DeviceAPI_None), (''g.s0.__outermost'', Serial, DeviceAPI_None),
         (''g.s0.y'', Parallel, DeviceAPI_None), (''g.s0.x'', Serial, DeviceAPI_None)]"
    using ex_group_loops unfolding prod by simp
  have l1: "loop_headers produce1 =
        [(''f.s0.__outermost'', Serial, DeviceAPI_None), (''f.s0.y'', Serial, DeviceAPI_None),
         (''f.s0.x'', Serial, DeviceAPI_None), (''g.s0.__outermost'', Serial, DeviceAPI_None),
         (''g.s0.fused.y'', Serial, DeviceAPI_None), (''g.s0.x'', Serial, DeviceAPI_None)]"
    using ex_group_fused_loops unfolding prod by (simp add: sub)
  from b have b': "fm_replacements (gs_maps st) ''g.s0.y.loop_min'' = Some (var32 ''f.s0.y'')"
    "fm_replacements (gs_maps st) ''g.s0.y.loop_max'' = Some (var32 ''f.s0.y'')"
    "fm_replacements (gs_maps st) ''g.s0.y.loop_extent'' = Some (IntImm 1)"
    by (simp_all add: const32_def)
  from prod sub b' r l0 l1
  have "\<exists>produce0 st produce1 bnds1.
      group_producer trivial_ext ex_group_env ex_group ex_group_consumer =
        Inr (Some produce0, st) \<and>
      substitute_bounds trivial_ext (reinstate_lets (gs_add_lets st) produce0)
        (fm_bounds (gs_maps st)) (fm_replacements (gs_maps st)) = Inr (produce1, bnds1) \<and>
      fm_replacements (gs_maps st) ''g.s0.y.loop_min'' = Some (var32 ''f.s0.y'') \<and>
      fm_replacements (gs_maps st) ''g.s0.y.loop_max'' = Some (var32 ''f.s0.y'') \<and>
      fm_replacements (gs_maps st) ''g.s0.y.loop_extent'' = Some (IntImm 1) \<and>
      renamed_loop (fm_replacements (gs_maps st)) (''g.s0.y'', Parallel, DeviceAPI_None) =
        (''g.s0.fused.y'', Serial, DeviceAPI_None) \<and>
      loop_headers (reinstate_lets (gs_add_lets st) produce0) =
        [(''f.s0.__outermost'', Serial, DeviceAPI_None), (''f.s0.y'', Serial, DeviceAPI_None),
         (''f.s0.x'', Serial, DeviceAPI_None), (''g.s0.__outermost'', Serial, DeviceAPI_None),
         (''g.s0.y'', Parallel, DeviceAPI_None), (''g.s0.x'', Serial, DeviceAPI_None)] \<and>
      loop_headers produce1 =
        [(''f.s0.__outermost'', Serial, DeviceAPI_None), (''f.s0.y'', Serial, DeviceAPI_None),
         (''f.s0.x'', Serial, DeviceAPI_None), (''g.s0.__outermost'', Serial, DeviceAPI_None),
         (''g.s0.fused.y'', Serial, DeviceAPI_None), (''g.s0.x'', Serial, DeviceAPI_None)]"
    by blast
  with ex_group_built ex_group_not_skipped sv mem ex_pair_registered ex_pair_dim
  show ?thesis by (intro conjI)
qed

section \<open>A placement that passes validation and fails in the injector\<close>

text \<open>
  The update stage of \<open>g\<close> is fused into its initial stage at \<open>x\<close>, so the loops of the
  update stage, renamed, lie inside the loop \<open>g.s0.x\<close>, and the levels \<open>(g, y)\<close> and
  \<open>(g, x)\<close> occur twice among the sites of \<open>f\<close>, which the update stage calls. The
  function \<open>f\<close> is stored at \<open>(g, x)\<close> and computed at \<open>(g, y)\<close>, outside its storage.
\<close>

lemma ex_self_fused_legal: "legal_sites ex_self_fused_env ''f'' ex_self_fused_stmt = Inr ex_self_fused_sites"
  by code_simp

lemma ex_self_fused_valid: "validate_placement ex_self_fused_env
     (ex_placed (ex_level ''g'' ''x'') (ex_level ''g'' ''y'')) ex_self_fused_stmt False = Inr ()"
  by code_simp

lemma ex_self_fused_matches: "matching_sites ex_self_fused_sites (ex_level ''g'' ''x'') = [3, 6]"
  "matching_sites ex_self_fused_sites (ex_level ''g'' ''y'') = [2, 5]"
  by code_simp+

lemma to_string_01: "to_string 0 = ''0''" "to_string 1 = ''1''"
  by code_simp+

lemma stage_words:
  "parse_stage_step ''s0'' st = Inr (Some 0)" "parse_stage_step ''s1'' st = Inr (Some 1)"
  "parse_stage_step ''fused'' st = Inr st"
proof -
  have "parse_stage_step (''s'' @ to_string 0) st = Inr (Some 0)"
    by (rule parse_stage) simp
  then show "parse_stage_step ''s0'' st = Inr (Some 0)"
    unfolding to_string_01 by simp
  have "parse_stage_step (''s'' @ to_string 1) st = Inr (Some 1)"
    by (rule parse_stage) simp
  then show "parse_stage_step ''s1'' st = Inr (Some 1)"
    unfolding to_string_01 by simp
  show "parse_stage_step ''fused'' st = Inr st"
    by (simp add: parse_stage_step_def)
qed

lemma ex_self_fused_right_level: "is_the_right_level ex_self_fused_env ''g.s1.fused.x'' = Inr False"
  "is_the_right_level ex_self_fused_env ''g.s1.fused.y'' = Inr False"
  "is_the_right_level ex_self_fused_env ''g.s0.x'' = Inr True"
  by (simp_all add: is_the_right_level_def level_to_string_def LoopLevel_root_def stage_words
        ex_self_fused_env_def ex_self_fused_g_def ex_function_def stage_definition_def
        ex_definition_def ex_schedule_def ex_level_def is_inline_def is_root_def
        LoopLevel_inline_def ex_dim_def var_name_match_def ends_with_def)

lemma ex_misplaced_simps:
  "has_extern_definition ex_misplaced = False" "func_name ex_misplaced = ''f''"
  "compute_level (func_schedule ex_misplaced) = ex_level ''g'' ''y''"
  "store_level (func_schedule ex_misplaced) = ex_level ''g'' ''x''"
  by (simp_all add: ex_misplaced_def ex_placed_def ex_function_def func_schedule_def
        ex_definition_def)

lemma ex_misplaced_levels:
  "at_level ex_self_fused_env (ex_level ''g'' ''y'') ''g.s1.fused.x'' = Inr False"
  "at_level ex_self_fused_env (ex_level ''g'' ''x'') ''g.s1.fused.x'' = Inr False"
  "at_level ex_self_fused_env (ex_level ''g'' ''y'') ''g.s1.fused.y'' = Inr False"
  "at_level ex_self_fused_env (ex_level ''g'' ''x'') ''g.s1.fused.y'' = Inr False"
  "at_level ex_self_fused_env (ex_level ''g'' ''y'') ''g.s1.__outermost'' = Inr False"
  "at_level ex_self_fused_env (ex_level ''g'' ''x'') ''g.s1.__outermost'' = Inr False"
  "at_level ex_self_fused_env (ex_level ''g'' ''y'') ''g.s0.x'' = Inr False"
  "at_level ex_self_fused_env (ex_level ''g'' ''x'') ''g.s0.x'' = Inr True"
  by (simp_all add: at_level_def ex_self_fused_right_level match_loop_def ex_level_def starts_with_def ends_with_def)

lemma after_body_elsewhere:
  assumes "at_level env (compute_level (func_schedule func)) n = Inr False"
    and "at_level env (store_level (func_schedule func)) n = Inr False"
  shows "after_body ext env target func is_output n body st = Inr (body, st)"
  using assms by (simp add: after_body_def)

lemma after_body_store_first:
  assumes "at_level env (compute_level (func_schedule func)) n = Inr False"
    and "at_level env (store_level (func_schedule func)) n = Inr True"
    and "\<not> found_compute_level st"
  shows "after_body ext env target func is_output n body st = Inl InternalError"
  using assms by (simp add: after_body_def)

lemma inject_loop:
  assumes "\<not> has_extern_definition func" and "strip_lets body = ([], body)"
  shows "InjectRealization ext env target func is_output (ex_loop n ft body) st =
     (case InjectRealization ext env target func is_output body st of
        Inl e \<Rightarrow> Inl e
      | Inr r \<Rightarrow>
          (case after_body ext env target func is_output n (fst r) (snd r) of
             Inl e \<Rightarrow> Inl e
           | Inr r1 \<Rightarrow> Inr (ex_loop n ft (fst r1), snd r1)))"
  using assms by (simp add: ex_loop_def reinstate_lets_def Let_def split: sum.splits)

lemma inject_consumer:
  "InjectRealization ext ex_self_fused_env target ex_misplaced False ex_consumer st =
     Inr (ex_consumer, st)"
  by (simp add: ex_consumer_def ex_misplaced_simps is_inline_def ex_level_def)

lemma strip_no_lets:
  "strip_lets (ex_loop n ft b) = ([], ex_loop n ft b)"
  "strip_lets ex_consumer = ([], ex_consumer)"
  "strip_lets (Block a c) = ([], Block a c)"
  by (simp_all add: ex_loop_def ex_consumer_def)

lemma inject_child_nest:
  "InjectRealization ext ex_self_fused_env target ex_misplaced False
     (ex_loop ''g.s1.__outermost'' Serial
        (ex_loop ''g.s1.fused.y'' Serial (ex_loop ''g.s1.fused.x'' Serial ex_consumer))) st =
   Inr (ex_loop ''g.s1.__outermost'' Serial
          (ex_loop ''g.s1.fused.y'' Serial (ex_loop ''g.s1.fused.x'' Serial ex_consumer)), st)"
  by (simp add: inject_loop strip_no_lets ex_misplaced_simps inject_consumer
        after_body_elsewhere ex_misplaced_levels)

lemma inject_init:
  "InjectRealization ext ex_self_fused_env target ex_misplaced False
     (Provide ''g'' [IntImm 0] [var32 ''g.s0.x'', var32 ''g.s0.y'']) st =
     Inr (Provide ''g'' [IntImm 0] [var32 ''g.s0.x'', var32 ''g.s0.y''], st)"
  by (simp add: ex_misplaced_simps is_inline_def ex_level_def)

lemma inject_fails:
  "InjectRealization ext ex_self_fused_env target ex_misplaced False ex_self_fused_stmt
     \<lparr>found_store_level = False, found_compute_level = False\<rparr> = Inl InternalError"
proof -
  have blk: "InjectRealization ext ex_self_fused_env target ex_misplaced False
        (Block (Provide ''g'' [IntImm 0] [var32 ''g.s0.x'', var32 ''g.s0.y''])
           (ex_loop ''g.s1.__outermost'' Serial
              (ex_loop ''g.s1.fused.y'' Serial (ex_loop ''g.s1.fused.x'' Serial ex_consumer))))
        st =
      Inr (Block (Provide ''g'' [IntImm 0] [var32 ''g.s0.x'', var32 ''g.s0.y''])
           (ex_loop ''g.s1.__outermost'' Serial
              (ex_loop ''g.s1.fused.y'' Serial (ex_loop ''g.s1.fused.x'' Serial ex_consumer))),
           st)" for st
    by (simp add: inject_init inject_child_nest del: InjectRealization.simps(2))
  have x: "InjectRealization ext ex_self_fused_env target ex_misplaced False
     (ex_loop ''g.s0.x'' Serial
        (Block (Provide ''g'' [IntImm 0] [var32 ''g.s0.x'', var32 ''g.s0.y''])
           (ex_loop ''g.s1.__outermost'' Serial
              (ex_loop ''g.s1.fused.y'' Serial (ex_loop ''g.s1.fused.x'' Serial ex_consumer)))))
     \<lparr>found_store_level = False, found_compute_level = False\<rparr> = Inl InternalError"
    by (simp add: inject_loop strip_no_lets ex_misplaced_simps blk
          after_body_store_first ex_misplaced_levels del: InjectRealization.simps)
  show ?thesis
    unfolding ex_self_fused_stmt_def ex_root_def
    by (simp add: inject_loop strip_no_lets ex_misplaced_simps x reinstate_lets_def Let_def)
qed

text \<open>
  Claim C8. Validation is to raise a user error when the compute site lies outside the
  store site. Here each compute site (2 and 5) lies outside the store site of its round
  (3 and 6), yet validation succeeds, because a store site (3) precedes the last compute
  site (5). The injector then reaches the store level at \<open>g.s0.x\<close> before any compute
  level and its own assertion fails.
\<close>

theorem compute_outside_store_accepted:
  "legal_sites ex_self_fused_env ''f'' ex_self_fused_stmt = Inr ex_self_fused_sites \<and>
   matching_sites ex_self_fused_sites (store_level (func_schedule ex_misplaced)) = [3, 6] \<and>
   matching_sites ex_self_fused_sites (compute_level (func_schedule ex_misplaced)) = [2, 5] \<and>
   validate_placement ex_self_fused_env ex_misplaced ex_self_fused_stmt False = Inr () \<and>
   InjectRealization trivial_ext ex_self_fused_env ex_target ex_misplaced False
     ex_self_fused_stmt \<lparr>found_store_level = False, found_compute_level = False\<rparr> =
     Inl InternalError"
  using ex_self_fused_legal ex_self_fused_matches ex_self_fused_valid
    inject_fails [of trivial_ext ex_target]
  by (simp add: ex_misplaced_simps) (simp add: ex_misplaced_def)

end
